(* ===== verification/Gw_Prelude.thy ===== *)
theory Gw_Prelude
  imports Main "HOL-Library.Word" "HOL-Library.Finite_Map" "HOL-Library.List_Lexorder" "HOL-Library.Multiset"
begin

text \<open>
  Shared vocabulary of the development: machine integers, byte strings and their
  little/big-endian codecs, Rust's checked and saturating arithmetic, outcomes of fallible
  code (\<open>Result\<close> plus panics), the state monad in which code taking \<open>&mut self\<close> is
  written, and the few \<open>Vec\<close>/\<open>HashMap\<close> operations the components use.

  Every Cargo profile of the repository sets \<open>overflow-checks = true\<close>, so a plain \<open>+\<close>,
  \<open>-\<close> or \<open>*\<close> that overflows is a panic (\<open>add_or_panic\<close> and its kin below), never a
  wrap-around.
\<close>

unbundle bit_operations_syntax

named_theorems outcome_simps \<open>evaluation rules of the outcome and state monads\<close>
named_theorems codec_simps \<open>round trips of the byte codecs\<close>
named_theorems arith_defs \<open>definitions of the checked and saturating operations\<close>

section \<open>Machine integers and byte strings\<close>

type_synonym byte = "8 word"
type_synonym u8 = "8 word"
type_synonym u32 = "32 word"
type_synonym u64 = "64 word"
type_synonym u128 = "128 word"
type_synonym u256 = "256 word"
type_synonym bytes = "8 word list"

text \<open>\<open>to_le_bytes\<close> and \<open>from_le_bytes\<close> of Rust's unsigned integers, for any width.\<close>

definition to_le_bytes :: "nat \<Rightarrow> 'a::len word \<Rightarrow> bytes" where
  "to_le_bytes n w = map (\<lambda>i. ucast (drop_bit (8 * i) w)) [0..<n]"

primrec from_le_bytes :: "bytes \<Rightarrow> 'a::len word" where
  "from_le_bytes [] = 0"
| "from_le_bytes (b # bs) = ucast b OR push_bit 8 (from_le_bytes bs)"

definition to_be_bytes :: "nat \<Rightarrow> 'a::len word \<Rightarrow> bytes" where
  "to_be_bytes n w = rev (to_le_bytes n w)"

definition from_be_bytes :: "bytes \<Rightarrow> 'a::len word" where
  "from_be_bytes bs = from_le_bytes (rev bs)"

text \<open>
  \<open>H256\<close> is \<open>[u8; 32]\<close>. The array \<open>a\<close> is represented by the 256-bit word whose
  little-endian bytes are \<open>a\<close>: \<open>as_slice\<close> reads the array back, \<open>h256_of_bytes\<close> builds
  it from 32 bytes.
\<close>

type_synonym h256 = "256 word"

definition as_slice :: "h256 \<Rightarrow> bytes" where
  "as_slice h = to_le_bytes 32 h"

definition h256_of_bytes :: "bytes \<Rightarrow> h256" where
  "h256_of_bytes bs = from_le_bytes bs"

section \<open>Rust arithmetic\<close>

definition checked_add :: "'a::len word \<Rightarrow> 'a word \<Rightarrow> 'a word option" where
  [arith_defs]: "checked_add a b = (if unat a + unat b < 2 ^ LENGTH('a) then Some (a + b) else None)"

definition checked_sub :: "'a::len word \<Rightarrow> 'a word \<Rightarrow> 'a word option" where
  [arith_defs]: "checked_sub a b = (if b \<le> a then Some (a - b) else None)"

definition checked_mul :: "'a::len word \<Rightarrow> 'a word \<Rightarrow> 'a word option" where
  [arith_defs]: "checked_mul a b = (if unat a * unat b < 2 ^ LENGTH('a) then Some (a * b) else None)"

definition saturating_add :: "'a::len word \<Rightarrow> 'a word \<Rightarrow> 'a word" where
  [arith_defs]: "saturating_add a b = (case checked_add a b of Some c \<Rightarrow> c | None \<Rightarrow> - 1)"

definition saturating_sub :: "'a::len word \<Rightarrow> 'a word \<Rightarrow> 'a word" where
  [arith_defs]: "saturating_sub a b = (case checked_sub a b of Some c \<Rightarrow> c | None \<Rightarrow> 0)"

definition saturating_mul :: "'a::len word \<Rightarrow> 'a word \<Rightarrow> 'a word" where
  [arith_defs]: "saturating_mul a b = (case checked_mul a b of Some c \<Rightarrow> c | None \<Rightarrow> - 1)"

section \<open>Outcomes and the state monad\<close>

text \<open>
  A fallible Rust function returns \<open>Ok\<close>, \<open>Err\<close>, or does not return because it panicked.
  A function on \<open>&mut self\<close> also yields the state it leaves behind, on the error path too:
  an early \<open>return Err(..)\<close> keeps the writes made before it.
\<close>

datatype ('e, 'a) outcome = Ok 'a | Err 'e | Panic

type_synonym ('s, 'e, 'a) sm = "'s \<Rightarrow> ('e, 'a) outcome \<times> 's"

fun obind :: "('e, 'a) outcome \<Rightarrow> ('a \<Rightarrow> ('e, 'b) outcome) \<Rightarrow> ('e, 'b) outcome" where
  "obind (Ok x) f = f x"
| "obind (Err e) f = Err e"
| "obind Panic f = Panic"

fun omap_err :: "('e \<Rightarrow> 'f) \<Rightarrow> ('e, 'a) outcome \<Rightarrow> ('f, 'a) outcome" where
  "omap_err g (Ok x) = Ok x"
| "omap_err g (Err e) = Err (g e)"
| "omap_err g Panic = Panic"

definition ok_or :: "'e \<Rightarrow> 'a option \<Rightarrow> ('e, 'a) outcome" where
  "ok_or e x = (case x of Some v \<Rightarrow> Ok v | None \<Rightarrow> Err e)"

definition or_panic :: "'a option \<Rightarrow> ('e, 'a) outcome" where
  "or_panic x = (case x of Some v \<Rightarrow> Ok v | None \<Rightarrow> Panic)"

definition guard_err :: "'e \<Rightarrow> bool \<Rightarrow> ('e, unit) outcome" where
  "guard_err e b = (if b then Ok () else Err e)"

definition add_or_panic :: "'a::len word \<Rightarrow> 'a word \<Rightarrow> ('e, 'a word) outcome" where
  "add_or_panic a b = or_panic (checked_add a b)"

definition sub_or_panic :: "'a::len word \<Rightarrow> 'a word \<Rightarrow> ('e, 'a word) outcome" where
  "sub_or_panic a b = or_panic (checked_sub a b)"

fun omapM :: "('a \<Rightarrow> ('e, 'b) outcome) \<Rightarrow> 'a list \<Rightarrow> ('e, 'b list) outcome" where
  "omapM f [] = Ok []"
| "omapM f (x # xs) = obind (f x) (\<lambda>y. obind (omapM f xs) (\<lambda>ys. Ok (y # ys)))"

definition ret :: "'a \<Rightarrow> ('s, 'e, 'a) sm" where
  "ret x = (\<lambda>s. (Ok x, s))"

definition fail :: "'e \<Rightarrow> ('s, 'e, 'a) sm" where
  "fail e = (\<lambda>s. (Err e, s))"

definition panic :: "('s, 'e, 'a) sm" where
  "panic = (\<lambda>s. (Panic, s))"

definition lift_o :: "('e, 'a) outcome \<Rightarrow> ('s, 'e, 'a) sm" where
  "lift_o x = (\<lambda>s. (x, s))"

definition gets :: "('s \<Rightarrow> 'a) \<Rightarrow> ('s, 'e, 'a) sm" where
  "gets f = (\<lambda>s. (Ok (f s), s))"

definition modify :: "('s \<Rightarrow> 's) \<Rightarrow> ('s, 'e, unit) sm" where
  "modify f = (\<lambda>s. (Ok (), f s))"

definition sbind :: "('s, 'e, 'a) sm \<Rightarrow> ('a \<Rightarrow> ('s, 'e, 'b) sm) \<Rightarrow> ('s, 'e, 'b) sm" where
  "sbind m f = (\<lambda>s. case m s of
      (Ok x, s') \<Rightarrow> f x s'
    | (Err e, s') \<Rightarrow> (Err e, s')
    | (Panic, s') \<Rightarrow> (Panic, s'))"

definition map_err :: "('e \<Rightarrow> 'f) \<Rightarrow> ('s, 'e, 'a) sm \<Rightarrow> ('s, 'f, 'a) sm" where
  "map_err g m = (\<lambda>s. case m s of (r, s') \<Rightarrow> (omap_err g r, s'))"

fun sfor :: "'a list \<Rightarrow> ('a \<Rightarrow> ('s, 'e, unit) sm) \<Rightarrow> ('s, 'e, unit) sm" where
  "sfor [] f = ret ()"
| "sfor (x # xs) f = sbind (f x) (\<lambda>_. sfor xs f)"

section \<open>Vectors\<close>

text \<open>\<open>Iterator::position\<close>, \<open>Vec::remove\<close> and \<open>Vec::swap\<close>.\<close>

fun position :: "('a \<Rightarrow> bool) \<Rightarrow> 'a list \<Rightarrow> nat option" where
  "position p [] = None"
| "position p (x # xs) = (if p x then Some 0 else map_option Suc (position p xs))"

definition vec_remove :: "nat \<Rightarrow> 'a list \<Rightarrow> 'a list" where
  "vec_remove i xs = take i xs @ drop (Suc i) xs"

definition vec_swap :: "nat \<Rightarrow> nat \<Rightarrow> 'a list \<Rightarrow> 'a list" where
  "vec_swap i j xs = xs[i := xs ! j, j := xs ! i]"

text \<open>The slice \<open>xs[a..b]\<close> of bytes known to be long enough.\<close>

definition byte_range :: "nat \<Rightarrow> nat \<Rightarrow> bytes \<Rightarrow> bytes" where
  "byte_range a b xs = take (b - a) (drop a xs)"

text \<open>\<open>buf[i..i + xs.len()].copy_from_slice(xs)\<close>, for a range inside the buffer.\<close>

definition copy_at :: "nat \<Rightarrow> 'a list \<Rightarrow> 'a list \<Rightarrow> 'a list" where
  "copy_at i xs buf = take i buf @ xs @ drop (i + length xs) buf"

text \<open>
  \<open>slice::binary_search_by_key\<close>: \<open>Ok\<close> of an index carrying the key, or \<open>Err\<close> of the
  place where it would be inserted.
\<close>

function binary_search_loop :: "(nat \<Rightarrow> 'k::linorder) \<Rightarrow> 'k \<Rightarrow> nat \<Rightarrow> nat \<Rightarrow> (nat, nat) outcome" where
  "binary_search_loop f key left right = (
     if left < right then
       let mid = left + (right - left) div 2
       in if f mid = key then Ok mid
          else if f mid < key then binary_search_loop f key (mid + 1) right
          else binary_search_loop f key left mid
     else Err left)"
  by pat_completeness auto
termination
  by (relation "measure (\<lambda>(f, key, left, right). right - left)") auto

declare binary_search_loop.simps [simp del]

definition binary_search_by_key ::
  "'k::linorder \<Rightarrow> ('a \<Rightarrow> 'k) \<Rightarrow> 'a list \<Rightarrow> (nat, nat) outcome" where
  "binary_search_by_key key f xs = binary_search_loop (\<lambda>i. f (xs ! i)) key 0 (length xs)"

text \<open>\<open>U256::bits\<close>: the number of bits a value needs.\<close>

fun nat_bits :: "nat \<Rightarrow> nat" where
  "nat_bits n = (if n = 0 then 0 else Suc (nat_bits (n div 2)))"

declare nat_bits.simps [simp del]

text \<open>The rows of a map in key order: what a forward iterator over an ordered column visits.\<close>

definition fm_rows :: "('k::linorder, 'v) fmap \<Rightarrow> ('k \<times> 'v) list" where
  "fm_rows m = sorted_list_of_fmap m"

section \<open>Lemmas on outcomes and the state monad\<close>

lemma ok_or_simps [simp, outcome_simps]:
  "ok_or e (Some v) = Ok v" "ok_or e None = Err e"
  by (simp_all add: ok_or_def)

lemma or_panic_simps [simp, outcome_simps]:
  "or_panic (Some v) = Ok v" "or_panic None = Panic"
  by (simp_all add: or_panic_def)

lemma ok_or_eq_Ok [simp]: "ok_or e x = Ok v \<longleftrightarrow> x = Some v"
  by (cases x) auto

lemma or_panic_eq_Ok [simp]: "or_panic x = Ok v \<longleftrightarrow> x = Some v"
  by (cases x) auto

lemma guard_err_simps [simp, outcome_simps]:
  "guard_err e True = Ok ()" "guard_err e False = Err e"
  by (simp_all add: guard_err_def)

lemma guard_err_eq_Ok [simp]: "guard_err e b = Ok u \<longleftrightarrow> b"
  by (simp add: guard_err_def)

lemma obind_eq_Ok [simp]: "obind m f = Ok y \<longleftrightarrow> (\<exists>x. m = Ok x \<and> f x = Ok y)"
  by (cases m) auto

lemma omap_err_eq_Ok [simp]: "omap_err g m = Ok y \<longleftrightarrow> m = Ok y"
  by (cases m) auto

lemma sbind_ok [outcome_simps]: "m s = (Ok x, s') \<Longrightarrow> sbind m f s = f x s'"
  by (simp add: sbind_def)

lemma sbind_err [outcome_simps]: "m s = (Err e, s') \<Longrightarrow> sbind m f s = (Err e, s')"
  by (simp add: sbind_def)

lemma sbind_panic [outcome_simps]: "m s = (Panic, s') \<Longrightarrow> sbind m f s = (Panic, s')"
  by (simp add: sbind_def)

lemma sm_prim_simps [simp, outcome_simps]:
  "ret x s = (Ok x, s)" "fail e s = (Err e, s)" "panic s = (Panic, s)"
  "lift_o r s = (r, s)" "gets g s = (Ok (g s), s)" "modify h s = (Ok (), h s)"
  by (simp_all add: ret_def fail_def panic_def lift_o_def gets_def modify_def)

lemma sbind_prim_simps [simp, outcome_simps]:
  "sbind (ret x) f s = f x s"
  "sbind (fail e) f s = (Err e, s)"
  "sbind panic f s = (Panic, s)"
  "sbind (gets g) f s = f (g s) s"
  "sbind (modify h) k s = k () (h s)"
  "sbind (lift_o (Ok x)) f s = f x s"
  "sbind (lift_o (Err e)) f s = (Err e, s)"
  "sbind (lift_o Panic) f s = (Panic, s)"
  by (simp_all add: sbind_def)

lemma sbind_Pair [simp, outcome_simps]:
  "sbind (Pair (Ok x)) f = f x" "sbind (Pair (Err e)) f = Pair (Err e)"
  "sbind (Pair Panic) f = Pair Panic"
  by (rule ext, simp add: sbind_def)+

lemma sbind_Ok_iff:
  "sbind m f s = (Ok y, t) \<longleftrightarrow> (\<exists>x s'. m s = (Ok x, s') \<and> f x s' = (Ok y, t))"
  by (auto simp: sbind_def split: prod.splits outcome.splits)

lemma sbind_OkE:
  assumes "sbind m f s = (Ok y, t)"
  obtains x s' where "m s = (Ok x, s')" and "f x s' = (Ok y, t)"
  using assms by (auto simp: sbind_Ok_iff)

lemma lift_o_Ok_iff [simp]: "lift_o r s = (Ok x, t) \<longleftrightarrow> r = Ok x \<and> t = s"
  by auto

lemma map_err_Ok_iff [simp]: "map_err g m s = (Ok x, t) \<longleftrightarrow> m s = (Ok x, t)"
  by (auto simp: map_err_def split: prod.splits)

lemma map_err_run [outcome_simps]: "m s = (r, s') \<Longrightarrow> map_err g m s = (omap_err g r, s')"
  by (simp add: map_err_def)

lemma sbind_assoc: "sbind (sbind m f) g = sbind m (\<lambda>x. sbind (f x) g)"
  by (rule ext) (auto simp: sbind_def split: prod.splits outcome.splits)

text \<open>An invariant every pass of a loop keeps is kept by the loop, whatever its outcome.\<close>

lemma sfor_invariant:
  assumes "P s" and "\<And>x s r t. x \<in> set xs \<Longrightarrow> P s \<Longrightarrow> f x s = (r, t) \<Longrightarrow> P t"
    and "sfor xs f s = (r, t)"
  shows "P t"
  using assms
proof (induction xs arbitrary: s)
  case Nil
  then show ?case by simp
next
  case (Cons x xs)
  obtain r1 s1 where step: "f x s = (r1, s1)" by (cases "f x s")
  then have P1: "P s1" using Cons.prems(1,2) by (metis list.set_intros(1))
  show ?case
  proof (cases r1)
    case (Ok u)
    with step Cons.prems(3) have "sfor xs f s1 = (r, t)" by (simp add: sbind_def)
    with Cons.IH [OF P1] Cons.prems(2) show ?thesis by (metis list.set_intros(2))
  qed (use step P1 Cons.prems(3) in \<open>auto simp: sbind_def\<close>)
qed

section \<open>Lemmas on the codecs\<close>

lemma length_to_le_bytes [simp]: "length (to_le_bytes n w) = n"
  by (simp add: to_le_bytes_def)

lemma length_to_be_bytes [simp]: "length (to_be_bytes n w) = n"
  by (simp add: to_be_bytes_def)

lemma length_as_slice [simp]: "length (as_slice h) = 32"
  by (simp add: as_slice_def)

lemma nth_to_le_bytes [simp]: "i < n \<Longrightarrow> to_le_bytes n w ! i = ucast (drop_bit (8 * i) w)"
  by (simp add: to_le_bytes_def)

lemma bit_from_le_bytes:
  "bit (from_le_bytes bs :: 'a::len word) i \<longleftrightarrow>
     i < LENGTH('a) \<and> i div 8 < length bs \<and> bit (bs ! (i div 8)) (i mod 8)"
proof (induction bs arbitrary: i)
  case Nil
  then show ?case by simp
next
  case (Cons b bs)
  show ?case
  proof (cases "i < 8")
    case True
    then show ?thesis
      by (auto simp: bit_or_iff bit_ucast_iff bit_push_bit_iff dest: bit_imp_le_length)
  next
    case False
    then have hi: "\<not> bit b i" by (auto dest: bit_imp_le_length)
    from False have d: "i div 8 = Suc ((i - 8) div 8)" "i mod 8 = (i - 8) mod 8"
      by (auto simp: le_div_geq le_mod_geq not_less)
    from False show ?thesis
      using Cons.IH [of "i - 8"]
      by (auto simp: bit_or_iff bit_ucast_iff bit_push_bit_iff hi d not_less)
  qed
qed

lemma from_to_le_bytes [codec_simps]:
  assumes "LENGTH('a) \<le> 8 * n"
  shows "from_le_bytes (to_le_bytes n (w :: 'a::len word)) = w"
proof (rule bit_word_eqI)
  fix i assume i: "i < LENGTH('a)"
  then have d: "i div 8 < n" using assms by linarith
  have "8 * (i div 8) + i mod 8 = i" by simp
  then show "bit (from_le_bytes (to_le_bytes n w) :: 'a word) i = bit w i"
    using i d by (auto simp: bit_from_le_bytes bit_ucast_iff bit_drop_bit_eq)
qed

lemma to_from_le_bytes [codec_simps]:
  assumes "length bs = n" and "8 * n \<le> LENGTH('a)"
  shows "to_le_bytes n (from_le_bytes bs :: 'a::len word) = bs"
proof (rule nth_equalityI)
  show "length (to_le_bytes n (from_le_bytes bs :: 'a word)) = length bs"
    using assms by simp
next
  fix i assume "i < length (to_le_bytes n (from_le_bytes bs :: 'a word))"
  then have i: "i < n" by simp
  show "to_le_bytes n (from_le_bytes bs :: 'a word) ! i = bs ! i"
  proof (rule bit_word_eqI)
    fix j assume j: "j < LENGTH(8)"
    then have "8 * i + j < LENGTH('a)" "(8 * i + j) div 8 = i" "(8 * i + j) mod 8 = j"
      using i assms(2) by auto
    then show "bit (to_le_bytes n (from_le_bytes bs :: 'a word) ! i) j = bit (bs ! i) j"
      using i j assms(1) by (auto simp: bit_ucast_iff bit_drop_bit_eq bit_from_le_bytes)
  qed
qed

lemma to_le_bytes_inject:
  assumes "LENGTH('a) \<le> 8 * n"
  shows "to_le_bytes n v = to_le_bytes n w \<longleftrightarrow> v = (w :: 'a::len word)"
  using from_to_le_bytes [OF assms] by metis

lemma as_slice_inject [simp]: "as_slice a = as_slice b \<longleftrightarrow> a = b"
  by (simp add: as_slice_def to_le_bytes_inject)

lemma h256_of_as_slice [simp, codec_simps]: "h256_of_bytes (as_slice h) = h"
  by (simp add: as_slice_def h256_of_bytes_def from_to_le_bytes)

lemma as_slice_of_bytes [codec_simps]: "length bs = 32 \<Longrightarrow> as_slice (h256_of_bytes bs) = bs"
  by (simp add: as_slice_def h256_of_bytes_def to_from_le_bytes)

lemma from_to_be_bytes [codec_simps]:
  "LENGTH('a) \<le> 8 * n \<Longrightarrow> from_be_bytes (to_be_bytes n (w :: 'a::len word)) = w"
  by (simp add: from_be_bytes_def to_be_bytes_def from_to_le_bytes)

lemma to_le_bytes_Suc: "to_le_bytes (Suc n) w = to_le_bytes n w @ [ucast (drop_bit (8 * n) w)]"
  by (simp add: to_le_bytes_def)

lemma to_be_bytes_Suc: "to_be_bytes (Suc n) w = ucast (drop_bit (8 * n) w) # to_be_bytes n w"
  by (simp add: to_be_bytes_def to_le_bytes_Suc)

section \<open>Lemmas on arithmetic\<close>

lemma unat_less: "unat (w :: 'a::len word) < 2 ^ LENGTH('a)"
  by (rule unsigned_less)

lemma unat_ucast_up:
  assumes "LENGTH('a) \<le> LENGTH('b)"
  shows "unat (ucast (w :: 'a::len word) :: 'b::len word) = unat w"
proof -
  have "unat w < 2 ^ LENGTH('b)"
    using unat_less [of w] power_increasing [OF assms, of "2::nat"] by linarith
  then show ?thesis by (simp add: unsigned_ucast_eq take_bit_nat_eq_self)
qed

lemma ucast_ucast_up:
  assumes "LENGTH('a) \<le> LENGTH('b)"
  shows "ucast (ucast (w :: 'a::len word) :: 'b::len word) = w"
  by (rule bit_word_eqI) (use assms in \<open>auto simp: bit_ucast_iff\<close>)

lemma word_eq_iff_bits:
  "a = b \<longleftrightarrow> (\<forall>n<LENGTH('a). bit a n = bit b n)" for a b :: "'a::len word"
  by (auto intro: bit_word_eqI)

lemma ucast_eq_of_nat: "ucast (w :: 'a::len word) = (of_nat (unat w) :: 'b::len word)"
  by (simp add: word_eq_iff_bits bit_ucast_iff bit_of_nat_iff bit_unsigned_iff)

lemma checked_add_Some_iff:
  "checked_add a b = Some c \<longleftrightarrow> unat a + unat b < 2 ^ LENGTH('a) \<and> c = a + (b :: 'a::len word)"
  by (auto simp: checked_add_def)

lemma checked_sub_Some_iff:
  "checked_sub a b = Some c \<longleftrightarrow> b \<le> a \<and> c = a - (b :: 'a::len word)"
  by (auto simp: checked_sub_def)

lemma unat_add_no_overflow:
  "unat a + unat b < 2 ^ LENGTH('a) \<Longrightarrow> unat (a + b) = unat a + unat (b :: 'a::len word)"
  by (rule unat_add_lem [THEN iffD1])

lemma unat_checked_add: "checked_add a b = Some c \<Longrightarrow> unat c = unat a + unat b"
  by (auto simp: checked_add_Some_iff unat_add_no_overflow)

lemma unat_checked_sub: "checked_sub a b = Some c \<Longrightarrow> unat c = unat a - unat b \<and> unat b \<le> unat a"
  by (auto simp: checked_sub_Some_iff unat_sub word_le_nat_alt)

lemma unat_saturating_add:
  "unat (saturating_add a b) = min (unat a + unat b) (2 ^ LENGTH('a) - 1)"
  for a b :: "'a::len word"
proof (cases "unat a + unat b < 2 ^ LENGTH('a)")
  case True
  then show ?thesis
    by (simp add: saturating_add_def checked_add_def unat_add_no_overflow)
next
  case False
  then show ?thesis
    by (simp add: saturating_add_def checked_add_def unsigned_minus_1_eq_mask mask_eq_exp_minus_1)
qed

lemma unat_saturating_sub: "unat (saturating_sub a b) = unat a - unat b"
  by (auto simp: saturating_sub_def checked_sub_def unat_sub word_le_nat_alt)

lemma unat_saturating_mul:
  "unat (saturating_mul a b) = min (unat a * unat b) (2 ^ LENGTH('a) - 1)"
  for a b :: "'a::len word"
proof (cases "unat a * unat b < 2 ^ LENGTH('a)")
  case True
  then show ?thesis
    by (simp add: saturating_mul_def checked_mul_def unat_word_ariths)
next
  case False
  then show ?thesis
    by (simp add: saturating_mul_def checked_mul_def unsigned_minus_1_eq_mask mask_eq_exp_minus_1)
qed

lemma add_or_panic_eq_Ok [simp]:
  "add_or_panic a b = Ok c \<longleftrightarrow> checked_add a b = Some c"
  by (simp add: add_or_panic_def)

lemma sub_or_panic_eq_Ok [simp]:
  "sub_or_panic a b = Ok c \<longleftrightarrow> checked_sub a b = Some c"
  by (simp add: sub_or_panic_def)

section \<open>Lemmas on vectors\<close>

lemma position_Some_iff:
  "position p xs = Some i \<longleftrightarrow> i < length xs \<and> p (xs ! i) \<and> (\<forall>j<i. \<not> p (xs ! j))"
proof (induction xs arbitrary: i)
  case Nil
  then show ?case by simp
next
  case (Cons x xs)
  show ?case
  proof (cases i)
    case 0
    then show ?thesis by auto
  next
    case (Suc k)
    then show ?thesis
      using Cons.IH [of k] by (auto simp: All_less_Suc2)
  qed
qed

lemma position_None_iff: "position p xs = None \<longleftrightarrow> (\<forall>x\<in>set xs. \<not> p x)"
  by (induction xs) auto

lemma mset_vec_remove: "i < length xs \<Longrightarrow> mset (vec_remove i xs) = mset xs - {#xs ! i#}"
  unfolding vec_remove_def
  by (subst (3) id_take_nth_drop [of i xs]) auto

lemma length_copy_at [simp]: "i + length xs \<le> length buf \<Longrightarrow> length (copy_at i xs buf) = length buf"
  by (simp add: copy_at_def)

lemma nat_bits_le_iff: "nat_bits n \<le> k \<longleftrightarrow> n < 2 ^ k"
proof (induction n arbitrary: k rule: nat_bits.induct)
  case (1 n)
  show ?case
  proof (cases "n = 0")
    case True
    then show ?thesis by (simp add: nat_bits.simps)
  next
    case False
    then have n: "nat_bits n = Suc (nat_bits (n div 2))" by (subst nat_bits.simps) simp
    show ?thesis
    proof (cases k)
      case (Suc j)
      then show ?thesis using 1 [OF False, of j] n by (simp add: less_mult_imp_div_less) linarith
    qed (use n False in simp)
  qed
qed

lemma binary_search_loop_found:
  assumes "\<And>i j. i < j \<Longrightarrow> j < right \<Longrightarrow> f i < f j" and "left \<le> p" and "p < right" and "f p = key"
  shows "binary_search_loop f key left right = Ok p"
  using assms
proof (induction f key left right rule: binary_search_loop.induct)
  case (1 f key left right)
  let ?mid = "left + (right - left) div 2"
  have lr: "left < right" and mid: "?mid < right" using 1 by auto
  consider "?mid = p" | "?mid < p" | "p < ?mid" by linarith
  then show ?case
  proof cases
    case 1
    then show ?thesis using lr "1.prems" by (subst binary_search_loop.simps) (simp add: Let_def)
  next
    case 2
    then have "f ?mid < key" using "1.prems" by auto
    with 2 show ?thesis
      using lr "1.IH"(1) [OF lr refl] "1.prems" by (subst binary_search_loop.simps) (simp add: Let_def)
  next
    case 3
    then have lt: "key < f ?mid" using "1.prems"(1) [of p ?mid] "1.prems"(4) mid by simp
    have "binary_search_loop f key left ?mid = Ok p"
      using lt 3 "1.IH"(2) [OF lr refl] "1.prems" mid by auto
    with lt lr show ?thesis by (subst binary_search_loop.simps) (auto simp: Let_def)
  qed
qed

lemma binary_search_loop_Ok:
  "binary_search_loop f key left right = Ok p \<Longrightarrow> left \<le> p \<and> p < right \<and> f p = key"
proof (induction f key left right rule: binary_search_loop.induct)
  case (1 f key left right)
  then show ?case
    by (subst (asm) (3) binary_search_loop.simps) (fastforce simp: Let_def split: if_splits)
qed

lemma binary_search_loop_no_panic: "binary_search_loop f key left right \<noteq> Panic"
proof (induction f key left right rule: binary_search_loop.induct)
  case (1 f key left right)
  then show ?case by (subst binary_search_loop.simps) (simp add: Let_def)
qed

text \<open>On a vector sorted by the key, the search finds the key whenever it is there.\<close>

lemma binary_search_by_key_Ok:
  "binary_search_by_key key f xs = Ok i \<Longrightarrow> i < length xs \<and> f (xs ! i) = key"
  using binary_search_loop_Ok by (fastforce simp: binary_search_by_key_def)

lemma binary_search_by_key_found:
  assumes "sorted_wrt (<) (map f xs)" and "i < length xs" and "f (xs ! i) = key"
  shows "binary_search_by_key key f xs = Ok i"
  unfolding binary_search_by_key_def using assms
  by (intro binary_search_loop_found) (auto simp: sorted_wrt_iff_nth_less)

lemma binary_search_by_key_no_panic: "binary_search_by_key key f xs \<noteq> Panic"
  by (simp add: binary_search_by_key_def binary_search_loop_no_panic)

lemma omapM_Ok: "(\<And>x. x \<in> set xs \<Longrightarrow> f x = Ok (g x)) \<Longrightarrow> omapM f xs = Ok (map g xs)"
  by (induction xs) auto

lemma sfor_append: "sfor (xs @ ys) f = sbind (sfor xs f) (\<lambda>_. sfor ys f)"
proof (induction xs)
  case Nil
  then show ?case by (simp add: ret_def)
next
  case (Cons x xs)
  then show ?case by (simp add: sbind_assoc)
qed

lemma fmdrop_fmupd_fresh: "fmlookup m k = None \<Longrightarrow> fmdrop k (fmupd k v m) = m"
  by (rule fmap_ext) auto

lemma fmupd_idem: "fmlookup m k = Some v \<Longrightarrow> fmupd k v m = m"
  by (rule fmap_ext) auto

end
