(* ===== verification/Gw_Types.thy ===== *)
theory Gw_Types
  imports Gw_Prelude
begin

text \<open>
  The data of the protocol (\<open>gwos/crates/types\<close> and the small value types of
  \<open>gwos/crates/common\<close>): errors, \<open>H256Ext\<close>, registry addresses, the enumerations with their
  byte encodings, time points and finality, CKB amounts, the packed structures of
  \<open>godwoken.mol\<close> as records, their hashes and store keys, the registry context, the fork
  configuration and the finalized custodian capacity.

  Molecule serialisation and blake2b are third-party code: the record \<open>externs\<close> carries
  them as parameters of every definition that hashes.
\<close>

section \<open>Errors (\<open>gw-common/src/error.rs\<close>)\<close>

datatype common_error =
    SMT string
  | AmountOverflow
  | MerkleProof
  | MissingKey
  | Store
  | DuplicatedScriptHash
  | DuplicatedRegistryAddress
  | InvalidArgs
  | UnknownEoaCodeHash

section \<open>\<open>H256Ext\<close>\<close>

definition h256_zero :: h256 where
  "h256_zero = h256_of_bytes (replicate 32 0)"

definition h256_is_zero :: "h256 \<Rightarrow> bool" where
  "h256_is_zero h = (h = h256_zero)"

definition from_u32 :: "u32 \<Rightarrow> h256" where
  "from_u32 n = h256_of_bytes (copy_at 0 (to_le_bytes 4 n) (replicate 32 0))"

definition h256_one :: h256 where
  "h256_one = from_u32 1"

definition to_u32 :: "h256 \<Rightarrow> u32" where
  "to_u32 h = from_le_bytes (take 4 (as_slice h))"

definition from_u64 :: "u64 \<Rightarrow> h256" where
  "from_u64 n = h256_of_bytes (copy_at 0 (to_le_bytes 8 n) (replicate 32 0))"

definition to_u64 :: "h256 \<Rightarrow> u64" where
  "to_u64 h = from_le_bytes (take 8 (as_slice h))"

definition from_u128 :: "u128 \<Rightarrow> h256" where
  "from_u128 n = h256_of_bytes (copy_at 0 (to_le_bytes 16 n) (replicate 32 0))"

definition to_u128 :: "h256 \<Rightarrow> u128" where
  "to_u128 h = from_le_bytes (take 16 (as_slice h))"

definition from_u256 :: "u256 \<Rightarrow> h256" where
  "from_u256 n = h256_of_bytes (to_le_bytes 32 n)"

definition to_u256 :: "h256 \<Rightarrow> u256" where
  "to_u256 h = from_le_bytes (take 32 (as_slice h))"

section \<open>Registry addresses\<close>

record registry_address =
  ra_registry_id :: u32
  ra_address :: bytes

definition registry_address_new :: "u32 \<Rightarrow> bytes \<Rightarrow> registry_address" where
  "registry_address_new registry_id address =
     \<lparr> ra_registry_id = registry_id, ra_address = address \<rparr>"

definition from_slice :: "bytes \<Rightarrow> registry_address option" where
  "from_slice sl = (
     if length sl < 8 then None
     else let registry_id = from_le_bytes (take 4 sl);
              address_len = (from_le_bytes (take 4 (drop 4 sl)) :: u32)
       in case checked_add address_len 8 of
            None \<Rightarrow> None
          | Some n \<Rightarrow>
              if length sl < unat n then None
              else Some \<lparr> ra_registry_id = registry_id,
                          ra_address = take (unat address_len) (drop 8 sl) \<rparr>)"

definition ra_len :: "registry_address \<Rightarrow> nat" where
  "ra_len a = 8 + length (ra_address a)"

definition ra_is_empty :: "registry_address \<Rightarrow> bool" where
  "ra_is_empty a = (length (ra_address a) = 0)"

definition write_to_slice :: "registry_address \<Rightarrow> bytes \<Rightarrow> (nat, nat) outcome \<times> bytes" where
  "write_to_slice a buf = (
     if ra_len a > length buf \<or> ra_len a > 2 ^ 32 - 1 then (Err (ra_len a), buf)
     else let buf = copy_at 0 (to_le_bytes 4 (ra_registry_id a)) buf;
              buf = copy_at 4 (to_le_bytes 4 (of_nat (length (ra_address a)) :: u32)) buf;
              buf = copy_at 8 (ra_address a) buf
          in (Ok (ra_len a), buf))"

definition to_bytes :: "registry_address \<Rightarrow> ('e, bytes) outcome" where
  "to_bytes a = (case write_to_slice a (replicate (ra_len a) 0) of
       (Ok _, buf) \<Rightarrow> Ok buf
     | _ \<Rightarrow> Panic)"

section \<open>Enumerations (\<open>gw-types/src/core.rs\<close>)\<close>

datatype script_hash_type = Data | Type
datatype status = Running | Halting
datatype challenge_target_type = TxExecution | TxSignature | Withdrawal
datatype allowed_eoa_type = EoaUnknown | EoaEth
datatype allowed_contract_type =
  ContractUnknown | ContractMeta | ContractSudt | ContractPolyjuice | ContractEthAddrReg

fun script_hash_type_to_byte :: "script_hash_type \<Rightarrow> byte" where
  "script_hash_type_to_byte Data = 0"
| "script_hash_type_to_byte Type = 1"

definition script_hash_type_try_from :: "byte \<Rightarrow> (byte, script_hash_type) outcome" where
  "script_hash_type_try_from v = (if v = 0 then Ok Data else if v = 1 then Ok Type else Err v)"

fun status_to_u8 :: "status \<Rightarrow> u8" where
  "status_to_u8 Running = 0"
| "status_to_u8 Halting = 1"

definition status_try_from :: "u8 \<Rightarrow> (u8, status) outcome" where
  "status_try_from v = (if v = 0 then Ok Running else if v = 1 then Ok Halting else Err v)"

fun challenge_target_type_to_u8 :: "challenge_target_type \<Rightarrow> u8" where
  "challenge_target_type_to_u8 TxExecution = 0"
| "challenge_target_type_to_u8 TxSignature = 1"
| "challenge_target_type_to_u8 Withdrawal = 2"

definition challenge_target_type_try_from :: "u8 \<Rightarrow> (u8, challenge_target_type) outcome" where
  "challenge_target_type_try_from v = (
     if v = 0 then Ok TxExecution else if v = 1 then Ok TxSignature
     else if v = 2 then Ok Withdrawal else Err v)"

fun allowed_eoa_type_to_u8 :: "allowed_eoa_type \<Rightarrow> u8" where
  "allowed_eoa_type_to_u8 EoaUnknown = 0"
| "allowed_eoa_type_to_u8 EoaEth = 1"

definition allowed_eoa_type_try_from :: "u8 \<Rightarrow> (u8, allowed_eoa_type) outcome" where
  "allowed_eoa_type_try_from v = (
     if v = 0 then Ok EoaUnknown else if v = 1 then Ok EoaEth else Err v)"

fun allowed_contract_type_to_u8 :: "allowed_contract_type \<Rightarrow> u8" where
  "allowed_contract_type_to_u8 ContractUnknown = 0"
| "allowed_contract_type_to_u8 ContractMeta = 1"
| "allowed_contract_type_to_u8 ContractSudt = 2"
| "allowed_contract_type_to_u8 ContractPolyjuice = 3"
| "allowed_contract_type_to_u8 ContractEthAddrReg = 4"

definition allowed_contract_type_try_from :: "u8 \<Rightarrow> (u8, allowed_contract_type) outcome" where
  "allowed_contract_type_try_from v = (
     if v = 0 then Ok ContractUnknown else if v = 1 then Ok ContractMeta
     else if v = 2 then Ok ContractSudt else if v = 3 then Ok ContractPolyjuice
     else if v = 4 then Ok ContractEthAddrReg else Err v)"

section \<open>Time points\<close>

datatype timepoint = BlockNumber u64 | Timestamp u64

definition timepoint_MASK :: u64 where
  "timepoint_MASK = push_bit 63 1"

definition from_full_value :: "u64 \<Rightarrow> timepoint" where
  "from_full_value full_value = (
     if timepoint_MASK AND full_value = 0 then BlockNumber full_value
     else Timestamp (timepoint_MASK XOR full_value))"

fun full_value :: "timepoint \<Rightarrow> u64" where
  "full_value (BlockNumber block_number) = block_number"
| "full_value (Timestamp timestamp) = timepoint_MASK OR timestamp"

section \<open>Amounts of CKB (\<open>gw-common/src/ckb_decimal.rs\<close>)\<close>

datatype ckb_capacity = CKBCapacity u256

definition CKB_DECIMAL_POW_EXP :: nat where
  "CKB_DECIMAL_POW_EXP = 10"

definition CKB_DECIMAL_POWER_TEN :: u64 where
  "CKB_DECIMAL_POWER_TEN = 10 ^ CKB_DECIMAL_POW_EXP"

definition from_layer1 :: "u64 \<Rightarrow> ckb_capacity" where
  "from_layer1 amount = CKBCapacity (ucast amount * ucast CKB_DECIMAL_POWER_TEN)"

definition from_layer2 :: "u256 \<Rightarrow> ckb_capacity" where
  "from_layer2 amount = CKBCapacity amount"

fun to_layer1 :: "ckb_capacity \<Rightarrow> u64 option" where
  "to_layer1 (CKBCapacity n) = (
     let truncated = n div ucast CKB_DECIMAL_POWER_TEN
     in if nat_bits (unat truncated) > 64 then None else Some (ucast truncated))"

fun to_layer2 :: "ckb_capacity \<Rightarrow> u256" where
  "to_layer2 (CKBCapacity n) = n"

section \<open>Packed structures (\<open>gw-types/schemas/godwoken.mol\<close>)\<close>

record script =
  sc_code_hash :: h256
  sc_hash_type :: byte
  sc_args :: bytes

record block_merkle_state =
  bms_merkle_root :: h256
  bms_count :: u64

record account_merkle_state =
  ams_merkle_root :: h256
  ams_count :: u32

record global_state_v0 =
  gs0_rollup_config_hash :: h256
  gs0_account :: account_merkle_state
  gs0_block :: block_merkle_state
  gs0_reverted_block_root :: h256
  gs0_tip_block_hash :: h256
  gs0_last_finalized_timepoint :: u64
  gs0_status :: byte

record global_state =
  gs_rollup_config_hash :: h256
  gs_account :: account_merkle_state
  gs_block :: block_merkle_state
  gs_reverted_block_root :: h256
  gs_tip_block_hash :: h256
  gs_tip_block_timestamp :: u64
  gs_last_finalized_timepoint :: u64
  gs_status :: byte
  gs_version :: byte

record allowed_type_hash =
  ath_type :: byte
  ath_hash :: h256

record rollup_config =
  rc_l1_sudt_script_type_hash :: h256
  rc_custodian_script_type_hash :: h256
  rc_deposit_script_type_hash :: h256
  rc_withdrawal_script_type_hash :: h256
  rc_challenge_script_type_hash :: h256
  rc_stake_script_type_hash :: h256
  rc_l2_sudt_validator_script_type_hash :: h256
  rc_burn_lock_hash :: h256
  rc_required_staking_capacity :: u64
  rc_challenge_maturity_blocks :: u64
  rc_finality_blocks :: u64
  rc_reward_burn_rate :: byte
  rc_chain_id :: u64
  rc_allowed_eoa_type_hashes :: "allowed_type_hash list"
  rc_allowed_contract_type_hashes :: "allowed_type_hash list"

record raw_l2transaction =
  rtx_chain_id :: u64
  rtx_from_id :: u32
  rtx_to_id :: u32
  rtx_nonce :: u32
  rtx_args :: bytes

record l2transaction =
  tx_raw :: raw_l2transaction
  tx_signature :: bytes

record submit_transactions =
  st_tx_witness_root :: h256
  st_tx_count :: u32
  st_prev_state_checkpoint :: h256

record submit_withdrawals =
  sw_withdrawal_witness_root :: h256
  sw_withdrawal_count :: u32

record raw_l2block =
  rb_number :: u64
  rb_block_producer :: bytes
  rb_parent_block_hash :: h256
  rb_stake_cell_owner_lock_hash :: h256
  rb_timestamp :: u64
  rb_prev_account :: account_merkle_state
  rb_post_account :: account_merkle_state
  rb_state_checkpoint_list :: "h256 list"
  rb_submit_withdrawals :: submit_withdrawals
  rb_submit_transactions :: submit_transactions

record raw_withdrawal_request =
  rw_nonce :: u32
  rw_chain_id :: u64
  rw_capacity :: u64
  rw_amount :: u128
  rw_sudt_script_hash :: h256
  rw_account_script_hash :: h256
  rw_registry_id :: u32
  rw_owner_lock_hash :: h256
  rw_fee :: u128

record withdrawal_request =
  wr_raw :: raw_withdrawal_request
  wr_signature :: bytes

record l2block =
  lb_raw :: raw_l2block
  lb_kv_state :: "(h256 \<times> h256) list"
  lb_kv_state_proof :: bytes
  lb_transactions :: "l2transaction list"
  lb_block_proof :: bytes
  lb_withdrawals :: "withdrawal_request list"

record deposit_request =
  dr_capacity :: u64
  dr_amount :: u128
  dr_sudt_script_hash :: h256
  dr_script :: script
  dr_registry_id :: u32

record withdrawal_lock_args =
  wl_withdrawal_block_hash :: h256
  wl_withdrawal_finalized_timepoint :: u64
  wl_account_script_hash :: h256
  wl_owner_lock_hash :: h256

record challenge_target =
  ct_block_hash :: h256
  ct_target_index :: u32
  ct_target_type :: byte

definition global_state_of_v0 :: "global_state_v0 \<Rightarrow> global_state" where
  "global_state_of_v0 g = \<lparr>
     gs_rollup_config_hash = gs0_rollup_config_hash g,
     gs_account = gs0_account g,
     gs_block = gs0_block g,
     gs_reverted_block_root = gs0_reverted_block_root g,
     gs_tip_block_hash = gs0_tip_block_hash g,
     gs_tip_block_timestamp = 0,
     gs_last_finalized_timepoint = gs0_last_finalized_timepoint g,
     gs_status = gs0_status g,
     gs_version = 0 \<rparr>"

section \<open>Hashes and keys (\<open>gw-types/src/extension.rs\<close>, \<open>merkle_utils.rs\<close>)\<close>

text \<open>
  \<open>blake2b\<close> and the \<open>as_slice\<close> of each packed type are third-party or generated code.
  \<open>build_merkle_root\<close> is \<open>CBMT::build_merkle_tree(..).root()\<close> of the crate merkle-cbt,
  for the merge function of \<open>MergeH256\<close>.
\<close>

record externs =
  blake2b :: "bytes \<Rightarrow> h256"
  script_as_slice :: "script \<Rightarrow> bytes"
  raw_l2block_as_slice :: "raw_l2block \<Rightarrow> bytes"
  raw_l2transaction_as_slice :: "raw_l2transaction \<Rightarrow> bytes"
  l2transaction_as_slice :: "l2transaction \<Rightarrow> bytes"
  raw_withdrawal_request_as_slice :: "raw_withdrawal_request \<Rightarrow> bytes"
  withdrawal_request_as_slice :: "withdrawal_request \<Rightarrow> bytes"
  rollup_config_as_slice :: "rollup_config \<Rightarrow> bytes"
  build_merkle_root :: "(h256 \<Rightarrow> h256 \<Rightarrow> h256) \<Rightarrow> h256 list \<Rightarrow> h256"

definition script_hash :: "externs \<Rightarrow> script \<Rightarrow> h256" where
  "script_hash E s = blake2b E (script_as_slice E s)"

definition raw_l2block_hash :: "externs \<Rightarrow> raw_l2block \<Rightarrow> h256" where
  "raw_l2block_hash E b = blake2b E (raw_l2block_as_slice E b)"

definition l2block_hash :: "externs \<Rightarrow> l2block \<Rightarrow> h256" where
  "l2block_hash E b = raw_l2block_hash E (lb_raw b)"

definition raw_l2transaction_hash :: "externs \<Rightarrow> raw_l2transaction \<Rightarrow> h256" where
  "raw_l2transaction_hash E t = blake2b E (raw_l2transaction_as_slice E t)"

definition l2transaction_hash :: "externs \<Rightarrow> l2transaction \<Rightarrow> h256" where
  "l2transaction_hash E t = raw_l2transaction_hash E (tx_raw t)"

definition l2transaction_witness_hash :: "externs \<Rightarrow> l2transaction \<Rightarrow> h256" where
  "l2transaction_witness_hash E t = blake2b E (l2transaction_as_slice E t)"

definition withdrawal_request_hash :: "externs \<Rightarrow> withdrawal_request \<Rightarrow> h256" where
  "withdrawal_request_hash E w = blake2b E (raw_withdrawal_request_as_slice E (wr_raw w))"

definition withdrawal_request_witness_hash :: "externs \<Rightarrow> withdrawal_request \<Rightarrow> h256" where
  "withdrawal_request_witness_hash E w = blake2b E (withdrawal_request_as_slice E w)"

definition rollup_config_hash :: "externs \<Rightarrow> rollup_config \<Rightarrow> h256" where
  "rollup_config_hash E c = blake2b E (rollup_config_as_slice E c)"

definition is_chain_id_protected :: "raw_l2transaction \<Rightarrow> bool" where
  "is_chain_id_protected t = (rtx_chain_id t \<noteq> 0)"

definition compute_smt_key :: "u64 \<Rightarrow> h256" where
  "compute_smt_key block_number =
     h256_of_bytes (copy_at 0 (to_le_bytes 8 block_number) (replicate 32 0))"

definition raw_l2block_smt_key :: "raw_l2block \<Rightarrow> h256" where
  "raw_l2block_smt_key b = compute_smt_key (rb_number b)"

definition raw_l2transaction_calc_message ::
  "externs \<Rightarrow> h256 \<Rightarrow> h256 \<Rightarrow> h256 \<Rightarrow> raw_l2transaction \<Rightarrow> h256" where
  "raw_l2transaction_calc_message E rollup sender receiver t =
     blake2b E (as_slice rollup @ as_slice sender @ as_slice receiver @
                raw_l2transaction_as_slice E t)"

definition raw_withdrawal_calc_message ::
  "externs \<Rightarrow> h256 \<Rightarrow> raw_withdrawal_request \<Rightarrow> h256" where
  "raw_withdrawal_calc_message E rollup w =
     blake2b E (as_slice rollup @ raw_withdrawal_request_as_slice E w)"

text \<open>The 36-byte rows \<open>TransactionKey\<close> and \<open>WithdrawalKey\<close> (\<open>offchain/extension.rs\<close>).\<close>

definition build_transaction_key :: "h256 \<Rightarrow> u32 \<Rightarrow> bytes" where
  "build_transaction_key block_hash index =
     copy_at 32 (to_be_bytes 4 index) (copy_at 0 (as_slice block_hash) (replicate 36 0))"

definition transaction_key_block_hash :: "bytes \<Rightarrow> h256" where
  "transaction_key_block_hash key = h256_of_bytes (take 32 key)"

definition transaction_key_index :: "bytes \<Rightarrow> u32" where
  "transaction_key_index key = from_be_bytes (drop 32 key)"

definition build_withdrawal_key :: "h256 \<Rightarrow> u32 \<Rightarrow> bytes" where
  "build_withdrawal_key block_hash index =
     copy_at 32 (to_be_bytes 4 index) (copy_at 0 (as_slice block_hash) (replicate 36 0))"

definition state_checkpoint_of :: "(bytes \<Rightarrow> h256) \<Rightarrow> h256 \<Rightarrow> u32 \<Rightarrow> h256" where
  "state_checkpoint_of b2b root n = b2b (as_slice root @ to_le_bytes 4 n)"

definition merge_h256 :: "(bytes \<Rightarrow> h256) \<Rightarrow> h256 \<Rightarrow> h256 \<Rightarrow> h256" where
  "merge_h256 b2b left right = b2b (as_slice left @ as_slice right)"

definition calculate_ckb_merkle_root :: "externs \<Rightarrow> h256 list \<Rightarrow> h256" where
  "calculate_ckb_merkle_root E leaves = build_merkle_root E (merge_h256 (blake2b E)) leaves"

definition ckb_merkle_leaf_hash :: "(bytes \<Rightarrow> h256) \<Rightarrow> u32 \<Rightarrow> h256 \<Rightarrow> h256" where
  "ckb_merkle_leaf_hash b2b index item_hash = b2b (to_le_bytes 4 index @ as_slice item_hash)"

section \<open>Finality seen from off-chain\<close>

definition BLOCK_INTERVAL_IN_MILLISECONDS :: u64 where
  "BLOCK_INTERVAL_IN_MILLISECONDS = 36000"

definition finality_time_in_ms :: "rollup_config \<Rightarrow> u64" where
  "finality_time_in_ms c = saturating_mul (rc_finality_blocks c) BLOCK_INTERVAL_IN_MILLISECONDS"

record compatible_finalized_timepoint =
  cft_finalized_block_number :: u64
  cft_finalized_timestamp :: "u64 option"

definition cft_from_global_state :: "global_state \<Rightarrow> u64 \<Rightarrow> compatible_finalized_timepoint" where
  "cft_from_global_state g rollup_config_finality = (
     case from_full_value (gs_last_finalized_timepoint g) of
       BlockNumber finalized_block_number \<Rightarrow>
         \<lparr> cft_finalized_block_number = finalized_block_number,
           cft_finalized_timestamp = None \<rparr>
     | Timestamp finalized_timestamp \<Rightarrow>
         let global_block_number = saturating_sub (bms_count (gs_block g)) 1
         in \<lparr> cft_finalized_block_number =
                saturating_sub global_block_number rollup_config_finality,
              cft_finalized_timestamp = Some finalized_timestamp \<rparr>)"

fun cft_is_finalized :: "compatible_finalized_timepoint \<Rightarrow> timepoint \<Rightarrow> bool" where
  "cft_is_finalized c (BlockNumber block_number) =
     (block_number \<le> cft_finalized_block_number c)"
| "cft_is_finalized c (Timestamp timestamp) = (case cft_finalized_timestamp c of
       Some finalized_timestamp \<Rightarrow> timestamp \<le> finalized_timestamp
     | None \<Rightarrow> False)"

section \<open>Registry context (\<open>gw-common/src/registry\<close>)\<close>

definition RESERVED_ACCOUNT_ID :: u32 where "RESERVED_ACCOUNT_ID = 0"
definition CKB_SUDT_ACCOUNT_ID :: u32 where "CKB_SUDT_ACCOUNT_ID = 1"
definition ETH_REGISTRY_ACCOUNT_ID :: u32 where "ETH_REGISTRY_ACCOUNT_ID = 2"

definition EOA_SCRIPT_ARGS_LEN :: nat where "EOA_SCRIPT_ARGS_LEN = 52"
definition CONTRACT_ACCOUNT_SCRIPT_ARGS_LEN :: nat where "CONTRACT_ACCOUNT_SCRIPT_ARGS_LEN = 56"

definition extract_eth_address_from_eoa :: "bytes \<Rightarrow> (common_error, bytes) outcome" where
  "extract_eth_address_from_eoa script_args = (
     if length script_args \<noteq> EOA_SCRIPT_ARGS_LEN then Err InvalidArgs
     else Ok (drop 32 script_args))"

definition extract_eth_address_from_contract :: "bytes \<Rightarrow> (common_error, bytes) outcome" where
  "extract_eth_address_from_contract script_args = (
     if length script_args \<noteq> CONTRACT_ACCOUNT_SCRIPT_ARGS_LEN then Err InvalidArgs
     else Ok (drop 36 script_args))"

definition find_eoa_type_by_hash :: "allowed_type_hash list \<Rightarrow> h256 \<Rightarrow> allowed_type_hash option" where
  "find_eoa_type_by_hash allowed code_hash = List.find (\<lambda>t. ath_hash t = code_hash) allowed"

definition extract_registry_address_from_deposit ::
  "allowed_type_hash list \<Rightarrow> u32 \<Rightarrow> h256 \<Rightarrow> bytes \<Rightarrow> (common_error, registry_address) outcome" where
  "extract_registry_address_from_deposit allowed registry_id code_hash args = (
     if registry_id \<noteq> ETH_REGISTRY_ACCOUNT_ID then Err InvalidArgs
     else case find_eoa_type_by_hash allowed code_hash of
            None \<Rightarrow> Err UnknownEoaCodeHash
          | Some type_hash \<Rightarrow>
              (case allowed_eoa_type_try_from (ath_type type_hash) of
                 Ok EoaEth \<Rightarrow>
                   obind (extract_eth_address_from_eoa args)
                     (\<lambda>address. Ok (registry_address_new registry_id address))
               | _ \<Rightarrow> Err UnknownEoaCodeHash))"

section \<open>Fork configuration (\<open>config/src/fork_config.rs\<close>)\<close>

record fork_config =
  fc_increase_max_l2_tx_cycles_to_500m :: "u64 option"
  fc_upgrade_global_state_version_to_v2 :: "u64 option"

definition L2TX_MAX_CYCLES_150M :: u64 where "L2TX_MAX_CYCLES_150M = 150000000"
definition L2TX_MAX_CYCLES_500M :: u64 where "L2TX_MAX_CYCLES_500M = 500000000"

definition global_state_version :: "fork_config \<Rightarrow> u64 \<Rightarrow> u8" where
  "global_state_version f block_number = (
     case fc_upgrade_global_state_version_to_v2 f of
       None \<Rightarrow> 1
     | Some fork_number \<Rightarrow> if block_number < fork_number then 1 else 2)"

definition use_timestamp_as_timepoint :: "fork_config \<Rightarrow> u64 \<Rightarrow> bool" where
  "use_timestamp_as_timepoint f block_number = (global_state_version f block_number \<ge> 2)"

definition enforce_correctness_of_state_checkpoint_list :: "fork_config \<Rightarrow> u64 \<Rightarrow> bool" where
  "enforce_correctness_of_state_checkpoint_list f block_number =
     (global_state_version f block_number \<le> 1)"

definition max_l2_tx_cycles :: "fork_config \<Rightarrow> u64 \<Rightarrow> u64" where
  "max_l2_tx_cycles f block_number = (
     case fc_increase_max_l2_tx_cycles_to_500m f of
       None \<Rightarrow> L2TX_MAX_CYCLES_150M
     | Some fork_number \<Rightarrow>
         if block_number < fork_number then L2TX_MAX_CYCLES_150M else L2TX_MAX_CYCLES_500M)"

section \<open>Finalized custodian capacity (\<open>offchain/pool.rs\<close>)\<close>

record finalized_custodian_capacity =
  fcc_capacity :: u128
  fcc_sudt :: "(h256, u128 \<times> script) fmap"

definition fcc_is_empty :: "finalized_custodian_capacity \<Rightarrow> bool" where
  "fcc_is_empty c = (fcc_capacity c = 0 \<and> fcc_sudt c = fmempty)"

definition checked_add_sudt ::
  "h256 \<Rightarrow> u128 \<Rightarrow> script \<Rightarrow> finalized_custodian_capacity \<Rightarrow>
     u128 option \<times> finalized_custodian_capacity" where
  "checked_add_sudt h amount sc c = (
     case fmlookup (fcc_sudt c) h of
       Some (old, _) \<Rightarrow> (case checked_add old amount of
           None \<Rightarrow> (None, c)
         | Some new \<Rightarrow> (Some new, c\<lparr> fcc_sudt := fmupd h (new, sc) (fcc_sudt c) \<rparr>))
     | None \<Rightarrow> (Some amount, c\<lparr> fcc_sudt := fmupd h (amount, sc) (fcc_sudt c) \<rparr>))"

definition checked_sub_sudt ::
  "h256 \<Rightarrow> u128 \<Rightarrow> finalized_custodian_capacity \<Rightarrow>
     u128 option \<times> finalized_custodian_capacity" where
  "checked_sub_sudt h amount c = (
     case fmlookup (fcc_sudt c) h of
       None \<Rightarrow> (None, c)
     | Some (old, sc) \<Rightarrow> (case checked_sub old amount of
           None \<Rightarrow> (None, c)
         | Some new \<Rightarrow> (Some new, c\<lparr> fcc_sudt := fmupd h (new, sc) (fcc_sudt c) \<rparr>)))"

section \<open>Lemmas on \<open>H256Ext\<close>\<close>

lemma from_to_le_bytes_cast:
  assumes "LENGTH('b) \<le> 8 * n"
  shows "(from_le_bytes (to_le_bytes n (w :: 'a::len word)) :: 'b::len word) = ucast w"
proof (rule bit_word_eqI)
  fix i assume i: "i < LENGTH('b)"
  then have d: "i div 8 < n" using assms by linarith
  have "8 * (i div 8) + i mod 8 = i" by simp
  then show "bit (from_le_bytes (to_le_bytes n w) :: 'b word) i = bit (ucast w :: 'b word) i"
    using i d by (auto simp: bit_from_le_bytes bit_ucast_iff bit_drop_bit_eq)
qed

lemma from_le_bytes_append_zeros:
  "from_le_bytes (bs @ replicate k 0) = from_le_bytes bs"
  by (rule bit_word_eqI) (auto simp: bit_from_le_bytes nth_append)

lemma take_to_le_bytes: "n \<le> m \<Longrightarrow> take n (to_le_bytes m w) = to_le_bytes n w"
  by (simp add: to_le_bytes_def take_map)

lemma from_le_bytes_le_bytes:
  assumes "LENGTH('a) \<le> 8 * n"
  shows "(from_le_bytes (to_le_bytes n (w :: 'a::len word)) :: 'b::len word) = ucast w"
proof (rule bit_word_eqI)
  fix i assume i: "i < LENGTH('b)"
  have e: "8 * (i div 8) + i mod 8 = i" by simp
  show "bit (from_le_bytes (to_le_bytes n w) :: 'b word) i = bit (ucast w :: 'b word) i"
  proof (cases "i div 8 < n")
    case True
    then show ?thesis
      using i e by (auto simp: bit_from_le_bytes bit_ucast_iff bit_drop_bit_eq)
  next
    case False
    then have "LENGTH('a) \<le> i" using assms by (metis div_mult_self1_is_m leI le_trans less_eq_div_iff_mult_less_eq mult.commute zero_less_numeral)
    then have "\<not> bit w i" by (auto dest: bit_imp_le_length)
    with False i show ?thesis by (auto simp: bit_from_le_bytes bit_ucast_iff)
  qed
qed

lemma h256_zero_eq [simp]: "h256_zero = 0"
  using from_le_bytes_append_zeros [of "[]" 32, where 'a = 256]
  by (simp add: h256_zero_def h256_of_bytes_def)

lemma h256_is_zero_iff [simp]: "h256_is_zero h \<longleftrightarrow> h = 0"
  by (simp add: h256_is_zero_def)

lemma h256_ext_eqs:
  "from_u32 a = ucast a" "from_u64 b = ucast b" "from_u128 c = ucast c" "from_u256 d = d"
  "to_u32 h = ucast h" "to_u64 h = ucast h" "to_u128 h = ucast h" "to_u256 h = h"
  by (simp_all add: from_u32_def from_u64_def from_u128_def from_u256_def
      to_u32_def to_u64_def to_u128_def to_u256_def h256_of_bytes_def as_slice_def copy_at_def
      from_le_bytes_append_zeros take_to_le_bytes from_to_le_bytes_cast from_le_bytes_le_bytes)

lemma from_to_u256 [simp, codec_simps]: "to_u256 (from_u256 n) = n" "from_u256 (to_u256 h) = h"
  by (simp_all add: h256_ext_eqs)

lemma to_from_uint [simp, codec_simps]:
  "to_u32 (from_u32 a) = a" "to_u64 (from_u64 b) = b" "to_u128 (from_u128 c) = c"
  by (simp_all add: h256_ext_eqs ucast_ucast_up)

lemma h256_one_eq: "h256_one = 1"
  by (simp add: h256_one_def h256_ext_eqs)

lemma compute_smt_key_eq: "compute_smt_key n = from_u64 n"
  by (simp add: compute_smt_key_def from_u64_def)

lemma compute_smt_key_inject: "compute_smt_key a = compute_smt_key b \<longleftrightarrow> a = b"
  using to_from_uint(2) unfolding compute_smt_key_eq by metis

section \<open>Lemmas on registry addresses\<close>

text \<open>The layout both directions agree on: \<open>registry_id | address length | address\<close>.\<close>

definition ra_encoding :: "registry_address \<Rightarrow> bytes" where
  "ra_encoding a = to_le_bytes 4 (ra_registry_id a) @
     to_le_bytes 4 (of_nat (length (ra_address a)) :: u32) @ ra_address a"

definition ra_fits :: "registry_address \<Rightarrow> bool" where
  "ra_fits a = (ra_len a \<le> 2 ^ 32 - 1)"

lemma length_ra_encoding [simp]: "length (ra_encoding a) = ra_len a"
  by (simp add: ra_encoding_def ra_len_def)

lemma write_to_slice_ok:
  "ra_len a \<le> length buf \<Longrightarrow> ra_fits a \<Longrightarrow>
     write_to_slice a buf = (Ok (ra_len a), ra_encoding a @ drop (ra_len a) buf)"
  by (simp add: write_to_slice_def ra_fits_def Let_def copy_at_def ra_encoding_def ra_len_def)

lemma write_to_slice_err:
  "\<not> (ra_len a \<le> length buf \<and> ra_fits a) \<Longrightarrow> write_to_slice a buf = (Err (ra_len a), buf)"
  by (auto simp: write_to_slice_def ra_fits_def)

lemma to_bytes_eq: "to_bytes a = (if ra_fits a then Ok (ra_encoding a) else Panic)"
  by (cases "ra_fits a") (simp_all add: to_bytes_def write_to_slice_ok write_to_slice_err)

lemma from_slice_encoding:
  assumes "ra_fits a"
  shows "from_slice (ra_encoding a @ rest) = Some a"
proof -
  let ?n = "length (ra_address a)"
  have small: "?n + 8 < 2 ^ 32" using assms by (simp add: ra_fits_def ra_len_def)
  then have u: "unat (of_nat ?n :: u32) = ?n"
    by (simp add: unat_of_nat)
  have take8: "take 4 (ra_encoding a @ rest) = to_le_bytes 4 (ra_registry_id a)"
    "take 4 (drop 4 (ra_encoding a @ rest)) = to_le_bytes 4 (of_nat ?n :: u32)"
    "drop 8 (ra_encoding a @ rest) = ra_address a @ rest"
    by (simp_all add: ra_encoding_def)
  have "checked_add (of_nat ?n :: u32) 8 = Some (of_nat ?n + 8)"
    "unat (of_nat ?n + 8 :: u32) = ?n + 8"
    using small u by (simp_all add: checked_add_def unat_add_no_overflow)
  then show ?thesis
    unfolding from_slice_def Let_def take8 by (simp add: from_to_le_bytes u ra_len_def)
qed

lemma ra_encoding_inject:
  "ra_fits a \<Longrightarrow> ra_fits b \<Longrightarrow> ra_encoding a = ra_encoding b \<longleftrightarrow> a = b"
  using from_slice_encoding [of _ "[]"] by (metis option.inject)

lemma from_slice_Some_encoding:
  assumes "from_slice bs = Some a"
  shows "ra_fits a \<and> (\<exists>rest. bs = ra_encoding a @ rest)"
proof -
  let ?len = "from_le_bytes (take 4 (drop 4 bs)) :: u32"
  from assms have l8: "8 \<le> length bs" by (auto simp: from_slice_def split: if_splits)
  from assms l8 obtain n where n: "checked_add ?len 8 = Some n" "unat n \<le> length bs"
    and a: "a = \<lparr> ra_registry_id = from_le_bytes (take 4 bs),
                  ra_address = take (unat ?len) (drop 8 bs) \<rparr>"
    by (auto simp: from_slice_def Let_def split: if_splits option.splits)
  from n(1) have u: "unat n = unat ?len + 8" "unat ?len + 8 < 2 ^ 32"
    by (auto dest: unat_checked_add simp: checked_add_Some_iff unat_add_no_overflow)
  have la: "length (ra_address a) = unat ?len" using n(2) u a by simp
  have e4: "to_le_bytes 4 (from_le_bytes (take 4 bs) :: u32) = take 4 bs"
    "to_le_bytes 4 ?len = take 4 (drop 4 bs)"
    using l8 by (simp_all add: to_from_le_bytes)
  have "bs = take 4 bs @ take 4 (drop 4 bs) @ drop 8 bs"
    by (metis add.commute append_take_drop_id drop_drop numeral_Bit0)
  also have "drop 8 bs = ra_address a @ drop (unat ?len) (drop 8 bs)"
    by (simp only: a registry_address.select_convs append_take_drop_id)
  also have "take 4 bs @ take 4 (drop 4 bs) @ ra_address a @ drop (unat ?len) (drop 8 bs) =
      ra_encoding a @ drop (unat ?len) (drop 8 bs)"
    unfolding ra_encoding_def la using a e4 by simp
  finally have "bs = ra_encoding a @ drop (unat ?len) (drop 8 bs)" .
  moreover have "ra_fits a" using la u by (simp add: ra_fits_def ra_len_def)
  ultimately show ?thesis by blast
qed

section \<open>Lemmas on enumerations, time points and amounts\<close>

lemma enum_round_trips [simp]:
  "script_hash_type_try_from (script_hash_type_to_byte t) = Ok t"
  "status_try_from (status_to_u8 s) = Ok s"
  "challenge_target_type_try_from (challenge_target_type_to_u8 c) = Ok c"
  "allowed_eoa_type_try_from (allowed_eoa_type_to_u8 e) = Ok e"
  "allowed_contract_type_try_from (allowed_contract_type_to_u8 k) = Ok k"
  subgoal by (cases t) (simp_all add: script_hash_type_try_from_def)
  subgoal by (cases s) (simp_all add: status_try_from_def)
  subgoal by (cases c) (simp_all add: challenge_target_type_try_from_def)
  subgoal by (cases e) (simp_all add: allowed_eoa_type_try_from_def)
  subgoal by (cases k) (simp_all add: allowed_contract_type_try_from_def)
  done

lemma bit_timepoint_MASK: "bit timepoint_MASK n \<longleftrightarrow> n = 63"
  unfolding timepoint_MASK_def by (auto simp only: bit_push_bit_iff bit_1_iff) auto

lemma mask_and_zero_iff: "timepoint_MASK AND x = 0 \<longleftrightarrow> \<not> bit x 63"
  by (auto simp: word_eq_iff_bits bit_and_iff bit_timepoint_MASK)

lemma bit_63_iff: "bit (x :: u64) 63 \<longleftrightarrow> 2 ^ 63 \<le> x"
proof -
  have "bit x 63 \<longleftrightarrow> bit (unat x) 63" by (simp add: bit_unsigned_iff)
  also have "\<dots> \<longleftrightarrow> odd (unat x div 2 ^ 63)" by (simp only: bit_iff_odd)
  finally have "bit x 63 \<longleftrightarrow> odd (unat x div 2 ^ 63)" .
  moreover have "unat x < 2 ^ 64" using unat_less [of x] by simp
  then have "unat x div 2 ^ 63 < 2" by (simp add: less_mult_imp_div_less)
  then have "odd (unat x div 2 ^ 63) \<longleftrightarrow> 2 ^ 63 \<le> unat x"
    by (cases "2 ^ 63 \<le> unat x") (auto simp: less_2_cases_iff div_eq_0_iff)
  ultimately show ?thesis by (simp add: word_le_nat_alt)
qed

lemma full_value_from_full_value [simp]: "full_value (from_full_value v) = v"
proof (cases "bit v 63")
  case True
  then show ?thesis
    by (auto simp: from_full_value_def mask_and_zero_iff word_eq_iff_bits bit_or_iff bit_xor_iff
        bit_timepoint_MASK)
qed (simp add: from_full_value_def mask_and_zero_iff)

lemma from_full_value_full_value:
  "from_full_value (full_value t) = t \<longleftrightarrow>
     (case t of BlockNumber n \<Rightarrow> n < 2 ^ 63 | Timestamp n \<Rightarrow> n < 2 ^ 63)"
proof (cases t)
  case (BlockNumber n)
  then show ?thesis
    using bit_63_iff [of n] by (auto simp: from_full_value_def mask_and_zero_iff)
next
  case (Timestamp n)
  have "bit (timepoint_MASK OR n) 63" by (simp add: bit_or_iff bit_timepoint_MASK)
  moreover have "timepoint_MASK XOR (timepoint_MASK OR n) = n \<longleftrightarrow> \<not> bit n 63"
    by (auto simp: word_eq_iff_bits bit_or_iff bit_xor_iff bit_timepoint_MASK dest: spec [of _ 63])
  ultimately show ?thesis
    using Timestamp bit_63_iff [of n] by (auto simp: from_full_value_def mask_and_zero_iff)
qed

lemma unat_power_ten: "unat CKB_DECIMAL_POWER_TEN = 10 ^ 10"
  by (simp add: CKB_DECIMAL_POWER_TEN_def CKB_DECIMAL_POW_EXP_def)

lemma unat_from_layer1: "unat (to_layer2 (from_layer1 a)) = unat a * 10 ^ 10"
proof -
  have "unat a < 2 ^ 64" using unat_less [of a] by simp
  then have "unat a * 10 ^ 10 < 2 ^ 256" by simp
  then show ?thesis
    by (simp add: from_layer1_def unat_word_ariths unat_ucast_up unat_power_ten)
qed

lemma to_layer1_eq:
  "to_layer1 (CKBCapacity n) =
     (if unat n div 10 ^ 10 < 2 ^ 64 then Some (of_nat (unat n div 10 ^ 10)) else None)"
proof -
  have u: "unat (n div ucast CKB_DECIMAL_POWER_TEN) = unat n div 10 ^ 10"
    by (simp add: unat_div unat_ucast_up unat_power_ten)
  have "ucast (n div ucast CKB_DECIMAL_POWER_TEN) = (of_nat (unat n div 10 ^ 10) :: u64)"
    by (subst ucast_eq_of_nat) (simp only: u)
  then show ?thesis
    using nat_bits_le_iff [of "unat n div 10 ^ 10" 64] u
    by (cases "nat_bits (unat n div 10 ^ 10) \<le> 64") (auto simp: Let_def)
qed

lemma to_layer1_from_layer1 [simp]: "to_layer1 (from_layer1 a) = Some a"
proof -
  obtain n where n: "from_layer1 a = CKBCapacity n" by (cases "from_layer1 a")
  then have "unat n div 10 ^ 10 = unat a" using unat_from_layer1 [of a] by simp
  then show ?thesis using n unat_less [of a] by (simp add: to_layer1_eq del: to_layer1.simps)
qed

lemma key_round_trips [simp, codec_simps]:
  "transaction_key_block_hash (build_transaction_key h i) = h"
  "transaction_key_index (build_transaction_key h i) = i"
  by (simp_all add: transaction_key_block_hash_def transaction_key_index_def
      build_transaction_key_def copy_at_def from_to_be_bytes)

end
