(* ===== verification/Gw_State.thy ===== *)
theory Gw_State
  imports Gw_Types
begin

text \<open>
  The account state (\<open>gwos/crates/common/src/state.rs\<close>): the key builders, the trait
  \<open>State\<close> and its provided methods, and the part of the trait \<open>CodeStore\<close>
  (\<open>crates/traits\<close>) the components call.

  A Rust trait is a dictionary of operations here: \<open>state_ops\<close> holds the five required
  methods of \<open>State\<close>, its extension \<open>code_state_ops\<close> those of \<open>CodeStore\<close>. A provided
  method is a definition that takes the dictionary, so the same definition is what the
  off-chain state database and the on-chain \<open>KVState\<close> run.

  The contract of the trait is the reference dictionary \<open>view_ops\<close>, whose state is a plain
  map. The locale \<open>state_contract\<close> says that a dictionary simulates it; every provided
  method then simulates its own instance at the reference, so behaviour proved there once
  holds of every lawful implementation.
\<close>

section \<open>Keys\<close>

definition GW_ACCOUNT_KV_TYPE :: u8 where "GW_ACCOUNT_KV_TYPE = 0"
definition GW_ACCOUNT_NONCE_TYPE :: u8 where "GW_ACCOUNT_NONCE_TYPE = 1"
definition GW_ACCOUNT_SCRIPT_HASH_TYPE :: u8 where "GW_ACCOUNT_SCRIPT_HASH_TYPE = 2"
definition GW_NON_ACCOUNT_PLACEHOLDER :: bytes where "GW_NON_ACCOUNT_PLACEHOLDER = replicate 4 0"
definition GW_SCRIPT_HASH_TO_ID_TYPE :: u8 where "GW_SCRIPT_HASH_TO_ID_TYPE = 3"
definition GW_DATA_HASH_TYPE :: u8 where "GW_DATA_HASH_TYPE = 4"
definition SUDT_KEY_FLAG_BALANCE :: u32 where "SUDT_KEY_FLAG_BALANCE = 1"
definition SUDT_TOTAL_SUPPLY_KEY :: bytes where "SUDT_TOTAL_SUPPLY_KEY = replicate 32 0xff"
definition REGISTRY_KEY_PREFIX :: bytes where "REGISTRY_KEY_PREFIX = [0x72, 0x65, 0x67]"
definition REGISTRY_KEY_FLAG_SCRIPT_HASH_TO_NATIVE :: u8 where
  "REGISTRY_KEY_FLAG_SCRIPT_HASH_TO_NATIVE = 1"
definition REGISTRY_KEY_FLAG_NATIVE_TO_SCRIPT_HASH :: u8 where
  "REGISTRY_KEY_FLAG_NATIVE_TO_SCRIPT_HASH = 2"

type_synonym hasher = "bytes \<Rightarrow> h256"

definition build_account_key :: "hasher \<Rightarrow> u32 \<Rightarrow> bytes \<Rightarrow> h256" where
  "build_account_key b2b aid key = b2b (to_le_bytes 4 aid @ [GW_ACCOUNT_KV_TYPE] @ key)"

definition build_sudt_key :: "u32 \<Rightarrow> registry_address \<Rightarrow> ('e, bytes) outcome" where
  "build_sudt_key key_flag address = (
     let key = replicate (ra_len address + 4) 0;
         key = copy_at 0 (to_le_bytes 4 key_flag) key
     in case write_to_slice address (drop 4 key) of
          (Ok _, tail) \<Rightarrow> Ok (take 4 key @ tail)
        | _ \<Rightarrow> Panic)"

definition build_script_hash_to_registry_address_key :: "h256 \<Rightarrow> bytes" where
  "build_script_hash_to_registry_address_key sh = (
     let key = replicate 36 0;
         key = copy_at 0 REGISTRY_KEY_PREFIX key;
         key = key[3 := REGISTRY_KEY_FLAG_SCRIPT_HASH_TO_NATIVE]
     in copy_at 4 (as_slice sh) key)"

definition build_registry_address_to_script_hash_key ::
  "registry_address \<Rightarrow> ('e, bytes) outcome" where
  "build_registry_address_to_script_hash_key address = (
     let key = replicate (4 + ra_len address) 0;
         key = copy_at 0 REGISTRY_KEY_PREFIX key;
         key = key[3 := REGISTRY_KEY_FLAG_NATIVE_TO_SCRIPT_HASH]
     in case write_to_slice address (drop 4 key) of
          (Ok _, tail) \<Rightarrow> Ok (take 4 key @ tail)
        | _ \<Rightarrow> Panic)"

definition build_account_field_key :: "u32 \<Rightarrow> u8 \<Rightarrow> h256" where
  "build_account_field_key aid ty =
     h256_of_bytes ((copy_at 0 (to_le_bytes 4 aid) (as_slice h256_zero))[4 := ty])"

definition build_script_hash_to_account_id_key :: "hasher \<Rightarrow> bytes \<Rightarrow> h256" where
  "build_script_hash_to_account_id_key b2b sh =
     b2b (GW_NON_ACCOUNT_PLACEHOLDER @ [GW_SCRIPT_HASH_TO_ID_TYPE] @ sh)"

definition build_data_hash_key :: "hasher \<Rightarrow> bytes \<Rightarrow> h256" where
  "build_data_hash_key b2b data_hash =
     b2b (GW_NON_ACCOUNT_PLACEHOLDER @ [GW_DATA_HASH_TYPE] @ data_hash)"

section \<open>The traits \<open>State\<close> and \<open>CodeStore\<close>\<close>

record 's state_ops =
  st_get_raw :: "h256 \<Rightarrow> ('s, common_error, h256) sm"
  st_update_raw :: "h256 \<Rightarrow> h256 \<Rightarrow> ('s, common_error, unit) sm"
  st_get_account_count :: "('s, common_error, u32) sm"
  st_set_account_count :: "u32 \<Rightarrow> ('s, common_error, unit) sm"
  st_calculate_root :: "('s, common_error, h256) sm"

record 's code_state_ops = "'s state_ops" +
  cs_insert_script :: "h256 \<Rightarrow> script \<Rightarrow> ('s, common_error, unit) sm"
  cs_get_script :: "h256 \<Rightarrow> ('s, common_error, script option) sm"
  cs_insert_data :: "h256 \<Rightarrow> bytes \<Rightarrow> ('s, common_error, unit) sm"
  cs_get_data :: "h256 \<Rightarrow> ('s, common_error, bytes option) sm"

section \<open>Provided methods of \<open>State\<close>\<close>

definition get_value ::
  "('s, 'x) state_ops_scheme \<Rightarrow> hasher \<Rightarrow> u32 \<Rightarrow> bytes \<Rightarrow> ('s, common_error, h256) sm" where
  "get_value T b2b aid key = (
     if key = [] then panic
     else st_get_raw T (build_account_key b2b aid key))"

definition update_value ::
  "('s, 'x) state_ops_scheme \<Rightarrow> hasher \<Rightarrow> u32 \<Rightarrow> bytes \<Rightarrow> h256 \<Rightarrow> ('s, common_error, unit) sm" where
  "update_value T b2b aid key value = (
     if key = [] then panic
     else sbind (st_update_raw T (build_account_key b2b aid key) value) (\<lambda>_. ret ()))"

definition get_script_hash ::
  "('s, 'x) state_ops_scheme \<Rightarrow> u32 \<Rightarrow> ('s, common_error, h256) sm" where
  "get_script_hash T aid = st_get_raw T (build_account_field_key aid GW_ACCOUNT_SCRIPT_HASH_TYPE)"

definition get_nonce ::
  "('s, 'x) state_ops_scheme \<Rightarrow> u32 \<Rightarrow> ('s, common_error, u32) sm" where
  "get_nonce T aid =
     sbind (st_get_raw T (build_account_field_key aid GW_ACCOUNT_NONCE_TYPE))
       (\<lambda>value. ret (to_u32 value))"

definition set_nonce ::
  "('s, 'x) state_ops_scheme \<Rightarrow> u32 \<Rightarrow> u32 \<Rightarrow> ('s, common_error, unit) sm" where
  "set_nonce T aid nonce =
     sbind (st_update_raw T (build_account_field_key aid GW_ACCOUNT_NONCE_TYPE) (from_u32 nonce))
       (\<lambda>_. ret ())"

definition get_account_id_by_script_hash ::
  "('s, 'x) state_ops_scheme \<Rightarrow> hasher \<Rightarrow> h256 \<Rightarrow> ('s, common_error, u32 option) sm" where
  "get_account_id_by_script_hash T b2b sh =
     sbind (st_get_raw T (build_script_hash_to_account_id_key b2b (as_slice sh)))
       (\<lambda>value. if h256_is_zero value then ret None else ret (Some (to_u32 value)))"

definition create_account ::
  "('s, 'x) state_ops_scheme \<Rightarrow> hasher \<Rightarrow> h256 \<Rightarrow> ('s, common_error, u32) sm" where
  "create_account T b2b sh =
     sbind (get_account_id_by_script_hash T b2b sh) (\<lambda>existing.
       if existing \<noteq> None then fail DuplicatedScriptHash
       else
         sbind (st_get_account_count T) (\<lambda>aid.
         sbind (set_nonce T aid 0) (\<lambda>_.
         sbind (st_update_raw T (build_account_field_key aid GW_ACCOUNT_SCRIPT_HASH_TYPE) sh) (\<lambda>_.
           let script_hash_to_id_value = h256_of_bytes ((as_slice (from_u32 aid))[4 := 1])
           in sbind (st_update_raw T (build_script_hash_to_account_id_key b2b (as_slice sh))
                       script_hash_to_id_value) (\<lambda>_.
              sbind (lift_o (add_or_panic aid 1)) (\<lambda>new_count.
              sbind (st_set_account_count T new_count) (\<lambda>_. ret aid)))))))"

definition get_sudt_balance ::
  "('s, 'x) state_ops_scheme \<Rightarrow> hasher \<Rightarrow> u32 \<Rightarrow> registry_address \<Rightarrow>
     ('s, common_error, u256) sm" where
  "get_sudt_balance T b2b sudt_id address =
     sbind (lift_o (build_sudt_key SUDT_KEY_FLAG_BALANCE address)) (\<lambda>sudt_key.
     sbind (get_value T b2b sudt_id sudt_key) (\<lambda>balance. ret (to_u256 balance)))"

definition get_sudt_total_supply ::
  "('s, 'x) state_ops_scheme \<Rightarrow> hasher \<Rightarrow> u32 \<Rightarrow> ('s, common_error, u256) sm" where
  "get_sudt_total_supply T b2b sudt_id =
     sbind (get_value T b2b sudt_id SUDT_TOTAL_SUPPLY_KEY) (\<lambda>v. ret (to_u256 v))"

definition store_data_hash ::
  "('s, 'x) state_ops_scheme \<Rightarrow> hasher \<Rightarrow> h256 \<Rightarrow> ('s, common_error, unit) sm" where
  "store_data_hash T b2b data_hash =
     sbind (st_update_raw T (build_data_hash_key b2b (as_slice data_hash)) h256_one) (\<lambda>_. ret ())"

definition is_data_hash_exist ::
  "('s, 'x) state_ops_scheme \<Rightarrow> hasher \<Rightarrow> h256 \<Rightarrow> ('s, common_error, bool) sm" where
  "is_data_hash_exist T b2b data_hash =
     sbind (st_get_raw T (build_data_hash_key b2b (as_slice data_hash)))
       (\<lambda>v. ret (v = h256_one))"

definition mint_sudt ::
  "('s, 'x) state_ops_scheme \<Rightarrow> hasher \<Rightarrow> u32 \<Rightarrow> registry_address \<Rightarrow> u256 \<Rightarrow>
     ('s, common_error, unit) sm" where
  "mint_sudt T b2b sudt_id address amount =
     sbind (lift_o (build_sudt_key SUDT_KEY_FLAG_BALANCE address)) (\<lambda>sudt_key.
       let raw_key = build_account_key b2b sudt_id sudt_key in
       sbind (st_get_raw T raw_key) (\<lambda>v.
       sbind (lift_o (ok_or AmountOverflow (checked_add (to_u256 v) amount))) (\<lambda>balance.
       sbind (st_update_raw T raw_key (from_u256 balance)) (\<lambda>_.
         let raw_key = build_account_key b2b sudt_id SUDT_TOTAL_SUPPLY_KEY in
         sbind (st_get_raw T raw_key) (\<lambda>v.
         sbind (lift_o (ok_or AmountOverflow (checked_add (to_u256 v) amount))) (\<lambda>total_supply.
         sbind (st_update_raw T raw_key (from_u256 total_supply)) (\<lambda>_. ret ())))))))"

definition burn_sudt ::
  "('s, 'x) state_ops_scheme \<Rightarrow> hasher \<Rightarrow> u32 \<Rightarrow> registry_address \<Rightarrow> u256 \<Rightarrow>
     ('s, common_error, unit) sm" where
  "burn_sudt T b2b sudt_id address amount =
     sbind (lift_o (build_sudt_key SUDT_KEY_FLAG_BALANCE address)) (\<lambda>sudt_key.
       let raw_key = build_account_key b2b sudt_id sudt_key in
       sbind (st_get_raw T raw_key) (\<lambda>v.
       sbind (lift_o (ok_or AmountOverflow (checked_sub (to_u256 v) amount))) (\<lambda>balance.
       sbind (st_update_raw T raw_key (from_u256 balance)) (\<lambda>_.
         let raw_key = build_account_key b2b sudt_id SUDT_TOTAL_SUPPLY_KEY in
         sbind (st_get_raw T raw_key) (\<lambda>v.
         sbind (lift_o (ok_or AmountOverflow (checked_sub (to_u256 v) amount))) (\<lambda>total_supply.
         sbind (st_update_raw T raw_key (from_u256 total_supply)) (\<lambda>_. ret ())))))))"

definition calculate_state_checkpoint ::
  "('s, 'x) state_ops_scheme \<Rightarrow> hasher \<Rightarrow> ('s, common_error, h256) sm" where
  "calculate_state_checkpoint T b2b =
     sbind (st_calculate_root T) (\<lambda>account_root.
     sbind (st_get_account_count T) (\<lambda>account_count.
       ret (state_checkpoint_of b2b account_root account_count)))"

definition get_script_hash_by_registry_address ::
  "('s, 'x) state_ops_scheme \<Rightarrow> hasher \<Rightarrow> registry_address \<Rightarrow>
     ('s, common_error, h256 option) sm" where
  "get_script_hash_by_registry_address T b2b address =
     sbind (lift_o (build_registry_address_to_script_hash_key address)) (\<lambda>key.
     sbind (get_value T b2b (ra_registry_id address) key) (\<lambda>value.
       if h256_is_zero value then ret None else ret (Some value)))"

definition get_registry_address_by_script_hash ::
  "('s, 'x) state_ops_scheme \<Rightarrow> hasher \<Rightarrow> u32 \<Rightarrow> h256 \<Rightarrow>
     ('s, common_error, registry_address option) sm" where
  "get_registry_address_by_script_hash T b2b registry_id sh =
     sbind (get_value T b2b registry_id (build_script_hash_to_registry_address_key sh)) (\<lambda>value.
       if h256_is_zero value then ret None
       else sbind (lift_o (or_panic (from_slice (as_slice value)))) (\<lambda>a. ret (Some a)))"

definition mapping_registry_address_to_script_hash ::
  "('s, 'x) state_ops_scheme \<Rightarrow> hasher \<Rightarrow> registry_address \<Rightarrow> h256 \<Rightarrow>
     ('s, common_error, unit) sm" where
  "mapping_registry_address_to_script_hash T b2b addr sh = (
     if length (ra_address addr) \<noteq> 20 then fail InvalidArgs
     else if h256_is_zero sh then fail InvalidArgs
     else if ra_registry_id addr \<noteq> ETH_REGISTRY_ACCOUNT_ID then fail InvalidArgs
     else
       sbind (get_registry_address_by_script_hash T b2b (ra_registry_id addr) sh) (\<lambda>r1.
       if r1 \<noteq> None then fail DuplicatedRegistryAddress else
       sbind (get_script_hash_by_registry_address T b2b addr) (\<lambda>r2.
       if r2 \<noteq> None then fail DuplicatedRegistryAddress else
       (case write_to_slice addr (replicate 32 0) of
          (Ok _, addr_buf) \<Rightarrow>
            sbind (update_value T b2b (ra_registry_id addr)
                     (build_script_hash_to_registry_address_key sh) (h256_of_bytes addr_buf)) (\<lambda>_.
            sbind (lift_o (build_registry_address_to_script_hash_key addr)) (\<lambda>key.
            sbind (update_value T b2b (ra_registry_id addr) key sh) (\<lambda>_. ret ())))
        | _ \<Rightarrow> panic))))"

section \<open>The reference: a state that is a map\<close>

text \<open>
  \<open>vw_has\<close> is the set of keys the state can serve: all of them off-chain, on-chain those of
  the kv pairs the block carries.
\<close>

record view =
  vw_map :: "h256 \<Rightarrow> h256"
  vw_has :: "h256 \<Rightarrow> bool"
  vw_count :: u32
  vw_scripts :: "h256 \<Rightarrow> script option"
  vw_data :: "h256 \<Rightarrow> bytes option"

definition view_get_raw :: "h256 \<Rightarrow> (view, common_error, h256) sm" where
  "view_get_raw k = (\<lambda>v. if vw_has v k then (Ok (vw_map v k), v) else (Err MissingKey, v))"

definition view_update_raw :: "h256 \<Rightarrow> h256 \<Rightarrow> (view, common_error, unit) sm" where
  "view_update_raw k x = (\<lambda>v. if vw_has v k
     then (Ok (), v\<lparr> vw_map := (vw_map v)(k := x) \<rparr>) else (Err MissingKey, v))"

definition view_ops :: "((h256 \<Rightarrow> h256) \<Rightarrow> h256) \<Rightarrow> view code_state_ops" where
  "view_ops root = \<lparr>
     st_get_raw = view_get_raw,
     st_update_raw = view_update_raw,
     st_get_account_count = gets vw_count,
     st_set_account_count = (\<lambda>c. modify (\<lambda>v. v\<lparr> vw_count := c \<rparr>)),
     st_calculate_root = gets (\<lambda>v. root (vw_map v)),
     cs_insert_script = (\<lambda>h s. modify (\<lambda>v. v\<lparr> vw_scripts := (vw_scripts v)(h := Some s) \<rparr>)),
     cs_get_script = (\<lambda>h. gets (\<lambda>v. vw_scripts v h)),
     cs_insert_data = (\<lambda>h d. modify (\<lambda>v. v\<lparr> vw_data := (vw_data v)(h := Some d) \<rparr>)),
     cs_get_data = (\<lambda>h. gets (\<lambda>v. vw_data v h)) \<rparr>"

text \<open>
  \<open>m\<close> simulates \<open>m'\<close>: from a good state it yields the outcome \<open>m'\<close> yields from the view,
  and ends in a good state whose view is the state \<open>m'\<close> ends in.
\<close>

definition simulates ::
  "('s \<Rightarrow> bool) \<Rightarrow> ('s \<Rightarrow> 'v) \<Rightarrow> ('s, 'e, 'a) sm \<Rightarrow> ('v, 'e, 'a) sm \<Rightarrow> bool" where
  "simulates good view m m' \<longleftrightarrow> (\<forall>s. good s \<longrightarrow>
     (case m s of (r, s') \<Rightarrow> good s' \<and> m' (view s) = (r, view s')))"

section \<open>Simulation lifts through the monad\<close>

named_theorems sim_intros \<open>closure of simulation under the state monad\<close>

lemma simulatesI:
  assumes "\<And>s r s'. good s \<Longrightarrow> m s = (r, s') \<Longrightarrow> good s' \<and> m' (view s) = (r, view s')"
  shows "simulates good view m m'"
  using assms by (auto simp: simulates_def split: prod.splits)

lemma simulatesD:
  "simulates good view m m' \<Longrightarrow> good s \<Longrightarrow> m s = (r, s') \<Longrightarrow> good s' \<and> m' (view s) = (r, view s')"
  by (auto simp: simulates_def split: prod.splits)

lemma simulates_prim [sim_intros]:
  "simulates good view (ret x) (ret x)"
  "simulates good view (fail e) (fail e)"
  "simulates good view panic panic"
  "simulates good view (lift_o r) (lift_o r)"
  by (auto simp: simulates_def)

lemma simulates_sbind [sim_intros]:
  assumes m: "simulates good view m m'"
    and f: "\<And>x. simulates good view (f x) (f' x)"
  shows "simulates good view (sbind m f) (sbind m' f')"
proof (rule simulatesI)
  fix s r s' assume good: "good s" and run: "sbind m f s = (r, s')"
  obtain r1 s1 where m1: "m s = (r1, s1)" by (cases "m s")
  with simulatesD [OF m good] have s1: "good s1" "m' (view s) = (r1, view s1)" by blast+
  show "good s' \<and> sbind m' f' (view s) = (r, view s')"
  proof (cases r1)
    case (Ok x)
    with run m1 have "f x s1 = (r, s')" by (simp add: sbind_def)
    with simulatesD [OF f s1(1)] show ?thesis using s1(2) Ok by (simp add: sbind_def)
  qed (use run m1 s1 in \<open>auto simp: sbind_def\<close>)
qed

lemma simulates_if [sim_intros]:
  "(b \<Longrightarrow> simulates good view m m') \<Longrightarrow> (\<not> b \<Longrightarrow> simulates good view n n') \<Longrightarrow>
     simulates good view (if b then m else n) (if b then m' else n')"
  by simp

lemma simulates_let [sim_intros]:
  "(\<And>x. simulates good view (f x) (f' x)) \<Longrightarrow> simulates good view (Let t f) (Let t f')"
  by (simp add: Let_def)

lemma simulates_case_option [sim_intros]:
  "simulates good view n n' \<Longrightarrow> (\<And>x. simulates good view (f x) (f' x)) \<Longrightarrow>
     simulates good view (case o1 of None \<Rightarrow> n | Some x \<Rightarrow> f x) (case o1 of None \<Rightarrow> n' | Some x \<Rightarrow> f' x)"
  by (cases o1) auto

lemma simulates_case_prod [sim_intros]:
  "(\<And>x y. simulates good view (f x y) (f' x y)) \<Longrightarrow>
     simulates good view (case p of (x, y) \<Rightarrow> f x y) (case p of (x, y) \<Rightarrow> f' x y)"
  by (cases p) auto

lemma simulates_case_outcome [sim_intros]:
  "(\<And>x. simulates good view (f x) (f' x)) \<Longrightarrow> (\<And>e. simulates good view (g e) (g' e)) \<Longrightarrow>
     simulates good view h h' \<Longrightarrow>
     simulates good view (case r of Ok x \<Rightarrow> f x | Err e \<Rightarrow> g e | Panic \<Rightarrow> h)
       (case r of Ok x \<Rightarrow> f' x | Err e \<Rightarrow> g' e | Panic \<Rightarrow> h')"
  by (cases r) auto

lemma simulates_map_err [sim_intros]:
  "simulates good view m m' \<Longrightarrow> simulates good view (map_err g m) (map_err g m')"
  by (fastforce simp: simulates_def map_err_def split: prod.splits)

lemma simulates_sfor [sim_intros]:
  "(\<And>x. simulates good view (f x) (f' x)) \<Longrightarrow> simulates good view (sfor xs f) (sfor xs f')"
  by (induction xs) (auto intro!: sim_intros)

text \<open>Two implementations of one contract agree: equal views give equal outcomes.\<close>

lemma simulates_agree:
  assumes "simulates good1 view1 m1 m'" and "simulates good2 view2 m2 m'"
    and "good1 s1" and "good2 s2" and "view1 s1 = view2 s2"
  shows "fst (m1 s1) = fst (m2 s2) \<and> view1 (snd (m1 s1)) = view2 (snd (m2 s2))"
  using simulatesD [OF assms(1,3)] simulatesD [OF assms(2,4)] assms(5)
  by (cases "m1 s1"; cases "m2 s2") fastforce

section \<open>The contract of the trait\<close>

locale state_contract =
  fixes T :: "('s, 'x) state_ops_scheme"
    and view :: "'s \<Rightarrow> view"
    and good :: "'s \<Rightarrow> bool"
    and root :: "(h256 \<Rightarrow> h256) \<Rightarrow> h256"
  assumes sim_get_raw [sim_intros]:
      "simulates good view (st_get_raw T k) (st_get_raw (view_ops root) k)"
    and sim_update_raw [sim_intros]:
      "simulates good view (st_update_raw T k x) (st_update_raw (view_ops root) k x)"
    and sim_get_account_count [sim_intros]:
      "simulates good view (st_get_account_count T) (st_get_account_count (view_ops root))"
    and sim_set_account_count [sim_intros]:
      "simulates good view (st_set_account_count T c) (st_set_account_count (view_ops root) c)"
begin

lemma sim_get_value [sim_intros]:
  "simulates good view (get_value T b2b i k) (get_value (view_ops root) b2b i k)"
  unfolding get_value_def by (intro sim_intros)

lemma sim_update_value [sim_intros]:
  "simulates good view (update_value T b2b i k x) (update_value (view_ops root) b2b i k x)"
  unfolding update_value_def by (intro sim_intros)

lemma sim_get_script_hash [sim_intros]:
  "simulates good view (get_script_hash T i) (get_script_hash (view_ops root) i)"
  unfolding get_script_hash_def by (intro sim_intros)

lemma sim_get_nonce [sim_intros]:
  "simulates good view (get_nonce T i) (get_nonce (view_ops root) i)"
  unfolding get_nonce_def by (intro sim_intros)

lemma sim_set_nonce [sim_intros]:
  "simulates good view (set_nonce T i n) (set_nonce (view_ops root) i n)"
  unfolding set_nonce_def by (intro sim_intros)

lemma sim_get_account_id [sim_intros]:
  "simulates good view (get_account_id_by_script_hash T b2b h)
     (get_account_id_by_script_hash (view_ops root) b2b h)"
  unfolding get_account_id_by_script_hash_def by (intro sim_intros)

lemma sim_create_account [sim_intros]:
  "simulates good view (create_account T b2b h) (create_account (view_ops root) b2b h)"
  unfolding create_account_def by (intro sim_intros)

lemma sim_get_sudt_balance [sim_intros]:
  "simulates good view (get_sudt_balance T b2b i a) (get_sudt_balance (view_ops root) b2b i a)"
  unfolding get_sudt_balance_def by (intro sim_intros)

lemma sim_get_sudt_total_supply [sim_intros]:
  "simulates good view (get_sudt_total_supply T b2b i) (get_sudt_total_supply (view_ops root) b2b i)"
  unfolding get_sudt_total_supply_def by (intro sim_intros)

lemma sim_data_hash [sim_intros]:
  "simulates good view (store_data_hash T b2b h) (store_data_hash (view_ops root) b2b h)"
  "simulates good view (is_data_hash_exist T b2b h) (is_data_hash_exist (view_ops root) b2b h)"
  unfolding store_data_hash_def is_data_hash_exist_def by (intro sim_intros)+

lemma sim_mint_sudt [sim_intros]:
  "simulates good view (mint_sudt T b2b i a n) (mint_sudt (view_ops root) b2b i a n)"
  unfolding mint_sudt_def by (intro sim_intros)

lemma sim_burn_sudt [sim_intros]:
  "simulates good view (burn_sudt T b2b i a n) (burn_sudt (view_ops root) b2b i a n)"
  unfolding burn_sudt_def by (intro sim_intros)

lemma sim_registry_lookups [sim_intros]:
  "simulates good view (get_script_hash_by_registry_address T b2b a)
     (get_script_hash_by_registry_address (view_ops root) b2b a)"
  "simulates good view (get_registry_address_by_script_hash T b2b i h)
     (get_registry_address_by_script_hash (view_ops root) b2b i h)"
  unfolding get_script_hash_by_registry_address_def get_registry_address_by_script_hash_def
  by (intro sim_intros)+

lemma sim_mapping_registry [sim_intros]:
  "simulates good view (mapping_registry_address_to_script_hash T b2b a h)
     (mapping_registry_address_to_script_hash (view_ops root) b2b a h)"
  unfolding mapping_registry_address_to_script_hash_def by (intro sim_intros)

end

text \<open>Implementations that also store scripts and data.\<close>

locale code_state_contract = state_contract T view good root
  for T :: "('s, 'x) code_state_ops_scheme" and view good root +
  assumes sim_insert_script [sim_intros]:
      "simulates good view (cs_insert_script T h sc) (cs_insert_script (view_ops root) h sc)"
    and sim_get_script [sim_intros]:
      "simulates good view (cs_get_script T h) (cs_get_script (view_ops root) h)"
    and sim_insert_data [sim_intros]:
      "simulates good view (cs_insert_data T h d) (cs_insert_data (view_ops root) h d)"
    and sim_get_data [sim_intros]:
      "simulates good view (cs_get_data T h) (cs_get_data (view_ops root) h)"

text \<open>The reference is an instance of its own contract.\<close>

lemma simulates_refl: "simulates (\<lambda>_. True) (\<lambda>v. v) m m"
  by (auto simp: simulates_def split: prod.splits)

interpretation vo: code_state_contract "view_ops root" "\<lambda>v. v" "\<lambda>_. True" root for root
  by unfold_locales (rule simulates_refl)+

end
