(* ===== verification/Gw_Ledger.thy ===== *)
theory Gw_Ledger
  imports Gw_State
begin

text \<open>
  What the provided methods of \<open>State\<close> do, proved once at the reference state: the complete
  outcome of each operation on every branch, the frame of keys it leaves alone, the
  conservation of token supply, and the bijections of the account and registry tables.

  blake2b cannot be injective, so no lemma assumes it is. What the code relies on, that the
  keys of one state do not collide, is the hypothesis of each lemma about two keys.
\<close>

section \<open>Encodings of the keys\<close>

lemma build_sudt_key_eq:
  "build_sudt_key flag a = (if ra_fits a then Ok (to_le_bytes 4 flag @ ra_encoding a) else Panic)"
  by (cases "ra_fits a")
    (simp_all add: build_sudt_key_def Let_def copy_at_def write_to_slice_ok write_to_slice_err)

lemma registry_address_key_eq:
  "build_registry_address_to_script_hash_key a =
     (if ra_fits a then Ok (REGISTRY_KEY_PREFIX @ [REGISTRY_KEY_FLAG_NATIVE_TO_SCRIPT_HASH] @ ra_encoding a)
      else Panic)"
  by (cases "ra_fits a")
    (simp_all add: build_registry_address_to_script_hash_key_def Let_def copy_at_def
      REGISTRY_KEY_PREFIX_def write_to_slice_ok write_to_slice_err list_update_append
      numeral_3_eq_3 numeral_2_eq_2)

lemma script_hash_key_eq:
  "build_script_hash_to_registry_address_key h =
     REGISTRY_KEY_PREFIX @ [REGISTRY_KEY_FLAG_SCRIPT_HASH_TO_NATIVE] @ as_slice h"
proof -
  have "replicate 33 (0 :: byte) = 0 # replicate 32 0" by (simp add: eval_nat_numeral)
  then show ?thesis
    by (simp add: build_script_hash_to_registry_address_key_def Let_def copy_at_def
        REGISTRY_KEY_PREFIX_def list_update_append numeral_3_eq_3 numeral_2_eq_2)
qed

text \<open>Field keys are the bytes \<open>id | type | 0..\<close> themselves, so they never collide.\<close>

lemma field_key_bytes:
  "as_slice (build_account_field_key i t) = to_le_bytes 4 i @ [t] @ replicate 27 0"
proof -
  have z: "as_slice h256_zero = replicate 32 0"
    by (simp add: h256_zero_def as_slice_of_bytes del: h256_zero_eq)
  have "(copy_at 0 (to_le_bytes 4 i) (as_slice h256_zero))[4 := t] =
      to_le_bytes 4 i @ [t] @ replicate 27 0"
    unfolding z by (simp add: copy_at_def list_update_append Cons_replicate_eq
        list_update_code(2) replicate_Suc [symmetric] numeral_eq_Suc)
  then show ?thesis
    by (simp add: build_account_field_key_def as_slice_of_bytes)
qed

lemma field_key_inject [simp]:
  "build_account_field_key i t = build_account_field_key j u \<longleftrightarrow> i = j \<and> t = u"
proof -
  have "build_account_field_key i t = build_account_field_key j u \<longleftrightarrow>
      as_slice (build_account_field_key i t) = as_slice (build_account_field_key j u)"
    by simp
  also have "\<dots> \<longleftrightarrow> i = j \<and> t = u"
    by (auto simp: field_key_bytes to_le_bytes_inject)
  finally show ?thesis .
qed

section \<open>Tokens\<close>

definition bal_key :: "hasher \<Rightarrow> u32 \<Rightarrow> registry_address \<Rightarrow> h256" where
  "bal_key b2b i a =
     build_account_key b2b i (to_le_bytes 4 SUDT_KEY_FLAG_BALANCE @ ra_encoding a)"

definition sup_key :: "hasher \<Rightarrow> u32 \<Rightarrow> h256" where
  "sup_key b2b i = build_account_key b2b i SUDT_TOTAL_SUPPLY_KEY"

definition set_key :: "h256 \<Rightarrow> h256 \<Rightarrow> view \<Rightarrow> view" where
  "set_key k x v = v\<lparr> vw_map := (vw_map v)(k := x) \<rparr>"

lemma set_key_simps [simp]:
  "vw_map (set_key k x v) = (vw_map v)(k := x)"
  "vw_has (set_key k x v) = vw_has v"
  "vw_count (set_key k x v) = vw_count v"
  "vw_scripts (set_key k x v) = vw_scripts v"
  "vw_data (set_key k x v) = vw_data v"
  by (simp_all add: set_key_def)

lemma view_ops_run [outcome_simps]:
  "st_get_raw (view_ops root) k v = (if vw_has v k then (Ok (vw_map v k), v) else (Err MissingKey, v))"
  "st_update_raw (view_ops root) k x v =
     (if vw_has v k then (Ok (), set_key k x v) else (Err MissingKey, v))"
  "st_get_account_count (view_ops root) v = (Ok (vw_count v), v)"
  "st_set_account_count (view_ops root) c v = (Ok (), v\<lparr> vw_count := c \<rparr>)"
  "st_calculate_root (view_ops root) v = (Ok (root (vw_map v)), v)"
  "cs_insert_script (view_ops root) h sc v =
     (Ok (), v\<lparr> vw_scripts := (vw_scripts v)(h := Some sc) \<rparr>)"
  "cs_get_script (view_ops root) h v = (Ok (vw_scripts v h), v)"
  "cs_insert_data (view_ops root) h d v = (Ok (), v\<lparr> vw_data := (vw_data v)(h := Some d) \<rparr>)"
  "cs_get_data (view_ops root) h v = (Ok (vw_data v h), v)"
  by (simp_all add: view_ops_def view_get_raw_def view_update_raw_def set_key_def)

lemma sbind_run: "sbind m f s = (case m s of (Ok x, s') \<Rightarrow> f x s' | (Err e, s') \<Rightarrow> (Err e, s') | (Panic, s') \<Rightarrow> (Panic, s'))"
  by (simp add: sbind_def)

lemma mint_sudt_view:
  assumes "ra_fits a" and "vw_has v (bal_key b2b i a)" and "vw_has v (sup_key b2b i)"
    and "bal_key b2b i a \<noteq> sup_key b2b i"
  shows "mint_sudt (view_ops root) b2b i a n v = (
    case checked_add (vw_map v (bal_key b2b i a)) n of
      None \<Rightarrow> (Err AmountOverflow, v)
    | Some b \<Rightarrow> (case checked_add (vw_map v (sup_key b2b i)) n of
        None \<Rightarrow> (Err AmountOverflow, set_key (bal_key b2b i a) b v)
      | Some t \<Rightarrow> (Ok (), set_key (sup_key b2b i) t (set_key (bal_key b2b i a) b v))))"
  using assms
  by (simp add: mint_sudt_def build_sudt_key_eq Let_def h256_ext_eqs sbind_run view_ops_run
      flip: bal_key_def sup_key_def split: option.splits)

lemma burn_sudt_view:
  assumes "ra_fits a" and "vw_has v (bal_key b2b i a)" and "vw_has v (sup_key b2b i)"
    and "bal_key b2b i a \<noteq> sup_key b2b i"
  shows "burn_sudt (view_ops root) b2b i a n v = (
    case checked_sub (vw_map v (bal_key b2b i a)) n of
      None \<Rightarrow> (Err AmountOverflow, v)
    | Some b \<Rightarrow> (case checked_sub (vw_map v (sup_key b2b i)) n of
        None \<Rightarrow> (Err AmountOverflow, set_key (bal_key b2b i a) b v)
      | Some t \<Rightarrow> (Ok (), set_key (sup_key b2b i) t (set_key (bal_key b2b i a) b v))))"
  using assms
  by (simp add: burn_sudt_def build_sudt_key_eq Let_def h256_ext_eqs sbind_run view_ops_run
      flip: bal_key_def sup_key_def split: option.splits)

text \<open>
  The ledger of token \<open>i\<close> over the holders \<open>A\<close>: the recorded total supply is the sum of the
  balances. \<open>keys_ok\<close> is the absence of collisions among the keys involved, and that the
  state serves them.
\<close>

definition keys_ok :: "hasher \<Rightarrow> u32 \<Rightarrow> registry_address set \<Rightarrow> view \<Rightarrow> bool" where
  "keys_ok b2b i A v \<longleftrightarrow> finite A \<and> (\<forall>a\<in>A. ra_fits a) \<and> inj_on (bal_key b2b i) A \<and>
     (\<forall>a\<in>A. bal_key b2b i a \<noteq> sup_key b2b i) \<and>
     (\<forall>a\<in>A. vw_has v (bal_key b2b i a)) \<and> vw_has v (sup_key b2b i)"

definition holdings :: "hasher \<Rightarrow> u32 \<Rightarrow> registry_address set \<Rightarrow> view \<Rightarrow> nat" where
  "holdings b2b i A v = (\<Sum>a\<in>A. unat (vw_map v (bal_key b2b i a)))"

definition tot_supply :: "hasher \<Rightarrow> u32 \<Rightarrow> view \<Rightarrow> nat" where
  "tot_supply b2b i v = unat (vw_map v (sup_key b2b i))"

definition ledger_ok :: "hasher \<Rightarrow> u32 \<Rightarrow> registry_address set \<Rightarrow> view \<Rightarrow> bool" where
  "ledger_ok b2b i A v \<longleftrightarrow> keys_ok b2b i A v \<and> holdings b2b i A v = tot_supply b2b i v"

lemma keys_okD:
  assumes "keys_ok b2b i A v" and "a \<in> A"
  shows "ra_fits a" "vw_has v (bal_key b2b i a)" "vw_has v (sup_key b2b i)"
    "bal_key b2b i a \<noteq> sup_key b2b i" "finite A"
  using assms by (auto simp: keys_ok_def)

lemma keys_ok_set_key [simp]: "keys_ok b2b i A (set_key k x v) = keys_ok b2b i A v"
  by (simp add: keys_ok_def)

lemma holdings_set_bal:
  assumes "keys_ok b2b i A v" and "a \<in> A"
  shows "holdings b2b i A (set_key (bal_key b2b i a) x v) + unat (vw_map v (bal_key b2b i a)) =
         holdings b2b i A v + unat x"
proof -
  have fin: "finite A" and inj: "inj_on (bal_key b2b i) A" using assms(1) by (auto simp: keys_ok_def)
  have rest: "(\<Sum>c\<in>A - {a}. unat (vw_map (set_key (bal_key b2b i a) x v) (bal_key b2b i c))) =
      (\<Sum>c\<in>A - {a}. unat (vw_map v (bal_key b2b i c)))"
    using inj assms(2) by (intro sum.cong) (auto simp: inj_on_def)
  show ?thesis
    unfolding holdings_def using rest by (simp add: sum.remove [OF fin assms(2)])
qed

lemma holdings_set_sup:
  "keys_ok b2b i A v \<Longrightarrow> holdings b2b i A (set_key (sup_key b2b i) x v) = holdings b2b i A v"
  by (auto simp: holdings_def keys_ok_def intro!: sum.cong)

lemma supply_set [simp]:
  "tot_supply b2b i (set_key (sup_key b2b i) x v) = unat x"
  "sup_key b2b i \<noteq> k \<Longrightarrow> tot_supply b2b i (set_key k x v) = tot_supply b2b i v"
  by (simp_all add: tot_supply_def)

lemma holding_le_supply:
  assumes "ledger_ok b2b i A v" and "a \<in> A"
  shows "unat (vw_map v (bal_key b2b i a)) \<le> tot_supply b2b i v"
proof -
  have "unat (vw_map v (bal_key b2b i a)) \<le> holdings b2b i A v"
    unfolding holdings_def using assms
    by (intro member_le_sum) (auto simp: ledger_ok_def keys_ok_def)
  then show ?thesis using assms by (simp add: ledger_ok_def)
qed

text \<open>Burning is atomic on a sound ledger: the supply covers whatever a balance covers.\<close>

lemma burn_sudt_ledger:
  assumes L: "ledger_ok b2b i A v" and a: "a \<in> A"
  shows "burn_sudt (view_ops root) b2b i a n v =
    (if n \<le> vw_map v (bal_key b2b i a)
     then (Ok (), set_key (sup_key b2b i) (vw_map v (sup_key b2b i) - n)
                    (set_key (bal_key b2b i a) (vw_map v (bal_key b2b i a) - n) v))
     else (Err AmountOverflow, v))"
proof -
  have K: "keys_ok b2b i A v" using L by (simp add: ledger_ok_def)
  have "n \<le> vw_map v (sup_key b2b i)" if "n \<le> vw_map v (bal_key b2b i a)"
    using holding_le_supply [OF L a] that by (simp add: tot_supply_def word_le_nat_alt)
  then show ?thesis
    by (simp add: burn_sudt_view [OF keys_okD(1,2,3,4) [OF K a]] checked_sub_def)
qed

lemma burn_sudt_ledger_ok:
  assumes L: "ledger_ok b2b i A v" and a: "a \<in> A"
    and run: "burn_sudt (view_ops root) b2b i a n v = (r, v')"
  shows "ledger_ok b2b i A v'"
proof (cases "n \<le> vw_map v (bal_key b2b i a)")
  case True
  let ?b = "bal_key b2b i a" and ?s = "sup_key b2b i"
  have K: "keys_ok b2b i A v" using L by (simp add: ledger_ok_def)
  have v': "v' = set_key ?s (vw_map v ?s - n) (set_key ?b (vw_map v ?b - n) v)"
    using run True by (simp add: burn_sudt_ledger [OF L a])
  have le: "unat n \<le> unat (vw_map v ?b)" "unat n \<le> unat (vw_map v ?s)"
    using True holding_le_supply [OF L a] by (auto simp: tot_supply_def word_le_nat_alt)
  have "holdings b2b i A v' = holdings b2b i A (set_key ?b (vw_map v ?b - n) v)"
    using K by (simp add: v' holdings_set_sup)
  moreover have "\<dots> + unat n = holdings b2b i A v"
    using holdings_set_bal [OF K a, of "vw_map v ?b - n"] le
    by (simp add: unat_sub word_le_nat_alt)
  moreover have "tot_supply b2b i v' + unat n = tot_supply b2b i v"
    using le by (simp add: v' tot_supply_def unat_sub word_le_nat_alt)
  ultimately show ?thesis using L K by (simp add: ledger_ok_def v')
qed (use run L in \<open>simp add: burn_sudt_ledger [OF L a]\<close>)

lemma mint_sudt_ledger_ok:
  assumes L: "ledger_ok b2b i A v" and a: "a \<in> A"
    and run: "mint_sudt (view_ops root) b2b i a n v = (Ok u, v')"
  shows "ledger_ok b2b i A v' \<and> tot_supply b2b i v' = tot_supply b2b i v + unat n"
proof -
  let ?b = "bal_key b2b i a" and ?s = "sup_key b2b i"
  have K: "keys_ok b2b i A v" using L by (simp add: ledger_ok_def)
  obtain b t where b: "checked_add (vw_map v ?b) n = Some b"
    and t: "checked_add (vw_map v ?s) n = Some t"
    and v': "v' = set_key ?s t (set_key ?b b v)"
    using run by (auto simp: mint_sudt_view [OF keys_okD(1,2,3,4) [OF K a]] split: option.splits)
  have "holdings b2b i A v' = holdings b2b i A (set_key ?b b v)"
    using K by (simp add: v' holdings_set_sup)
  moreover have "\<dots> = holdings b2b i A v + unat n"
    using holdings_set_bal [OF K a, of b] unat_checked_add [OF b] by simp
  moreover have "tot_supply b2b i v' = tot_supply b2b i v + unat n"
    using unat_checked_add [OF t] by (simp add: v' tot_supply_def)
  ultimately show ?thesis using L K by (simp add: ledger_ok_def v')
qed

text \<open>On a sound ledger minting succeeds exactly when the total supply has room.\<close>

lemma mint_sudt_ledger:
  assumes L: "ledger_ok b2b i A v" and a: "a \<in> A"
    and room: "tot_supply b2b i v + unat n < 2 ^ 256"
  shows "mint_sudt (view_ops root) b2b i a n v =
    (Ok (), set_key (sup_key b2b i) (vw_map v (sup_key b2b i) + n)
              (set_key (bal_key b2b i a) (vw_map v (bal_key b2b i a) + n) v))"
proof -
  have K: "keys_ok b2b i A v" using L by (simp add: ledger_ok_def)
  have "unat (vw_map v (bal_key b2b i a)) + unat n < 2 ^ 256"
    using holding_le_supply [OF L a] room by linarith
  then show ?thesis
    using room by (simp add: mint_sudt_view [OF keys_okD(1,2,3,4) [OF K a]] checked_add_def tot_supply_def)
qed

section \<open>Accounts\<close>

definition script_field :: "u32 \<Rightarrow> h256" where
  "script_field i = build_account_field_key i GW_ACCOUNT_SCRIPT_HASH_TYPE"

definition nonce_field :: "u32 \<Rightarrow> h256" where
  "nonce_field i = build_account_field_key i GW_ACCOUNT_NONCE_TYPE"

definition id_key :: "hasher \<Rightarrow> h256 \<Rightarrow> h256" where
  "id_key b2b h = build_script_hash_to_account_id_key b2b (as_slice h)"

definition id_value :: "u32 \<Rightarrow> h256" where
  "id_value i = h256_of_bytes ((as_slice (from_u32 i))[4 := 1])"

lemma field_simps_keys [simp]:
  "script_field i = script_field j \<longleftrightarrow> i = j" "nonce_field i = nonce_field j \<longleftrightarrow> i = j"
  "script_field i \<noteq> nonce_field j" "nonce_field i \<noteq> script_field j"
  by (simp_all add: script_field_def nonce_field_def GW_ACCOUNT_SCRIPT_HASH_TYPE_def
      GW_ACCOUNT_NONCE_TYPE_def)

lemma to_u32_id_value [simp]: "to_u32 (id_value i) = i"
proof -
  have "take 4 ((as_slice (from_u32 i))[4 := 1]) = take 4 (as_slice (from_u32 i))" by simp
  then show ?thesis
    using to_from_uint(1) [of i] by (simp add: to_u32_def id_value_def as_slice_of_bytes)
qed

lemma id_value_nonzero [simp]: "id_value i \<noteq> 0"
proof
  assume "id_value i = 0"
  then have "as_slice (id_value i) ! 4 = as_slice 0 ! 4" by simp
  then show False by (simp add: id_value_def as_slice_of_bytes) (simp add: as_slice_def)
qed

lemma id_value_inject [simp]: "id_value i = id_value j \<longleftrightarrow> i = j"
  by (metis to_u32_id_value)

lemma set_nonce_view:
  "vw_has v (nonce_field i) \<Longrightarrow>
     set_nonce (view_ops root) i n v = (Ok (), set_key (nonce_field i) (from_u32 n) v)"
  by (simp add: set_nonce_def sbind_run view_ops_run flip: nonce_field_def)

lemma get_nonce_view:
  "vw_has v (nonce_field i) \<Longrightarrow>
     get_nonce (view_ops root) i v = (Ok (to_u32 (vw_map v (nonce_field i))), v)"
  by (simp add: get_nonce_def sbind_run view_ops_run flip: nonce_field_def)

lemma get_script_hash_view:
  "vw_has v (script_field i) \<Longrightarrow>
     get_script_hash (view_ops root) i v = (Ok (vw_map v (script_field i)), v)"
  by (simp add: get_script_hash_def view_ops_run flip: script_field_def)

lemma get_account_id_view:
  "vw_has v (id_key b2b h) \<Longrightarrow>
     get_account_id_by_script_hash (view_ops root) b2b h v =
       (Ok (if vw_map v (id_key b2b h) = 0 then None else Some (to_u32 (vw_map v (id_key b2b h)))), v)"
  by (simp add: get_account_id_by_script_hash_def sbind_run view_ops_run flip: id_key_def)

lemma create_account_view:
  assumes "vw_has v (id_key b2b h)" and "vw_has v (nonce_field (vw_count v))"
    and "vw_has v (script_field (vw_count v))"
  shows "create_account (view_ops root) b2b h v = (
    if vw_map v (id_key b2b h) \<noteq> 0 then (Err DuplicatedScriptHash, v)
    else let v' = set_key (id_key b2b h) (id_value (vw_count v))
                    (set_key (script_field (vw_count v)) h (set_key (nonce_field (vw_count v)) 0 v))
      in case checked_add (vw_count v) 1 of
           None \<Rightarrow> (Panic, v')
         | Some c \<Rightarrow> (Ok (vw_count v), v'\<lparr> vw_count := c \<rparr>))"
  using assms
  by (simp add: create_account_def get_account_id_view set_nonce_view sbind_run view_ops_run
      Let_def add_or_panic_def h256_ext_eqs(1) [of 0]
      flip: id_key_def script_field_def id_value_def split: option.splits)

text \<open>
  The account table over the script hashes \<open>H\<close>: account \<open>i\<close> below the count carries a script
  hash that maps back to \<open>i\<close>, and every script hash that maps to an id maps to such an account.
\<close>

definition account_keys_ok :: "hasher \<Rightarrow> h256 set \<Rightarrow> view \<Rightarrow> bool" where
  "account_keys_ok b2b H v \<longleftrightarrow> inj_on (id_key b2b) H \<and>
     (\<forall>h\<in>H. \<forall>i. id_key b2b h \<noteq> script_field i \<and> id_key b2b h \<noteq> nonce_field i) \<and>
     (\<forall>h\<in>H. vw_has v (id_key b2b h)) \<and> (\<forall>i. vw_has v (script_field i) \<and> vw_has v (nonce_field i))"

definition accounts_ok :: "hasher \<Rightarrow> h256 set \<Rightarrow> view \<Rightarrow> bool" where
  "accounts_ok b2b H v \<longleftrightarrow> account_keys_ok b2b H v \<and>
     (\<forall>i < vw_count v. vw_map v (script_field i) \<in> H \<and>
        vw_map v (id_key b2b (vw_map v (script_field i))) = id_value i) \<and>
     (\<forall>h\<in>H. vw_map v (id_key b2b h) \<noteq> 0 \<longrightarrow>
        (\<exists>i < vw_count v. vw_map v (id_key b2b h) = id_value i \<and> vw_map v (script_field i) = h))"

lemma word_less_Suc: "i < c + 1 \<longleftrightarrow> i < c \<or> i = c" if "unat c + 1 < 2 ^ LENGTH('a)"
  for i c :: "'a::len word"
  using that unat_add_no_overflow [of c 1]
  by (auto simp: word_less_nat_alt less_Suc_eq word_unat_eq_iff)

lemma create_account_accounts_ok:
  assumes A: "accounts_ok b2b H v" and h: "h \<in> H"
    and run: "create_account (view_ops root) b2b h v = (Ok j, v')"
  shows "accounts_ok b2b H v' \<and> j = vw_count v \<and> vw_count v' = vw_count v + 1 \<and>
    vw_map v' (script_field j) = h \<and> vw_map v' (id_key b2b h) = id_value j \<and>
    vw_map v' (nonce_field j) = 0"
proof -
  let ?c = "vw_count v"
  let ?w = "set_key (id_key b2b h) (id_value ?c) (set_key (script_field ?c) h (set_key (nonce_field ?c) 0 v))"
  have K: "account_keys_ok b2b H v" using A by (simp add: accounts_ok_def)
  have k1: "inj_on (id_key b2b) H"
    and k2: "\<And>g i. g \<in> H \<Longrightarrow> id_key b2b g \<noteq> script_field i \<and> id_key b2b g \<noteq> nonce_field i"
    using K by (auto simp: account_keys_ok_def)
  have k3: "script_field i \<noteq> id_key b2b g" "nonce_field i \<noteq> id_key b2b g" if "g \<in> H" for g i
    using k2 [OF that, of i] by auto
  have new: "vw_map v (id_key b2b h) = 0" and nov: "unat ?c + 1 < 2 ^ 32"
    and j: "j = ?c" and v': "v' = ?w\<lparr> vw_count := ?c + 1 \<rparr>"
    using run K h
    by (auto simp: create_account_view account_keys_ok_def Let_def checked_add_def
        split: if_splits option.splits)
  have lt: "i < ?c + 1 \<longleftrightarrow> i < ?c \<or> i = ?c" for i using nov by (intro word_less_Suc) simp
  have old: "vw_map v (script_field i) \<in> H" "vw_map v (script_field i) \<noteq> h"
    "vw_map v (id_key b2b (vw_map v (script_field i))) = id_value i" if "i < ?c" for i
    using A that new by (auto simp: accounts_ok_def)
  have idk: "id_key b2b g = id_key b2b h \<longleftrightarrow> g = h" if "g \<in> H" for g
    using k1 that h by (auto simp: inj_on_def)
  have m: "vw_map v' (script_field i) = (if i = ?c then h else vw_map v (script_field i))"
    "g \<in> H \<Longrightarrow> vw_map v' (id_key b2b g) = (if g = h then id_value ?c else vw_map v (id_key b2b g))"
    "vw_map v' (nonce_field ?c) = 0" for i g
    using h k2 k3 by (auto simp: v' idk)
  have "account_keys_ok b2b H v'" using K by (simp add: account_keys_ok_def v')
  moreover have "vw_map v' (script_field i) \<in> H \<and>
      vw_map v' (id_key b2b (vw_map v' (script_field i))) = id_value i" if "i < ?c + 1" for i
    using that old [of i] h by (auto simp: lt m)
  moreover have "\<exists>i < ?c + 1. vw_map v' (id_key b2b g) = id_value i \<and> vw_map v' (script_field i) = g"
    if g: "g \<in> H" and nz: "vw_map v' (id_key b2b g) \<noteq> 0" for g
  proof (cases "g = h")
    case False
    then obtain i where "i < ?c" "vw_map v (id_key b2b g) = id_value i" "vw_map v (script_field i) = g"
      using A g nz by (auto simp: accounts_ok_def m)
    then show ?thesis using False g by (intro exI [of _ i]) (auto simp: lt m)
  qed (use g in \<open>auto simp: lt m\<close>)
  ultimately have "accounts_ok b2b H v'" by (simp add: accounts_ok_def v')
  then show ?thesis using j h m by (simp add: v')
qed

section \<open>Registry\<close>

definition reg_addr_key :: "hasher \<Rightarrow> h256 \<Rightarrow> h256" where
  "reg_addr_key b2b h = build_account_key b2b ETH_REGISTRY_ACCOUNT_ID
     (build_script_hash_to_registry_address_key h)"

definition reg_hash_key :: "hasher \<Rightarrow> registry_address \<Rightarrow> h256" where
  "reg_hash_key b2b a = build_account_key b2b ETH_REGISTRY_ACCOUNT_ID
     (REGISTRY_KEY_PREFIX @ [REGISTRY_KEY_FLAG_NATIVE_TO_SCRIPT_HASH] @ ra_encoding a)"

definition eth_address :: "registry_address \<Rightarrow> bool" where
  "eth_address a \<longleftrightarrow> length (ra_address a) = 20 \<and> ra_registry_id a = ETH_REGISTRY_ACCOUNT_ID"

definition reg_value :: "registry_address \<Rightarrow> h256" where
  "reg_value a = h256_of_bytes (ra_encoding a @ replicate 4 0)"

lemma eth_address_fits: "eth_address a \<Longrightarrow> ra_fits a \<and> ra_len a = 28"
  by (simp add: eth_address_def ra_fits_def ra_len_def)

lemma from_slice_reg_value [simp]: "eth_address a \<Longrightarrow> from_slice (as_slice (reg_value a)) = Some a"
  using eth_address_fits [of a]
  by (simp add: reg_value_def as_slice_of_bytes from_slice_encoding)

lemma reg_value_nonzero [simp]:
  assumes "eth_address a" shows "reg_value a \<noteq> 0"
proof
  assume "reg_value a = 0"
  then have "from_slice (as_slice 0) = Some a" using from_slice_reg_value [OF assms] by simp
  moreover have "as_slice 0 = replicate 32 0"
    by (rule nth_equalityI) (simp_all add: as_slice_def)
  then have "from_slice (as_slice 0) = Some \<lparr> ra_registry_id = 0, ra_address = [] \<rparr>"
    by (simp add: from_slice_def checked_add_def from_le_bytes_append_zeros [of "[]", simplified])
  ultimately show False using assms by (auto simp: eth_address_def)
qed

lemma get_value_view:
  "key \<noteq> [] \<Longrightarrow> vw_has v (build_account_key b2b i key) \<Longrightarrow>
     get_value (view_ops root) b2b i key v = (Ok (vw_map v (build_account_key b2b i key)), v)"
  by (simp add: get_value_def view_ops_run)

lemma update_value_view:
  "key \<noteq> [] \<Longrightarrow> vw_has v (build_account_key b2b i key) \<Longrightarrow>
     update_value (view_ops root) b2b i key x v = (Ok (), set_key (build_account_key b2b i key) x v)"
  by (simp add: update_value_def view_ops_run sbind_run)

lemma get_script_hash_by_registry_address_view:
  assumes "eth_address a" and "vw_has v (reg_hash_key b2b a)"
  shows "get_script_hash_by_registry_address (view_ops root) b2b a v =
    (Ok (if vw_map v (reg_hash_key b2b a) = 0 then None else Some (vw_map v (reg_hash_key b2b a))), v)"
  using assms eth_address_fits [OF assms(1)]
  by (simp add: get_script_hash_by_registry_address_def registry_address_key_eq sbind_run
      get_value_view eth_address_def reg_hash_key_def)

lemma get_registry_address_by_script_hash_view:
  assumes "vw_has v (reg_addr_key b2b h)"
  shows "get_registry_address_by_script_hash (view_ops root) b2b ETH_REGISTRY_ACCOUNT_ID h v = (
    if vw_map v (reg_addr_key b2b h) = 0 then (Ok None, v)
    else case from_slice (as_slice (vw_map v (reg_addr_key b2b h))) of
           None \<Rightarrow> (Panic, v) | Some a \<Rightarrow> (Ok (Some a), v))"
  using assms
  by (simp add: get_registry_address_by_script_hash_def sbind_run get_value_view reg_addr_key_def
      script_hash_key_eq REGISTRY_KEY_PREFIX_def split: option.splits)

text \<open>
  The registry over the script hashes \<open>H\<close> and the addresses \<open>A\<close> is a partial bijection: a
  recorded address decodes and maps back to its script hash, and conversely.
\<close>

definition registry_keys_ok :: "hasher \<Rightarrow> h256 set \<Rightarrow> registry_address set \<Rightarrow> view \<Rightarrow> bool" where
  "registry_keys_ok b2b H A v \<longleftrightarrow>
     inj_on (reg_addr_key b2b) H \<and> inj_on (reg_hash_key b2b) A \<and>
     (\<forall>h\<in>H. \<forall>a\<in>A. reg_addr_key b2b h \<noteq> reg_hash_key b2b a) \<and>
     (\<forall>h\<in>H. vw_has v (reg_addr_key b2b h)) \<and> (\<forall>a\<in>A. vw_has v (reg_hash_key b2b a))"

definition registry_ok :: "hasher \<Rightarrow> h256 set \<Rightarrow> registry_address set \<Rightarrow> view \<Rightarrow> bool" where
  "registry_ok b2b H A v \<longleftrightarrow> registry_keys_ok b2b H A v \<and>
     (\<forall>h\<in>H. vw_map v (reg_addr_key b2b h) \<noteq> 0 \<longrightarrow>
        h \<noteq> 0 \<and> (\<exists>a\<in>A. eth_address a \<and> vw_map v (reg_addr_key b2b h) = reg_value a \<and>
               vw_map v (reg_hash_key b2b a) = h)) \<and>
     (\<forall>a\<in>A. vw_map v (reg_hash_key b2b a) \<noteq> 0 \<longrightarrow>
        eth_address a \<and> vw_map v (reg_hash_key b2b a) \<in> H \<and>
        vw_map v (reg_addr_key b2b (vw_map v (reg_hash_key b2b a))) = reg_value a)"

lemma mapping_registry_view:
  assumes R: "registry_ok b2b H A v" and h: "h \<in> H" and a: "a \<in> A"
  shows "mapping_registry_address_to_script_hash (view_ops root) b2b a h v = (
    if \<not> eth_address a \<or> h = 0 then (Err InvalidArgs, v)
    else if vw_map v (reg_addr_key b2b h) \<noteq> 0 \<or> vw_map v (reg_hash_key b2b a) \<noteq> 0
      then (Err DuplicatedRegistryAddress, v)
    else (Ok (), set_key (reg_hash_key b2b a) h (set_key (reg_addr_key b2b h) (reg_value a) v)))"
proof (cases "eth_address a \<and> h \<noteq> 0")
  case False
  then show ?thesis
    by (auto simp: mapping_registry_address_to_script_hash_def eth_address_def)
next
  case True
  have has: "vw_has v (reg_addr_key b2b h)" "vw_has v (reg_hash_key b2b a)"
    using R h a by (auto simp: registry_ok_def registry_keys_ok_def)
  have id: "ra_registry_id a = ETH_REGISTRY_ACCOUNT_ID" "length (ra_address a) = 20"
    and fits: "ra_fits a" "ra_len a = 28"
    using True eth_address_fits by (auto simp: eth_address_def)
  have w: "write_to_slice a (replicate 32 0) = (Ok 28, ra_encoding a @ replicate 4 0)"
    using fits by (simp add: write_to_slice_ok)
  show ?thesis
  proof (cases "vw_map v (reg_addr_key b2b h) = 0")
    case zero: True
    then show ?thesis
      using True has id fits
      by (simp add: mapping_registry_address_to_script_hash_def sbind_run w
          get_registry_address_by_script_hash_view get_script_hash_by_registry_address_view
          registry_address_key_eq update_value_view script_hash_key_eq REGISTRY_KEY_PREFIX_def
          flip: reg_value_def)
        (simp add: reg_addr_key_def reg_hash_key_def script_hash_key_eq REGISTRY_KEY_PREFIX_def
          update_value_view sbind_run)
  next
    case False
    then obtain b where "eth_address b" "vw_map v (reg_addr_key b2b h) = reg_value b"
      using R h by (auto simp: registry_ok_def)
    then show ?thesis
      using True has id False
      by (simp add: mapping_registry_address_to_script_hash_def sbind_run
          get_registry_address_by_script_hash_view)
  qed
qed

lemma mapping_registry_ok:
  assumes R: "registry_ok b2b H A v" and h: "h \<in> H" and a: "a \<in> A"
    and run: "mapping_registry_address_to_script_hash (view_ops root) b2b a h v = (r, v')"
  shows "registry_ok b2b H A v'"
proof (cases "eth_address a \<and> h \<noteq> 0 \<and> vw_map v (reg_addr_key b2b h) = 0 \<and>
    vw_map v (reg_hash_key b2b a) = 0")
  case False
  then have "v' = v" using run by (auto simp: mapping_registry_view [OF R h a] split: if_splits)
  with R show ?thesis by simp
next
  case True
  then have v': "v' = set_key (reg_hash_key b2b a) h (set_key (reg_addr_key b2b h) (reg_value a) v)"
    using run by (simp add: mapping_registry_view [OF R h a])
  have K: "registry_keys_ok b2b H A v" using R by (simp add: registry_ok_def)
  then have ne: "reg_addr_key b2b g \<noteq> reg_hash_key b2b b"
    and i1: "reg_addr_key b2b g = reg_addr_key b2b h \<longleftrightarrow> g = h"
    and i2: "reg_hash_key b2b b = reg_hash_key b2b a \<longleftrightarrow> b = a" if "g \<in> H" "b \<in> A" for g b
    using that h a by (auto simp: registry_keys_ok_def inj_on_def)
  have ne': "reg_hash_key b2b b \<noteq> reg_addr_key b2b g" if "g \<in> H" "b \<in> A" for g b
    using ne [OF that] by simp
  have m1: "vw_map v' (reg_addr_key b2b g) = (if g = h then reg_value a else vw_map v (reg_addr_key b2b g))"
    if "g \<in> H" for g using that a ne ne' i1 by (auto simp: v')
  have m2: "vw_map v' (reg_hash_key b2b b) = (if b = a then h else vw_map v (reg_hash_key b2b b))"
    if "b \<in> A" for b using that h ne ne' i2 by (auto simp: v')
  have K': "registry_keys_ok b2b H A v'" using K by (simp add: registry_keys_ok_def v')
  have fwd: "g \<noteq> 0 \<and> (\<exists>b\<in>A. eth_address b \<and> vw_map v' (reg_addr_key b2b g) = reg_value b \<and>
      vw_map v' (reg_hash_key b2b b) = g)"
    if g: "g \<in> H" and nz: "vw_map v' (reg_addr_key b2b g) \<noteq> 0" for g
  proof (cases "g = h")
    case False
    then have "vw_map v (reg_addr_key b2b g) \<noteq> 0" using nz g by (simp add: m1)
    then obtain b where b: "b \<in> A" "eth_address b" "vw_map v (reg_addr_key b2b g) = reg_value b"
      "vw_map v (reg_hash_key b2b b) = g" "g \<noteq> 0"
      using R g by (auto simp: registry_ok_def)
    then have "b \<noteq> a" using True by auto
    then show ?thesis using b g False by (auto simp: m1 m2)
  qed (use g True a in \<open>auto simp: m1 m2\<close>)
  have bwd: "eth_address b \<and> vw_map v' (reg_hash_key b2b b) \<in> H \<and>
      vw_map v' (reg_addr_key b2b (vw_map v' (reg_hash_key b2b b))) = reg_value b"
    if "b \<in> A" "vw_map v' (reg_hash_key b2b b) \<noteq> 0" for b
  proof (cases "b = a")
    case False
    then have nz: "vw_map v (reg_hash_key b2b b) \<noteq> 0" using that m2 by simp
    then have o: "eth_address b" "vw_map v (reg_hash_key b2b b) \<in> H"
      "vw_map v (reg_addr_key b2b (vw_map v (reg_hash_key b2b b))) = reg_value b"
      using R that(1) by (auto simp: registry_ok_def)
    moreover have "vw_map v (reg_hash_key b2b b) \<noteq> h" using o True by auto
    ultimately show ?thesis using that(1) False by (simp add: m1 m2)
  qed (use that h True in \<open>simp add: m1 m2\<close>)
  show ?thesis using K' fwd bwd by (simp add: registry_ok_def)
qed

end
