(* ===== verification/Gw_Rollup_State.thy ===== *)
theory Gw_Rollup_State
  imports Gw_Ledger
begin

text \<open>
  The invariant of the whole account state: all ledgers, the account table and the registry are
  sound at once, and the script of every account is stored. Each key the code builds is the
  image of an abstract key; that the images do not collide is the one hypothesis about blake2b.
\<close>

section \<open>Abstract keys\<close>

datatype akey =
    KBal u32 registry_address
  | KSup u32
  | KScript u32
  | KNonce u32
  | KId h256
  | KRegAddr h256
  | KRegHash registry_address

fun raw_key :: "hasher \<Rightarrow> akey \<Rightarrow> h256" where
  "raw_key b2b (KBal i a) = bal_key b2b i a"
| "raw_key b2b (KSup i) = sup_key b2b i"
| "raw_key b2b (KScript i) = script_field i"
| "raw_key b2b (KNonce i) = nonce_field i"
| "raw_key b2b (KId h) = id_key b2b h"
| "raw_key b2b (KRegAddr h) = reg_addr_key b2b h"
| "raw_key b2b (KRegHash a) = reg_hash_key b2b a"

text \<open>The keys in use when the script hashes are \<open>H\<close> and the addresses \<open>A\<close>.\<close>

fun in_use :: "registry_address set \<Rightarrow> h256 set \<Rightarrow> akey \<Rightarrow> bool" where
  "in_use A H (KBal i a) = (a \<in> A)"
| "in_use A H (KId h) = (h \<in> H)"
| "in_use A H (KRegAddr h) = (h \<in> H)"
| "in_use A H (KRegHash a) = (a \<in> A)"
| "in_use A H _ = True"

definition no_collision :: "hasher \<Rightarrow> registry_address set \<Rightarrow> h256 set \<Rightarrow> bool" where
  "no_collision b2b A H \<longleftrightarrow> finite A \<and> (\<forall>a\<in>A. ra_fits a) \<and>
     (\<forall>k k'. in_use A H k \<longrightarrow> in_use A H k' \<longrightarrow> raw_key b2b k = raw_key b2b k' \<longrightarrow> k = k')"

lemma raw_key_eq:
  assumes "no_collision b2b A H" and "in_use A H k" and "in_use A H k'"
  shows "raw_key b2b k = raw_key b2b k' \<longleftrightarrow> k = k'"
  using assms by (auto simp: no_collision_def)

text \<open>Which pairs of concrete keys differ, in the forms the operations use.\<close>

lemma keys_differ:
  assumes nc: "no_collision b2b A H"
  shows "a \<in> A \<Longrightarrow> c \<in> A \<Longrightarrow> bal_key b2b i a = bal_key b2b j c \<longleftrightarrow> i = j \<and> a = c"
    and "a \<in> A \<Longrightarrow> bal_key b2b i a \<noteq> sup_key b2b j"
    and "sup_key b2b i = sup_key b2b j \<longleftrightarrow> i = j"
    and "a \<in> A \<Longrightarrow> bal_key b2b i a \<noteq> script_field j" and "a \<in> A \<Longrightarrow> bal_key b2b i a \<noteq> nonce_field j"
    and "a \<in> A \<Longrightarrow> h \<in> H \<Longrightarrow> bal_key b2b i a \<noteq> id_key b2b h"
    and "a \<in> A \<Longrightarrow> h \<in> H \<Longrightarrow> bal_key b2b i a \<noteq> reg_addr_key b2b h"
    and "a \<in> A \<Longrightarrow> c \<in> A \<Longrightarrow> bal_key b2b i a \<noteq> reg_hash_key b2b c"
    and "sup_key b2b i \<noteq> script_field j" and "sup_key b2b i \<noteq> nonce_field j"
    and "h \<in> H \<Longrightarrow> sup_key b2b i \<noteq> id_key b2b h"
    and "h \<in> H \<Longrightarrow> sup_key b2b i \<noteq> reg_addr_key b2b h"
    and "a \<in> A \<Longrightarrow> sup_key b2b i \<noteq> reg_hash_key b2b a"
  using raw_key_eq [OF nc, of "KBal i a" "KBal j c"] raw_key_eq [OF nc, of "KBal i a" "KSup j"]
    raw_key_eq [OF nc, of "KSup i" "KSup j"] raw_key_eq [OF nc, of "KBal i a" "KScript j"]
    raw_key_eq [OF nc, of "KBal i a" "KNonce j"] raw_key_eq [OF nc, of "KBal i a" "KId h"]
    raw_key_eq [OF nc, of "KBal i a" "KRegAddr h"] raw_key_eq [OF nc, of "KBal i a" "KRegHash c"]
    raw_key_eq [OF nc, of "KSup i" "KScript j"] raw_key_eq [OF nc, of "KSup i" "KNonce j"]
    raw_key_eq [OF nc, of "KSup i" "KId h"] raw_key_eq [OF nc, of "KSup i" "KRegAddr h"]
    raw_key_eq [OF nc, of "KSup i" "KRegHash a"]
  by simp_all

lemma table_keys_differ:
  assumes nc: "no_collision b2b A H"
  shows "g \<in> H \<Longrightarrow> h \<in> H \<Longrightarrow> id_key b2b g = id_key b2b h \<longleftrightarrow> g = h"
    and "h \<in> H \<Longrightarrow> id_key b2b h \<noteq> script_field i" and "h \<in> H \<Longrightarrow> id_key b2b h \<noteq> nonce_field i"
    and "g \<in> H \<Longrightarrow> h \<in> H \<Longrightarrow> id_key b2b h \<noteq> reg_addr_key b2b g"
    and "h \<in> H \<Longrightarrow> a \<in> A \<Longrightarrow> id_key b2b h \<noteq> reg_hash_key b2b a"
    and "g \<in> H \<Longrightarrow> h \<in> H \<Longrightarrow> reg_addr_key b2b g = reg_addr_key b2b h \<longleftrightarrow> g = h"
    and "a \<in> A \<Longrightarrow> c \<in> A \<Longrightarrow> reg_hash_key b2b a = reg_hash_key b2b c \<longleftrightarrow> a = c"
    and "h \<in> H \<Longrightarrow> a \<in> A \<Longrightarrow> reg_addr_key b2b h \<noteq> reg_hash_key b2b a"
    and "h \<in> H \<Longrightarrow> reg_addr_key b2b h \<noteq> script_field i"
    and "h \<in> H \<Longrightarrow> reg_addr_key b2b h \<noteq> nonce_field i"
    and "a \<in> A \<Longrightarrow> reg_hash_key b2b a \<noteq> script_field i"
    and "a \<in> A \<Longrightarrow> reg_hash_key b2b a \<noteq> nonce_field i"
  using raw_key_eq [OF nc, of "KId g" "KId h"] raw_key_eq [OF nc, of "KId h" "KScript i"]
    raw_key_eq [OF nc, of "KId h" "KNonce i"] raw_key_eq [OF nc, of "KId h" "KRegAddr g"]
    raw_key_eq [OF nc, of "KId h" "KRegHash a"] raw_key_eq [OF nc, of "KRegAddr g" "KRegAddr h"]
    raw_key_eq [OF nc, of "KRegHash a" "KRegHash c"] raw_key_eq [OF nc, of "KRegAddr h" "KRegHash a"]
    raw_key_eq [OF nc, of "KRegAddr h" "KScript i"] raw_key_eq [OF nc, of "KRegAddr h" "KNonce i"]
    raw_key_eq [OF nc, of "KRegHash a" "KScript i"] raw_key_eq [OF nc, of "KRegHash a" "KNonce i"]
  by simp_all

section \<open>The invariant\<close>

definition scripts_ok :: "view \<Rightarrow> bool" where
  "scripts_ok v \<longleftrightarrow> (\<forall>i < vw_count v. vw_scripts v (vw_map v (script_field i)) \<noteq> None)"

definition state_ok :: "hasher \<Rightarrow> registry_address set \<Rightarrow> h256 set \<Rightarrow> view \<Rightarrow> bool" where
  "state_ok b2b A H v \<longleftrightarrow> no_collision b2b A H \<and> vw_has v = (\<lambda>_. True) \<and>
     (\<forall>i. holdings b2b i A v = tot_supply b2b i v) \<and>
     accounts_ok b2b H v \<and> registry_ok b2b H A v \<and> scripts_ok v"

lemma keys_ok_no_collision:
  "no_collision b2b A H \<Longrightarrow> vw_has v = (\<lambda>_. True) \<Longrightarrow> keys_ok b2b i A v"
  using keys_differ(1,2) [of b2b A H]
  by (auto simp: keys_ok_def inj_on_def) (simp add: no_collision_def)+

lemma state_ok_ledger: "state_ok b2b A H v \<Longrightarrow> ledger_ok b2b i A v"
  using keys_ok_no_collision by (auto simp: state_ok_def ledger_ok_def)

lemma state_okD:
  assumes "state_ok b2b A H v"
  shows "no_collision b2b A H" "vw_has v = (\<lambda>_. True)" "accounts_ok b2b H v" "registry_ok b2b H A v"
    "scripts_ok v" "finite A" "a \<in> A \<Longrightarrow> ra_fits a"
  using assms by (auto simp: state_ok_def no_collision_def)

text \<open>The tables only depend on their own keys.\<close>

lemma accounts_ok_frame:
  assumes "accounts_ok b2b H v" and "vw_count v' = vw_count v" and "vw_has v' = vw_has v"
    and "\<And>i. vw_map v' (script_field i) = vw_map v (script_field i)"
    and "\<And>h. h \<in> H \<Longrightarrow> vw_map v' (id_key b2b h) = vw_map v (id_key b2b h)"
  shows "accounts_ok b2b H v'"
  using assms by (simp add: accounts_ok_def account_keys_ok_def)

lemma registry_ok_frame:
  assumes "registry_ok b2b H A v" and "vw_has v' = vw_has v"
    and "\<And>h. h \<in> H \<Longrightarrow> vw_map v' (reg_addr_key b2b h) = vw_map v (reg_addr_key b2b h)"
    and "\<And>a. a \<in> A \<Longrightarrow> vw_map v' (reg_hash_key b2b a) = vw_map v (reg_hash_key b2b a)"
  shows "registry_ok b2b H A v'"
  using assms by (simp add: registry_ok_def registry_keys_ok_def)

lemma holdings_frame:
  assumes "\<And>a. a \<in> A \<Longrightarrow> vw_map v' (bal_key b2b i a) = vw_map v (bal_key b2b i a)"
  shows "holdings b2b i A v' = holdings b2b i A v"
  using assms by (simp add: holdings_def)

text \<open>What an operation on the token \<open>i\<close> leaves alone.\<close>

definition token_frame ::
  "hasher \<Rightarrow> registry_address set \<Rightarrow> h256 set \<Rightarrow> u32 \<Rightarrow> view \<Rightarrow> view \<Rightarrow> bool" where
  "token_frame b2b A H i v v' \<longleftrightarrow> vw_count v' = vw_count v \<and> vw_has v' = vw_has v \<and>
     vw_scripts v' = vw_scripts v \<and> vw_data v' = vw_data v \<and>
     (\<forall>k. in_use A H k \<longrightarrow> (\<forall>a. k \<noteq> KBal i a) \<longrightarrow> k \<noteq> KSup i \<longrightarrow>
        vw_map v' (raw_key b2b k) = vw_map v (raw_key b2b k))"

lemma token_frame_write:
  assumes nc: "no_collision b2b A H" and a: "a \<in> A"
  shows "token_frame b2b A H i v (set_key (sup_key b2b i) y (set_key (bal_key b2b i a) x v))"
    and "token_frame b2b A H i v (set_key (bal_key b2b i a) x v)"
proof -
  have "raw_key b2b k \<noteq> bal_key b2b i a" "raw_key b2b k \<noteq> sup_key b2b i"
    if "in_use A H k" "\<forall>a. k \<noteq> KBal i a" "k \<noteq> KSup i" for k
    using raw_key_eq [OF nc that(1), of "KBal i a"] raw_key_eq [OF nc that(1), of "KSup i"] that a
    by simp_all
  then show "token_frame b2b A H i v (set_key (sup_key b2b i) y (set_key (bal_key b2b i a) x v))"
    "token_frame b2b A H i v (set_key (bal_key b2b i a) x v)"
    by (simp_all add: token_frame_def)
qed

lemma token_frameD:
  assumes "token_frame b2b A H i v v'"
  shows "j \<noteq> i \<Longrightarrow> a \<in> A \<Longrightarrow> vw_map v' (bal_key b2b j a) = vw_map v (bal_key b2b j a)"
    and "j \<noteq> i \<Longrightarrow> vw_map v' (sup_key b2b j) = vw_map v (sup_key b2b j)"
    and "vw_map v' (script_field j) = vw_map v (script_field j)"
    and "vw_map v' (nonce_field j) = vw_map v (nonce_field j)"
    and "h \<in> H \<Longrightarrow> vw_map v' (id_key b2b h) = vw_map v (id_key b2b h)"
    and "h \<in> H \<Longrightarrow> vw_map v' (reg_addr_key b2b h) = vw_map v (reg_addr_key b2b h)"
    and "a \<in> A \<Longrightarrow> vw_map v' (reg_hash_key b2b a) = vw_map v (reg_hash_key b2b a)"
    and "vw_count v' = vw_count v" and "vw_has v' = vw_has v" and "vw_scripts v' = vw_scripts v"
proof -
  have f: "vw_map v' (raw_key b2b k) = vw_map v (raw_key b2b k)"
    if "in_use A H k" "\<forall>a. k \<noteq> KBal i a" "k \<noteq> KSup i" for k
    using assms that by (simp add: token_frame_def)
  show "j \<noteq> i \<Longrightarrow> a \<in> A \<Longrightarrow> vw_map v' (bal_key b2b j a) = vw_map v (bal_key b2b j a)"
    using f [of "KBal j a"] by simp
  show "j \<noteq> i \<Longrightarrow> vw_map v' (sup_key b2b j) = vw_map v (sup_key b2b j)" using f [of "KSup j"] by simp
  show "vw_map v' (script_field j) = vw_map v (script_field j)" using f [of "KScript j"] by simp
  show "vw_map v' (nonce_field j) = vw_map v (nonce_field j)" using f [of "KNonce j"] by simp
  show "h \<in> H \<Longrightarrow> vw_map v' (id_key b2b h) = vw_map v (id_key b2b h)" using f [of "KId h"] by simp
  show "h \<in> H \<Longrightarrow> vw_map v' (reg_addr_key b2b h) = vw_map v (reg_addr_key b2b h)"
    using f [of "KRegAddr h"] by simp
  show "a \<in> A \<Longrightarrow> vw_map v' (reg_hash_key b2b a) = vw_map v (reg_hash_key b2b a)"
    using f [of "KRegHash a"] by simp
qed (use assms in \<open>simp_all add: token_frame_def\<close>)

lemma token_frame_state_ok:
  assumes S: "state_ok b2b A H v" and F: "token_frame b2b A H i v v'"
    and i: "holdings b2b i A v' = tot_supply b2b i v'"
  shows "state_ok b2b A H v'"
proof -
  note f = token_frameD [OF F]
  have "holdings b2b j A v' = tot_supply b2b j v'" for j
  proof (cases "j = i")
    case False
    then have "holdings b2b j A v' = holdings b2b j A v" "tot_supply b2b j v' = tot_supply b2b j v"
      using f(1,2) by (auto simp: tot_supply_def intro: holdings_frame)
    then show ?thesis using S by (simp add: state_ok_def)
  qed (use i in simp)
  moreover have "accounts_ok b2b H v'"
    by (rule accounts_ok_frame [OF state_okD(3) [OF S]]) (simp_all add: f)
  moreover have "registry_ok b2b H A v'"
    by (rule registry_ok_frame [OF state_okD(4) [OF S]]) (simp_all add: f)
  moreover have "scripts_ok v'" using state_okD(5) [OF S] by (simp add: scripts_ok_def f)
  ultimately show ?thesis using S by (simp add: state_ok_def f)
qed

lemma token_frame_trans:
  "token_frame b2b A H i u v \<Longrightarrow> token_frame b2b A H i v w \<Longrightarrow> token_frame b2b A H i u w"
  by (simp add: token_frame_def)

lemma token_frame_refl: "token_frame b2b A H i v v"
  by (simp add: token_frame_def)


section \<open>Every operation keeps the invariant\<close>

lemma burn_state_ok:
  assumes S: "state_ok b2b A H v" and a: "a \<in> A"
    and run: "burn_sudt (view_ops root) b2b i a n v = (r, v')"
  shows "state_ok b2b A H v'" and "token_frame b2b A H i v v'"
    and "n \<le> vw_map v (bal_key b2b i a) \<Longrightarrow> r = Ok () \<and> tot_supply b2b i v' + unat n = tot_supply b2b i v \<and>
      (\<forall>c\<in>A. vw_map v' (bal_key b2b i c) =
        (if c = a then vw_map v (bal_key b2b i a) - n else vw_map v (bal_key b2b i c)))"
    and "\<not> n \<le> vw_map v (bal_key b2b i a) \<Longrightarrow> r = Err AmountOverflow \<and> v' = v"
proof -
  let ?b = "bal_key b2b i a" and ?s = "sup_key b2b i"
  note nc = state_okD(1) [OF S]
  note L = state_ok_ledger [OF S, of i]
  note d = keys_differ(1,2) [OF nc]
  have v': "v' = (if n \<le> vw_map v ?b
      then set_key ?s (vw_map v ?s - n) (set_key ?b (vw_map v ?b - n) v) else v)"
    and r: "r = (if n \<le> vw_map v ?b then Ok () else Err AmountOverflow)"
    using run burn_sudt_ledger [OF L a, of root n] by (auto split: if_splits)
  have le: "unat n \<le> unat (vw_map v ?s)" if "n \<le> vw_map v ?b"
    using holding_le_supply [OF L a] that by (simp add: tot_supply_def word_le_nat_alt)
  show frame: "token_frame b2b A H i v v'"
    using token_frame_write(1) [OF nc a] by (simp add: v' token_frame_refl)
  have "ledger_ok b2b i A v'" by (rule burn_sudt_ledger_ok [OF L a run])
  then show "state_ok b2b A H v'"
    using token_frame_state_ok [OF S frame] by (simp add: ledger_ok_def)
  show "n \<le> vw_map v ?b \<Longrightarrow> r = Ok () \<and> tot_supply b2b i v' + unat n = tot_supply b2b i v \<and>
      (\<forall>c\<in>A. vw_map v' (bal_key b2b i c) =
        (if c = a then vw_map v ?b - n else vw_map v (bal_key b2b i c)))"
    using r le a d by (auto simp: v' tot_supply_def unat_sub word_le_nat_alt)
  show "\<not> n \<le> vw_map v ?b \<Longrightarrow> r = Err AmountOverflow \<and> v' = v" using r v' by simp
qed

lemma mint_state_ok:
  assumes S: "state_ok b2b A H v" and a: "a \<in> A"
    and room: "tot_supply b2b i v + unat n < 2 ^ 256"
  obtains v' where "mint_sudt (view_ops root) b2b i a n v = (Ok (), v')"
    and "state_ok b2b A H v'" and "token_frame b2b A H i v v'"
    and "tot_supply b2b i v' = tot_supply b2b i v + unat n"
    and "\<And>c. c \<in> A \<Longrightarrow> unat (vw_map v' (bal_key b2b i c)) =
      (if c = a then unat (vw_map v (bal_key b2b i a)) + unat n else unat (vw_map v (bal_key b2b i c)))"
proof -
  let ?b = "bal_key b2b i a" and ?s = "sup_key b2b i"
  note nc = state_okD(1) [OF S]
  note L = state_ok_ledger [OF S, of i]
  note d = keys_differ(1,2) [OF nc]
  let ?v' = "set_key ?s (vw_map v ?s + n) (set_key ?b (vw_map v ?b + n) v)"
  have run: "mint_sudt (view_ops root) b2b i a n v = (Ok (), ?v')" by (rule mint_sudt_ledger [OF L a room])
  note post = mint_sudt_ledger_ok [OF L a run]
  have frame: "token_frame b2b A H i v ?v'" by (rule token_frame_write(1) [OF nc a])
  have nov: "unat (vw_map v ?b + n) = unat (vw_map v ?b) + unat n"
    using holding_le_supply [OF L a] room by (simp add: unat_add_lem [THEN iffD1])
  show thesis
  proof (rule that [OF run _ frame])
    show "state_ok b2b A H ?v'"
      using token_frame_state_ok [OF S frame] post by (simp add: ledger_ok_def)
    show "tot_supply b2b i ?v' = tot_supply b2b i v + unat n" using post by simp
    show "unat (vw_map ?v' (bal_key b2b i c)) =
      (if c = a then unat (vw_map v ?b) + unat n else unat (vw_map v (bal_key b2b i c)))"
      if "c \<in> A" for c
      using that a d nov by auto
  qed
qed

text \<open>A mint that succeeds had room.\<close>

lemma mint_room:
  assumes S: "state_ok b2b A H v" and a: "a \<in> A"
    and run: "mint_sudt (view_ops root) b2b i a n v = (Ok u, v')"
  shows "tot_supply b2b i v + unat n < 2 ^ 256"
proof -
  note nc = state_okD(1) [OF S]
  have has: "vw_has v k" for k using state_okD(2) [OF S] by simp
  show ?thesis
    using run mint_sudt_view [of a v b2b i root n] state_okD(7) [OF S a] has keys_differ(2) [OF nc a]
    by (auto simp: checked_add_def tot_supply_def split: if_splits option.splits)
qed

lemma insert_script_state_ok:
  "state_ok b2b A H v \<Longrightarrow> state_ok b2b A H (v\<lparr> vw_scripts := (vw_scripts v)(h := Some sc) \<rparr>)"
  by (auto simp: state_ok_def accounts_ok_def account_keys_ok_def registry_ok_def registry_keys_ok_def
      scripts_ok_def holdings_def tot_supply_def)

lemma create_account_state_ok:
  assumes S: "state_ok b2b A H v" and h: "h \<in> H" and sc: "vw_scripts v h \<noteq> None"
    and run: "create_account (view_ops root) b2b h v = (Ok j, v')"
  shows "state_ok b2b A H v'" and "j = vw_count v" and "vw_count v' = vw_count v + 1"
    and "unat (vw_count v) + 1 < 2 ^ 32"
    and "\<And>i a. a \<in> A \<Longrightarrow> vw_map v' (bal_key b2b i a) = vw_map v (bal_key b2b i a)"
    and "\<And>i. vw_map v' (sup_key b2b i) = vw_map v (sup_key b2b i)"
    and "\<And>g. g \<in> H \<Longrightarrow> vw_map v' (reg_addr_key b2b g) = vw_map v (reg_addr_key b2b g)"
    and "\<And>a. a \<in> A \<Longrightarrow> vw_map v' (reg_hash_key b2b a) = vw_map v (reg_hash_key b2b a)"
    and "\<And>g. g \<in> H \<Longrightarrow> vw_map v' (id_key b2b g) = (if g = h then id_value j else vw_map v (id_key b2b g))"
    and "vw_scripts v' = vw_scripts v"
proof -
  note nc = state_okD(1) [OF S]
  note acc = create_account_accounts_ok [OF state_okD(3) [OF S] h run]
  let ?c = "vw_count v"
  have has: "vw_has v k" for k using state_okD(2) [OF S] by simp
  have v': "v' = (set_key (id_key b2b h) (id_value ?c) (set_key (script_field ?c) h
      (set_key (nonce_field ?c) 0 v)))\<lparr> vw_count := ?c + 1 \<rparr>" and nov: "unat ?c + 1 < 2 ^ 32"
    using run
    by (auto simp: create_account_view [OF has has has] Let_def checked_add_def
        split: if_splits option.splits)
  show j: "j = vw_count v" and "vw_count v' = vw_count v + 1" and "unat (vw_count v) + 1 < 2 ^ 32"
    using acc nov by blast+
  show bal: "vw_map v' (bal_key b2b i a) = vw_map v (bal_key b2b i a)" if "a \<in> A" for i a
    using keys_differ(4,5,6) [OF nc that] h by (simp add: v')
  show sup: "vw_map v' (sup_key b2b i) = vw_map v (sup_key b2b i)" for i
    using keys_differ(9,10,11) [OF nc] h by (simp add: v')
  show ra: "vw_map v' (reg_addr_key b2b g) = vw_map v (reg_addr_key b2b g)" if "g \<in> H" for g
    using table_keys_differ(4) [OF nc that h] table_keys_differ(9,10) [OF nc that] by (simp add: v')
  show rh: "vw_map v' (reg_hash_key b2b a) = vw_map v (reg_hash_key b2b a)" if "a \<in> A" for a
    using table_keys_differ(5) [OF nc h that] table_keys_differ(11,12) [OF nc that] by (simp add: v')
  show "vw_map v' (id_key b2b g) = (if g = h then id_value j else vw_map v (id_key b2b g))" if "g \<in> H" for g
    using table_keys_differ(1) [OF nc that h] table_keys_differ(2,3) [OF nc that] by (simp add: v' j)
  show scs: "vw_scripts v' = vw_scripts v" by (simp add: v')
  have "holdings b2b i A v' = tot_supply b2b i v'" for i
    using S holdings_frame [of A v' b2b i v] bal sup by (simp add: state_ok_def tot_supply_def)
  moreover have "registry_ok b2b H A v'"
    by (rule registry_ok_frame [OF state_okD(4) [OF S]]) (simp_all add: ra rh, simp add: v')
  moreover have "scripts_ok v'"
  proof -
    have "vw_map v' (script_field i) = (if i = ?c then h else vw_map v (script_field i))" for i
      using table_keys_differ(2) [OF nc h, of i, symmetric] by (simp add: v')
    moreover have "i < ?c + 1 \<longleftrightarrow> i < ?c \<or> i = ?c" for i using nov by (intro word_less_Suc) simp
    moreover have "vw_count v' = ?c + 1" by (simp add: v')
    ultimately show ?thesis
      using state_okD(5) [OF S] sc by (auto simp: scripts_ok_def scs)
  qed
  moreover have "accounts_ok b2b H v'" using acc by blast
  moreover have "vw_has v' = (\<lambda>_. True)" using state_okD(2) [OF S] by (simp add: v')
  ultimately show "state_ok b2b A H v'" using nc by (simp add: state_ok_def)
qed

lemma mapping_state_ok:
  assumes S: "state_ok b2b A H v" and h: "h \<in> H" and a: "a \<in> A"
    and run: "mapping_registry_address_to_script_hash (view_ops root) b2b a h v = (r, v')"
  shows "state_ok b2b A H v'" and "vw_count v' = vw_count v" and "vw_scripts v' = vw_scripts v"
    and "\<And>i c. c \<in> A \<Longrightarrow> vw_map v' (bal_key b2b i c) = vw_map v (bal_key b2b i c)"
    and "\<And>i. vw_map v' (sup_key b2b i) = vw_map v (sup_key b2b i)"
    and "\<And>g. g \<in> H \<Longrightarrow> vw_map v' (id_key b2b g) = vw_map v (id_key b2b g)"
    and "r \<noteq> Panic"
proof -
  note nc = state_okD(1) [OF S]
  note R = state_okD(4) [OF S]
  have cases: "v' = v \<or> v' = set_key (reg_hash_key b2b a) h (set_key (reg_addr_key b2b h) (reg_value a) v)"
    and np: "r \<noteq> Panic"
    using run mapping_registry_view [OF R h a, of root] by (auto split: if_splits)
  have ne: "k \<noteq> reg_hash_key b2b a \<Longrightarrow> k \<noteq> reg_addr_key b2b h \<Longrightarrow> vw_map v' k = vw_map v k" for k
    using cases by auto
  show cnt: "vw_count v' = vw_count v" and scs: "vw_scripts v' = vw_scripts v" using cases by auto
  show bal: "vw_map v' (bal_key b2b i c) = vw_map v (bal_key b2b i c)" if "c \<in> A" for i c
    using ne keys_differ(7,8) [OF nc that] h a by simp
  show sup: "vw_map v' (sup_key b2b i) = vw_map v (sup_key b2b i)" for i
    using ne keys_differ(12,13) [OF nc] h a by simp
  show idk: "vw_map v' (id_key b2b g) = vw_map v (id_key b2b g)" if "g \<in> H" for g
    using ne table_keys_differ(4) [OF nc h that] table_keys_differ(5) [OF nc that a] by simp
  have sf: "vw_map v' (script_field i) = vw_map v (script_field i)" for i
    using ne [of "script_field i"] table_keys_differ(9) [OF nc h, of i] table_keys_differ(11) [OF nc a, of i]
    by (metis)
  have has: "vw_has v' = vw_has v" using cases by auto
  have "holdings b2b i A v' = tot_supply b2b i v'" for i
    using S holdings_frame [of A v' b2b i v] bal sup by (simp add: state_ok_def tot_supply_def)
  moreover have "accounts_ok b2b H v'"
    by (rule accounts_ok_frame [OF state_okD(3) [OF S]]) (simp_all add: cnt has sf idk)
  moreover have "registry_ok b2b H A v'" by (rule mapping_registry_ok [OF R h a run])
  moreover have "scripts_ok v'" using state_okD(5) [OF S] by (simp add: scripts_ok_def cnt scs sf)
  ultimately show "state_ok b2b A H v'" using S by (simp add: state_ok_def has)
  show "r \<noteq> Panic" by (rule np)
qed

lemma set_nonce_state_ok:
  assumes S: "state_ok b2b A H v"
  shows "state_ok b2b A H (set_key (nonce_field i) x v)"
    and "a \<in> A \<Longrightarrow> vw_map (set_key (nonce_field i) x v) (bal_key b2b j a) = vw_map v (bal_key b2b j a)"
    and "vw_map (set_key (nonce_field i) x v) (sup_key b2b j) = vw_map v (sup_key b2b j)"
proof -
  let ?v = "set_key (nonce_field i) x v"
  note nc = state_okD(1) [OF S]
  show bal: "vw_map ?v (bal_key b2b j a) = vw_map v (bal_key b2b j a)" if "a \<in> A" for j a
    using keys_differ(5) [OF nc that] by simp
  show sup: "vw_map ?v (sup_key b2b j) = vw_map v (sup_key b2b j)" for j
    using keys_differ(10) [OF nc] by simp
  have "holdings b2b j A ?v = tot_supply b2b j ?v" for j
    using S holdings_frame [of A ?v b2b j v] bal sup by (simp add: state_ok_def tot_supply_def)
  moreover have "accounts_ok b2b H ?v"
    by (rule accounts_ok_frame [OF state_okD(3) [OF S]]) (simp_all add: table_keys_differ(3) [OF nc])
  moreover have "registry_ok b2b H A ?v"
    by (rule registry_ok_frame [OF state_okD(4) [OF S]])
      (simp_all add: table_keys_differ(10,12) [OF nc])
  moreover have "scripts_ok ?v" using state_okD(5) [OF S] by (simp add: scripts_ok_def)
  ultimately show "state_ok b2b A H ?v" using S by (simp add: state_ok_def)
qed

end
