(* ===== verification/Gw_StateDB.thy ===== *)
theory Gw_StateDB
  imports Gw_Ledger
begin

text \<open>
  The in-memory state database (\<open>crates/store/src/state/state_db.rs\<close>): a journal of dirty
  writes over an inner state, with snapshots, reverts and \<open>finalise\<close>.

  The theory shows that \<open>StateDB\<close> keeps the contract of \<open>State\<close> and \<open>CodeStore\<close> over every
  inner state that keeps it, that \<open>revert\<close> undoes exactly the writes made since the snapshot
  whatever snapshots and reverts came between, and that \<open>finalise\<close> moves the dirty state into
  the inner one without changing what is read.

  \<open>usize\<close> counters (revision ids, lengths) are natural numbers. A Rust \<open>HashMap\<close> iterates in
  an unspecified order: \<open>finalise\<close> takes the order as a parameter (\<open>hash_iter\<close>).
\<close>

section \<open>Journal, revisions and tracker\<close>

record log_item =
  li_account_id :: u32
  li_service_flag :: byte
  li_data :: bytes

datatype journal_entry =
    UpdateRaw h256 "h256 option"
  | SetAccountCount "u32 option"
  | InsertScript h256 bool
  | InsertData h256 bool
  | AppendLog nat

record revision =
  rev_id :: nat
  rev_journal_len :: nat

record state_tracker =
  tk_touched_keys :: "h256 set"
  tk_write_data :: "(h256, bytes) fmap"
  tk_read_data :: "(h256, bytes) fmap"

definition touch_key :: "h256 \<Rightarrow> state_tracker \<Rightarrow> state_tracker" where
  "touch_key k t = t\<lparr> tk_touched_keys := insert k (tk_touched_keys t) \<rparr>"

definition tracker_default :: state_tracker where
  "tracker_default = \<lparr> tk_touched_keys = {}, tk_write_data = fmempty, tk_read_data = fmempty \<rparr>"

record 's state_db =
  sd_state :: 's
  sd_journal :: "journal_entry list"
  sd_next_revision_id :: nat
  sd_revisions :: "revision list"
  sd_dirty_state :: "(h256, h256) fmap"
  sd_dirty_account_count :: "u32 option"
  sd_dirty_scripts :: "(h256, script) fmap"
  sd_dirty_data :: "(h256, bytes) fmap"
  sd_dirty_logs :: "log_item list"
  sd_state_tracker :: "state_tracker option"
  sd_last_state_root :: h256

text \<open>\<open>Journal::push\<close>, and an operation of the inner state run inside the database.\<close>

definition journal_push :: "journal_entry \<Rightarrow> 's state_db \<Rightarrow> 's state_db" where
  "journal_push e db = db\<lparr> sd_journal := sd_journal db @ [e] \<rparr>"

definition on_inner :: "('s, 'e, 'a) sm \<Rightarrow> ('s state_db, 'e, 'a) sm" where
  "on_inner m = (\<lambda>db. case m (sd_state db) of (r, s') \<Rightarrow> (r, db\<lparr> sd_state := s' \<rparr>))"

definition sdb_new :: "('s, 'x) code_state_ops_scheme \<Rightarrow> 's \<Rightarrow> ('e, 's state_db) outcome" where
  "sdb_new T s = (case st_calculate_root T s of
      (Ok last_state_root, s') \<Rightarrow> Ok \<lparr>
        sd_state = s', sd_journal = [], sd_next_revision_id = 0, sd_revisions = [],
        sd_dirty_state = fmempty, sd_dirty_account_count = None, sd_dirty_scripts = fmempty,
        sd_dirty_data = fmempty, sd_dirty_logs = [], sd_state_tracker = None,
        sd_last_state_root = last_state_root \<rparr>
    | _ \<Rightarrow> Panic)"

definition is_dirty :: "'s state_db \<Rightarrow> bool" where
  "is_dirty db \<longleftrightarrow> sd_journal db \<noteq> [] \<or> sd_revisions db \<noteq> [] \<or>
     sd_dirty_account_count db \<noteq> None \<or> sd_dirty_state db \<noteq> fmempty \<or>
     sd_dirty_scripts db \<noteq> fmempty \<or> sd_dirty_data db \<noteq> fmempty \<or> sd_dirty_logs db \<noteq> []"

definition clear_journal_and_dirty :: "'s state_db \<Rightarrow> 's state_db" where
  "clear_journal_and_dirty db = db\<lparr>
     sd_journal := [], sd_revisions := [], sd_dirty_account_count := None,
     sd_dirty_state := fmempty, sd_dirty_scripts := fmempty, sd_dirty_data := fmempty,
     sd_dirty_logs := [] \<rparr>"

section \<open>\<open>JournalDB\<close>\<close>

definition snapshot :: "'s state_db \<Rightarrow> nat \<times> 's state_db" where
  "snapshot db = (
     let rid = sd_next_revision_id db in
     (rid, db\<lparr> sd_next_revision_id := rid + 1,
               sd_revisions := sd_revisions db @
                 [\<lparr> rev_id = rid, rev_journal_len = length (sd_journal db) \<rparr>] \<rparr>))"

fun undo_entry :: "journal_entry \<Rightarrow> ('s state_db, common_error, unit) sm" where
  "undo_entry (UpdateRaw key prev_value) = modify (\<lambda>db. case prev_value of
       Some v \<Rightarrow> db\<lparr> sd_dirty_state := fmupd key v (sd_dirty_state db) \<rparr>
     | None \<Rightarrow> db\<lparr> sd_dirty_state := fmdrop key (sd_dirty_state db) \<rparr>)"
| "undo_entry (SetAccountCount prev_count) =
     modify (\<lambda>db. db\<lparr> sd_dirty_account_count := prev_count \<rparr>)"
| "undo_entry (InsertScript sh prev_exist) = modify (\<lambda>db.
     if \<not> prev_exist then db\<lparr> sd_dirty_scripts := fmdrop sh (sd_dirty_scripts db) \<rparr> else db)"
| "undo_entry (InsertData data_hash prev_exist) = modify (\<lambda>db.
     if \<not> prev_exist then db\<lparr> sd_dirty_data := fmdrop data_hash (sd_dirty_data db) \<rparr> else db)"
| "undo_entry (AppendLog index) = (\<lambda>db.
     if length (sd_dirty_logs db) \<noteq> index + 1 then (Panic, db)
     else (Ok (), db\<lparr> sd_dirty_logs := butlast (sd_dirty_logs db) \<rparr>))"

definition revert :: "nat \<Rightarrow> ('s state_db, common_error, unit) sm" where
  "revert rid = (\<lambda>db.
     case binary_search_by_key rid rev_id (sd_revisions db) of
       Ok rev_index \<Rightarrow>
         let len = rev_journal_len (sd_revisions db ! rev_index) in
         if length (sd_journal db) < len then (Panic, db)
         else let revert_entries = drop len (sd_journal db);
                  db = db\<lparr> sd_journal := take len (sd_journal db) \<rparr>
              in sbind (sfor (rev revert_entries) undo_entry)
                   (\<lambda>_. modify (\<lambda>db. db\<lparr> sd_revisions := take rev_index (sd_revisions db) \<rparr>)) db
     | _ \<Rightarrow> (Err Store, db))"

definition append_log :: "log_item \<Rightarrow> 's state_db \<Rightarrow> 's state_db" where
  "append_log l db = (
     let db = journal_push (AppendLog (length (sd_dirty_logs db))) db
     in db\<lparr> sd_dirty_logs := sd_dirty_logs db @ [l] \<rparr>)"

definition set_state_tracker :: "state_tracker \<Rightarrow> 's state_db \<Rightarrow> 's state_db" where
  "set_state_tracker t db = db\<lparr> sd_state_tracker := Some t \<rparr>"

definition take_state_tracker :: "'s state_db \<Rightarrow> state_tracker option \<times> 's state_db" where
  "take_state_tracker db = (sd_state_tracker db, db\<lparr> sd_state_tracker := None \<rparr>)"

section \<open>\<open>State\<close> and \<open>CodeStore\<close>\<close>

definition tracker_touch :: "h256 \<Rightarrow> 's state_db \<Rightarrow> 's state_db" where
  "tracker_touch k db = db\<lparr> sd_state_tracker := map_option (touch_key k) (sd_state_tracker db) \<rparr>"

definition sdb_get_raw ::
  "('s, 'x) code_state_ops_scheme \<Rightarrow> h256 \<Rightarrow> ('s state_db, common_error, h256) sm" where
  "sdb_get_raw T key = (\<lambda>db.
     let db = tracker_touch key db in
     case fmlookup (sd_dirty_state db) key of
       Some v \<Rightarrow> (Ok v, db)
     | None \<Rightarrow> on_inner (st_get_raw T key) db)"

definition sdb_update_raw :: "h256 \<Rightarrow> h256 \<Rightarrow> ('s state_db, common_error, unit) sm" where
  "sdb_update_raw key value = (\<lambda>db.
     let db = tracker_touch key db;
         db = journal_push (UpdateRaw key (fmlookup (sd_dirty_state db) key)) db
     in (Ok (), db\<lparr> sd_dirty_state := fmupd key value (sd_dirty_state db) \<rparr>))"

definition sdb_get_account_count ::
  "('s, 'x) code_state_ops_scheme \<Rightarrow> ('s state_db, common_error, u32) sm" where
  "sdb_get_account_count T = (\<lambda>db.
     case sd_dirty_account_count db of
       Some c \<Rightarrow> (Ok c, db)
     | None \<Rightarrow> on_inner (st_get_account_count T) db)"

definition sdb_set_account_count :: "u32 \<Rightarrow> ('s state_db, common_error, unit) sm" where
  "sdb_set_account_count c = (\<lambda>db.
     let db = journal_push (SetAccountCount (sd_dirty_account_count db)) db
     in (Ok (), db\<lparr> sd_dirty_account_count := Some c \<rparr>))"

definition sdb_calculate_root ::
  "('s, 'x) code_state_ops_scheme \<Rightarrow> ('s state_db, common_error, h256) sm" where
  "sdb_calculate_root T = (\<lambda>db.
     if is_dirty db then (Err Store, db) else on_inner (st_calculate_root T) db)"

definition sdb_insert_script :: "h256 \<Rightarrow> script \<Rightarrow> ('s state_db, common_error, unit) sm" where
  "sdb_insert_script sh sc = (\<lambda>db.
     let db = journal_push (InsertScript sh (fmlookup (sd_dirty_scripts db) sh \<noteq> None)) db
     in (Ok (), db\<lparr> sd_dirty_scripts := fmupd sh sc (sd_dirty_scripts db) \<rparr>))"

definition sdb_get_script ::
  "('s, 'x) code_state_ops_scheme \<Rightarrow> h256 \<Rightarrow> ('s state_db, common_error, script option) sm" where
  "sdb_get_script T sh = (\<lambda>db.
     case fmlookup (sd_dirty_scripts db) sh of
       Some sc \<Rightarrow> (Ok (Some sc), db)
     | None \<Rightarrow> on_inner (cs_get_script T sh) db)"

definition sdb_insert_data :: "h256 \<Rightarrow> bytes \<Rightarrow> ('s state_db, common_error, unit) sm" where
  "sdb_insert_data data_hash code = (\<lambda>db.
     let db = db\<lparr> sd_state_tracker := map_option
           (\<lambda>t. t\<lparr> tk_write_data := fmupd data_hash code (tk_write_data t) \<rparr>) (sd_state_tracker db) \<rparr>;
         db = journal_push (InsertData data_hash (fmlookup (sd_dirty_data db) data_hash \<noteq> None)) db
     in (Ok (), db\<lparr> sd_dirty_data := fmupd data_hash code (sd_dirty_data db) \<rparr>))"

definition sdb_get_data ::
  "('s, 'x) code_state_ops_scheme \<Rightarrow> h256 \<Rightarrow> ('s state_db, common_error, bytes option) sm" where
  "sdb_get_data T data_hash =
     sbind (\<lambda>db. case fmlookup (sd_dirty_data db) data_hash of
              Some d \<Rightarrow> (Ok (Some d), db)
            | None \<Rightarrow> on_inner (cs_get_data T data_hash) db) (\<lambda>data.
     sbind (modify (\<lambda>db. case data of
              None \<Rightarrow> db
            | Some d \<Rightarrow> db\<lparr> sd_state_tracker := map_option
                (\<lambda>t. t\<lparr> tk_read_data := fmupd data_hash d (tk_read_data t) \<rparr>)
                (sd_state_tracker db) \<rparr>)) (\<lambda>_. ret data))"

definition sdb_ops :: "('s, 'x) code_state_ops_scheme \<Rightarrow> 's state_db code_state_ops" where
  "sdb_ops T = \<lparr>
     st_get_raw = sdb_get_raw T,
     st_update_raw = sdb_update_raw,
     st_get_account_count = sdb_get_account_count T,
     st_set_account_count = sdb_set_account_count,
     st_calculate_root = sdb_calculate_root T,
     cs_insert_script = sdb_insert_script,
     cs_get_script = sdb_get_script T,
     cs_insert_data = sdb_insert_data,
     cs_get_data = sdb_get_data T \<rparr>"

record hash_iter =
  it_state :: "(h256 \<times> h256) list \<Rightarrow> (h256 \<times> h256) list"
  it_scripts :: "(h256 \<times> script) list \<Rightarrow> (h256 \<times> script) list"
  it_data :: "(h256 \<times> bytes) list \<Rightarrow> (h256 \<times> bytes) list"

definition finalise ::
  "('s, 'x) code_state_ops_scheme \<Rightarrow> hash_iter \<Rightarrow> ('s state_db, common_error, unit) sm" where
  "finalise T it = (\<lambda>db.
     if \<not> is_dirty db then (Ok (), db)
     else
       sbind (case sd_dirty_account_count db of
                Some c \<Rightarrow> on_inner (st_set_account_count T c) | None \<Rightarrow> ret ()) (\<lambda>_.
       sbind (sfor (it_state it (fm_rows (sd_dirty_state db)))
                (\<lambda>(k, v). on_inner (st_update_raw T k v))) (\<lambda>_.
       sbind (sfor (it_scripts it (fm_rows (sd_dirty_scripts db)))
                (\<lambda>(h, sc). on_inner (cs_insert_script T h sc))) (\<lambda>_.
       sbind (sfor (it_data it (fm_rows (sd_dirty_data db)))
                (\<lambda>(h, d). on_inner (cs_insert_data T h d))) (\<lambda>_.
       sbind (modify clear_journal_and_dirty) (\<lambda>_.
       sbind (sdb_calculate_root T) (\<lambda>root.
         modify (\<lambda>db. db\<lparr> sd_last_state_root := root \<rparr>))))))) db)"

text \<open>\<open>check_state\<close>: its assertions are panics.\<close>

definition check_account :: "('s, 'x) code_state_ops_scheme \<Rightarrow> u32 \<Rightarrow> ('s, common_error, unit) sm" where
  "check_account S i =
     sbind (get_script_hash S i) (\<lambda>sh.
       if sh = h256_zero then panic
       else sbind (cs_get_script S sh) (\<lambda>sc. if sc = None then panic else ret ()))"

definition check_state ::
  "('s, 'x) code_state_ops_scheme \<Rightarrow> ('s state_db, common_error, unit) sm" where
  "check_state T = (
     let S = sdb_ops T in
     sbind (st_get_account_count S) (\<lambda>c.
     sbind (get_script_hash S c) (\<lambda>non_exist.
       if non_exist \<noteq> h256_zero then panic
       else
         sbind (st_get_account_count S) (\<lambda>c.
         sbind (sfor (map of_nat [0 ..< min 100 (unat c)]) (check_account S)) (\<lambda>_.
         sbind (st_get_account_count S) (\<lambda>c.
         sbind (sfor (map of_nat [unat (saturating_sub c 100) ..< unat c]) (check_account S))
           (\<lambda>_. ret ())))))))"

section \<open>The database keeps the contract of its inner state\<close>

definition sdb_view :: "('s \<Rightarrow> view) \<Rightarrow> 's state_db \<Rightarrow> view" where
  "sdb_view view db = \<lparr>
     vw_map = (\<lambda>k. case fmlookup (sd_dirty_state db) k of
        Some v \<Rightarrow> v | None \<Rightarrow> vw_map (view (sd_state db)) k),
     vw_has = (\<lambda>_. True),
     vw_count = (case sd_dirty_account_count db of
        Some c \<Rightarrow> c | None \<Rightarrow> vw_count (view (sd_state db))),
     vw_scripts = (\<lambda>h. case fmlookup (sd_dirty_scripts db) h of
        Some sc \<Rightarrow> Some sc | None \<Rightarrow> vw_scripts (view (sd_state db)) h),
     vw_data = (\<lambda>h. case fmlookup (sd_dirty_data db) h of
        Some d \<Rightarrow> Some d | None \<Rightarrow> vw_data (view (sd_state db)) h) \<rparr>"

text \<open>The inner state must serve every key: an off-chain state does.\<close>

definition sdb_good :: "('s \<Rightarrow> bool) \<Rightarrow> ('s \<Rightarrow> view) \<Rightarrow> 's state_db \<Rightarrow> bool" where
  "sdb_good good view db \<longleftrightarrow> good (sd_state db) \<and> vw_has (view (sd_state db)) = (\<lambda>_. True)"

lemma on_inner_run: "m (sd_state db) = (r, s') \<Longrightarrow> on_inner m db = (r, db\<lparr> sd_state := s' \<rparr>)"
  by (simp add: on_inner_def)

lemma on_inner_prim [simp]: "on_inner (ret x) = ret x"
  by (rule ext) (simp add: on_inner_def ret_def)

lemma on_inner_sbind: "on_inner (sbind m f) = sbind (on_inner m) (\<lambda>x. on_inner (f x))"
  by (rule ext) (auto simp: on_inner_def sbind_def split: prod.splits outcome.splits)

lemma on_inner_sfor: "sfor xs (\<lambda>x. on_inner (f x)) = on_inner (sfor xs f)"
  by (induction xs) (simp_all add: on_inner_sbind del: sm_prim_simps)

lemmas sdb_defs = sdb_get_raw_def sdb_update_raw_def sdb_get_account_count_def
  sdb_set_account_count_def sdb_insert_script_def sdb_get_script_def sdb_insert_data_def
  sdb_get_data_def tracker_touch_def journal_push_def

context code_state_contract
begin

lemma inner_get_raw:
  "good s \<Longrightarrow> vw_has (view s) = (\<lambda>_. True) \<Longrightarrow>
     \<exists>s'. st_get_raw T k s = (Ok (vw_map (view s) k), s') \<and> good s' \<and> view s' = view s"
  using simulatesD [OF sim_get_raw, of s k] by (cases "st_get_raw T k s") (auto simp: view_ops_run)

lemma inner_get_account_count:
  "good s \<Longrightarrow> \<exists>s'. st_get_account_count T s = (Ok (vw_count (view s)), s') \<and> good s' \<and> view s' = view s"
  using simulatesD [OF sim_get_account_count, of s]
  by (cases "st_get_account_count T s") (auto simp: view_ops_run)

lemma inner_get_script:
  "good s \<Longrightarrow> \<exists>s'. cs_get_script T h s = (Ok (vw_scripts (view s) h), s') \<and> good s' \<and> view s' = view s"
  using simulatesD [OF sim_get_script, of s h]
  by (cases "cs_get_script T h s") (auto simp: view_ops_run)

lemma inner_get_data:
  "good s \<Longrightarrow> \<exists>s'. cs_get_data T h s = (Ok (vw_data (view s) h), s') \<and> good s' \<and> view s' = view s"
  using simulatesD [OF sim_get_data, of s h]
  by (cases "cs_get_data T h s") (auto simp: view_ops_run)

lemma sdb_sim_get_raw:
  "simulates (sdb_good good view) (sdb_view view) (sdb_get_raw T k) (st_get_raw (view_ops root) k)"
proof (rule simulatesI)
  fix db r db' assume g: "sdb_good good view db" and run: "sdb_get_raw T k db = (r, db')"
  from g obtain s' where "st_get_raw T k (sd_state db) = (Ok (vw_map (view (sd_state db)) k), s')"
    "good s'" "view s' = view (sd_state db)"
    using inner_get_raw by (auto simp: sdb_good_def)
  with g run show "sdb_good good view db' \<and>
      st_get_raw (view_ops root) k (sdb_view view db) = (r, sdb_view view db')"
    by (auto simp: sdb_defs Let_def on_inner_def view_ops_run sdb_view_def sdb_good_def
        split: option.splits)
qed

lemma sdb_sim_get_account_count:
  "simulates (sdb_good good view) (sdb_view view) (sdb_get_account_count T)
     (st_get_account_count (view_ops root))"
proof (rule simulatesI)
  fix db r db' assume g: "sdb_good good view db" and run: "sdb_get_account_count T db = (r, db')"
  from g obtain s' where "st_get_account_count T (sd_state db) = (Ok (vw_count (view (sd_state db))), s')"
    "good s'" "view s' = view (sd_state db)"
    using inner_get_account_count by (auto simp: sdb_good_def)
  with g run show "sdb_good good view db' \<and>
      st_get_account_count (view_ops root) (sdb_view view db) = (r, sdb_view view db')"
    by (auto simp: sdb_defs on_inner_def view_ops_run sdb_view_def sdb_good_def
        split: option.splits)
qed

lemma sdb_sim_get_script:
  "simulates (sdb_good good view) (sdb_view view) (sdb_get_script T h)
     (cs_get_script (view_ops root) h)"
proof (rule simulatesI)
  fix db r db' assume g: "sdb_good good view db" and run: "sdb_get_script T h db = (r, db')"
  from g obtain s' where "cs_get_script T h (sd_state db) = (Ok (vw_scripts (view (sd_state db)) h), s')"
    "good s'" "view s' = view (sd_state db)"
    using inner_get_script by (auto simp: sdb_good_def)
  with g run show "sdb_good good view db' \<and>
      cs_get_script (view_ops root) h (sdb_view view db) = (r, sdb_view view db')"
    by (auto simp: sdb_defs on_inner_def view_ops_run sdb_view_def sdb_good_def
        split: option.splits)
qed

lemma sdb_sim_get_data:
  "simulates (sdb_good good view) (sdb_view view) (sdb_get_data T h)
     (cs_get_data (view_ops root) h)"
proof (rule simulatesI)
  fix db r db' assume g: "sdb_good good view db" and run: "sdb_get_data T h db = (r, db')"
  from g obtain s' where "cs_get_data T h (sd_state db) = (Ok (vw_data (view (sd_state db)) h), s')"
    "good s'" "view s' = view (sd_state db)"
    using inner_get_data by (auto simp: sdb_good_def)
  with g run show "sdb_good good view db' \<and>
      cs_get_data (view_ops root) h (sdb_view view db) = (r, sdb_view view db')"
    by (auto simp: sdb_defs on_inner_def view_ops_run sdb_view_def sdb_good_def sbind_run
        split: option.splits)
qed

lemma sdb_sim_writes:
  "simulates (sdb_good good view) (sdb_view view) (sdb_update_raw k x)
     (st_update_raw (view_ops root) k x)"
  "simulates (sdb_good good view) (sdb_view view) (sdb_set_account_count c)
     (st_set_account_count (view_ops root) c)"
  "simulates (sdb_good good view) (sdb_view view) (sdb_insert_script h sc)
     (cs_insert_script (view_ops root) h sc)"
  "simulates (sdb_good good view) (sdb_view view) (sdb_insert_data h d)
     (cs_insert_data (view_ops root) h d)"
  by (rule simulatesI,
      force simp: sdb_defs Let_def view_ops_run set_key_def sdb_view_def sdb_good_def
        cong: option.case_cong)+

end

text \<open>A database over a lawful inner state, which is itself a lawful state.\<close>

locale state_db_over = inner: code_state_contract T view good root
  for T :: "('s, 'x) code_state_ops_scheme" and view good root

sublocale state_db_over \<subseteq> sdb: code_state_contract "sdb_ops T" "sdb_view view"
    "sdb_good good view" root
  by unfold_locales
    (simp_all add: sdb_ops_def inner.sdb_sim_get_raw inner.sdb_sim_get_account_count
      inner.sdb_sim_get_script inner.sdb_sim_get_data inner.sdb_sim_writes)

section \<open>Reverting to a snapshot\<close>

text \<open>The operations of the database, as a transaction issues them between two snapshots.\<close>

datatype db_op =
    OpGetRaw h256 | OpUpdateRaw h256 h256 | OpGetCount | OpSetCount u32
  | OpInsertScript h256 script | OpGetScript h256 | OpInsertData h256 bytes | OpGetData h256
  | OpAppendLog log_item | OpSetTracker state_tracker | OpTakeTracker
  | OpSnapshot | OpRevert nat

fun run_op :: "('s, 'x) code_state_ops_scheme \<Rightarrow> db_op \<Rightarrow> 's state_db \<Rightarrow> 's state_db" where
  "run_op T (OpGetRaw k) db = snd (sdb_get_raw T k db)"
| "run_op T (OpUpdateRaw k v) db = snd (sdb_update_raw k v db)"
| "run_op T OpGetCount db = snd (sdb_get_account_count T db)"
| "run_op T (OpSetCount c) db = snd (sdb_set_account_count c db)"
| "run_op T (OpInsertScript h sc) db = snd (sdb_insert_script h sc db)"
| "run_op T (OpGetScript h) db = snd (sdb_get_script T h db)"
| "run_op T (OpInsertData h d) db = snd (sdb_insert_data h d db)"
| "run_op T (OpGetData h) db = snd (sdb_get_data T h db)"
| "run_op T (OpAppendLog l) db = append_log l db"
| "run_op T (OpSetTracker t) db = set_state_tracker t db"
| "run_op T OpTakeTracker db = snd (take_state_tracker db)"
| "run_op T OpSnapshot db = snd (snapshot db)"
| "run_op T (OpRevert rid) db = snd (revert rid db)"

definition run_ops :: "('s, 'x) code_state_ops_scheme \<Rightarrow> db_op list \<Rightarrow> 's state_db \<Rightarrow> 's state_db" where
  "run_ops T ops db = fold (run_op T) ops db"

text \<open>Reads take \<open>&self\<close>: they leave the inner state alone.\<close>

definition reads_pure :: "('s, 'x) code_state_ops_scheme \<Rightarrow> bool" where
  "reads_pure T \<longleftrightarrow> (\<forall>s. snd (st_get_account_count T s) = s \<and>
     (\<forall>k. snd (st_get_raw T k s) = s \<and> snd (cs_get_script T k s) = s \<and> snd (cs_get_data T k s) = s))"

text \<open>
  Scripts and data are stored under their hash. The journal relies on it: it records that a
  key was present, not which value it had.
\<close>

definition content_addressed ::
  "(h256 \<Rightarrow> script) \<Rightarrow> (h256 \<Rightarrow> bytes) \<Rightarrow> 's state_db \<Rightarrow> bool" where
  "content_addressed sc dt db \<longleftrightarrow>
     (\<forall>h x. fmlookup (sd_dirty_scripts db) h = Some x \<longrightarrow> x = sc h) \<and>
     (\<forall>h x. fmlookup (sd_dirty_data db) h = Some x \<longrightarrow> x = dt h)"

fun op_ok :: "(h256 \<Rightarrow> script) \<Rightarrow> (h256 \<Rightarrow> bytes) \<Rightarrow> nat \<Rightarrow> db_op \<Rightarrow> bool" where
  "op_ok sc dt rid (OpInsertScript h x) = (x = sc h)"
| "op_ok sc dt rid (OpInsertData h x) = (x = dt h)"
| "op_ok sc dt rid (OpRevert r) = (rid < r)"
| "op_ok sc dt rid _ = True"

definition revisions_wf :: "'s state_db \<Rightarrow> bool" where
  "revisions_wf db \<longleftrightarrow> sorted_wrt (<) (map rev_id (sd_revisions db)) \<and>
     sorted_wrt (\<le>) (map rev_journal_len (sd_revisions db)) \<and>
     (\<forall>r\<in>set (sd_revisions db). rev_id r < sd_next_revision_id db \<and>
        rev_journal_len r \<le> length (sd_journal db))"

text \<open>What a revert is about: the dirty fields and the inner state.\<close>

definition core :: "'s state_db \<Rightarrow> 's state_db" where
  "core db = db\<lparr> sd_journal := [], sd_revisions := [], sd_next_revision_id := 0,
                 sd_state_tracker := None \<rparr>"

lemma undo_entry_core: "simulates (\<lambda>_. True) core (undo_entry e) (undo_entry e)"
  by (cases e) (auto simp: simulates_def core_def split: option.splits)

lemma undo_all_core: "simulates (\<lambda>_. True) core (sfor es undo_entry) (sfor es undo_entry)"
  by (intro sim_intros undo_entry_core)

lemma undo_entry_frame:
  "undo_entry e db = (r, db') \<Longrightarrow> sd_journal db' = sd_journal db \<and> sd_revisions db' = sd_revisions db \<and>
     sd_next_revision_id db' = sd_next_revision_id db \<and> sd_state_tracker db' = sd_state_tracker db"
  by (cases e) (auto split: option.splits if_splits)

lemma undo_all_frame:
  assumes "sfor es undo_entry db = (r, db')"
  shows "sd_journal db' = sd_journal db \<and> sd_revisions db' = sd_revisions db \<and>
     sd_next_revision_id db' = sd_next_revision_id db \<and> sd_state_tracker db' = sd_state_tracker db"
  using assms by (rule sfor_invariant [rotated 2]) (auto dest: undo_entry_frame)

text \<open>
  \<open>since db0 db\<close>: \<open>db\<close> evolved from \<open>db0\<close> through a snapshot, and the journal entries written
  since undo the dirty state of \<open>db\<close> to that of \<open>db0\<close>.
\<close>

definition since :: "'s state_db \<Rightarrow> 's state_db \<Rightarrow> bool" where
  "since db0 db \<longleftrightarrow> revisions_wf db \<and>
     (\<exists>new. sd_journal db = sd_journal db0 @ new \<and>
            sfor (rev new) undo_entry (core db) = (Ok (), core db0)) \<and>
     (\<exists>rest. sd_revisions db = sd_revisions db0 @
        \<lparr> rev_id = sd_next_revision_id db0, rev_journal_len = length (sd_journal db0) \<rparr> # rest)"

lemma since_push:
  assumes s: "since db0 db" and j: "sd_journal db' = sd_journal db @ [e]"
    and r: "sd_revisions db' = sd_revisions db" "sd_next_revision_id db' = sd_next_revision_id db"
    and u: "undo_entry e (core db') = (Ok (), core db)"
  shows "since db0 db'"
proof -
  from s obtain new where new: "sd_journal db = sd_journal db0 @ new"
    "sfor (rev new) undo_entry (core db) = (Ok (), core db0)" by (auto simp: since_def)
  then have "sfor (rev (new @ [e])) undo_entry (core db') = (Ok (), core db0)"
    using u by (simp add: sbind_def)
  moreover have "sd_journal db' = sd_journal db0 @ (new @ [e])" using j new by simp
  moreover have "revisions_wf db'" using s j r by (force simp: since_def revisions_wf_def)
  ultimately show ?thesis using s r by (auto simp: since_def)
qed

lemma since_same:
  assumes "since db0 db" and "core db' = core db" and "sd_journal db' = sd_journal db"
    and "sd_revisions db' = sd_revisions db" "sd_next_revision_id db' = sd_next_revision_id db"
  shows "since db0 db'"
  using assms by (simp add: since_def revisions_wf_def)

lemma since_snapshot:
  assumes "revisions_wf db"
  shows "since db (snd (snapshot db))"
  using assms
  by (auto simp: since_def snapshot_def Let_def revisions_wf_def sorted_wrt_append core_def)

lemma since_OpSnapshot: "since db0 db \<Longrightarrow> since db0 (snd (snapshot db))"
  by (auto simp: since_def snapshot_def Let_def revisions_wf_def sorted_wrt_append core_def)

lemma undo_all_transfer:
  assumes "sfor es undo_entry (core db) = (Ok (), c)" and "core db' = core db"
  shows "\<exists>db2. sfor es undo_entry db' = (Ok (), db2) \<and> core db2 = c"
proof -
  obtain r db2 where run: "sfor es undo_entry db' = (r, db2)" by fastforce
  from simulatesD [OF undo_all_core _ run] assms have "(r, core db2) = (Ok (), c)" by simp
  with run show ?thesis by simp
qed

text \<open>One step of a revert: the entries of the suffix are undone, the earlier ones remain.\<close>

lemma revert_run:
  assumes wf: "revisions_wf db" and i: "i < length (sd_revisions db)"
    and rid: "rev_id (sd_revisions db ! i) = rid"
    and undo: "sfor (rev (drop (rev_journal_len (sd_revisions db ! i)) (sd_journal db))) undo_entry
                 (core db) = (Ok (), c)"
  shows "\<exists>db'. revert rid db = (Ok (), db') \<and> core db' = c \<and>
    sd_journal db' = take (rev_journal_len (sd_revisions db ! i)) (sd_journal db) \<and>
    sd_revisions db' = take i (sd_revisions db) \<and>
    sd_next_revision_id db' = sd_next_revision_id db \<and> sd_state_tracker db' = sd_state_tracker db"
proof -
  let ?len = "rev_journal_len (sd_revisions db ! i)"
  let ?db1 = "db\<lparr> sd_journal := take ?len (sd_journal db) \<rparr>"
  have found: "binary_search_by_key rid rev_id (sd_revisions db) = Ok i"
    using wf i rid by (intro binary_search_by_key_found) (auto simp: revisions_wf_def)
  have len: "?len \<le> length (sd_journal db)" using wf i by (simp add: revisions_wf_def)
  have "core ?db1 = core db" by (simp add: core_def)
  with undo_all_transfer [OF undo] obtain db2 where
    db2: "sfor (rev (drop ?len (sd_journal db))) undo_entry ?db1 = (Ok (), db2)" "core db2 = c"
    by blast
  let ?db' = "db2\<lparr> sd_revisions := take i (sd_revisions db2) \<rparr>"
  have "revert rid db = (Ok (), ?db')"
    using len db2(1) by (simp add: revert_def found Let_def sbind_run)
  moreover have "core ?db' = c" using db2(2) by (auto simp: core_def)
  ultimately show ?thesis using undo_all_frame [OF db2(1)] by auto
qed

lemma revert_not_found:
  assumes "\<forall>r\<in>set (sd_revisions db). rev_id r \<noteq> rid"
  shows "revert rid db = (Err Store, db)"
proof -
  have "binary_search_by_key rid rev_id (sd_revisions db) \<noteq> Ok i" for i
    using binary_search_by_key_Ok [of rid rev_id "sd_revisions db" i] assms by fastforce
  then show ?thesis
    using binary_search_by_key_no_panic [of rid rev_id "sd_revisions db"]
    by (cases "binary_search_by_key rid rev_id (sd_revisions db)") (auto simp: revert_def)
qed

lemma since_revert:
  assumes s: "since db0 db" and later: "sd_next_revision_id db0 < rid"
  shows "since db0 (snd (revert rid db))"
proof (cases "\<exists>i < length (sd_revisions db). rev_id (sd_revisions db ! i) = rid")
  case False
  then have "revert rid db = (Err Store, db)"
    by (intro revert_not_found) (auto simp: in_set_conv_nth)
  with s show ?thesis by simp
next
  case True
  then obtain i where i: "i < length (sd_revisions db)" "rev_id (sd_revisions db ! i) = rid" by blast
  let ?R = "sd_revisions db" and ?J = "sd_journal db"
  let ?n = "length (sd_journal db0)" and ?k = "length (sd_revisions db0)"
  let ?len = "rev_journal_len (?R ! i)"
  from s obtain new rest where wf: "revisions_wf db" and new: "?J = sd_journal db0 @ new"
    "sfor (rev new) undo_entry (core db) = (Ok (), core db0)"
    and rest: "?R = sd_revisions db0 @
        \<lparr> rev_id = sd_next_revision_id db0, rev_journal_len = ?n \<rparr> # rest"
    by (auto simp: since_def)
  have ids: "sorted_wrt (<) (map rev_id ?R)" and lens: "sorted_wrt (\<le>) (map rev_journal_len ?R)"
    using wf by (auto simp: revisions_wf_def)
  have Rk: "?R ! ?k = \<lparr> rev_id = sd_next_revision_id db0, rev_journal_len = ?n \<rparr>"
    and k: "?k < length ?R" using rest by simp_all
  have ki: "?k < i"
  proof (rule ccontr)
    assume "\<not> ?k < i"
    then have "rev_id (?R ! i) \<le> rev_id (?R ! ?k)"
      using ids k by (cases "i = ?k") (auto simp: sorted_wrt_iff_nth_less less_imp_le)
    then show False using i later Rk by simp
  qed
  have nlen: "?n \<le> ?len"
    using sorted_wrt_nth_less [OF lens ki] i ki k Rk by simp
  have lenJ: "?len \<le> length ?J" using wf i by (simp add: revisions_wf_def)
  let ?n1 = "take (?len - ?n) new" and ?n2 = "drop (?len - ?n) new"
  have d: "drop ?len ?J = ?n2" and t: "take ?len ?J = sd_journal db0 @ ?n1"
    using new nlen by simp_all
  have "rev new = rev ?n2 @ rev ?n1" by (metis append_take_drop_id rev_append)
  with new(2) obtain c where c: "sfor (rev ?n2) undo_entry (core db) = (Ok (), c)"
    "sfor (rev ?n1) undo_entry c = (Ok (), core db0)"
    by (auto simp: sfor_append sbind_Ok_iff)
  with revert_run [OF wf i] d obtain db' where db': "revert rid db = (Ok (), db')" "core db' = c"
    "sd_journal db' = take ?len ?J" "sd_revisions db' = take i ?R"
    "sd_next_revision_id db' = sd_next_revision_id db" by metis
  have "rev_journal_len r \<le> ?len" if "r \<in> set (take i ?R)" for r
    using that lens i by (auto simp: in_set_conv_nth sorted_wrt_iff_nth_less)
  then have "revisions_wf db'"
    using wf db' lenJ i
    by (auto simp: revisions_wf_def take_map [symmetric] sorted_wrt_take dest: in_set_takeD)
  moreover have "take i ?R = sd_revisions db0 @
      \<lparr> rev_id = sd_next_revision_id db0, rev_journal_len = ?n \<rparr> # take (i - ?k - 1) rest"
    using ki by (simp add: rest take_Cons')
  ultimately show ?thesis using db' c t by (auto simp: since_def)
qed

lemma content_revert:
  assumes "content_addressed sc dt db"
  shows "content_addressed sc dt (snd (revert rid db))"
proof -
  have undo: "content_addressed sc dt d'"
    if "sfor es undo_entry d = (r, d')" "content_addressed sc dt d" for es d r d'
    using that(2) _ that(1)
  proof (rule sfor_invariant)
    fix e d r d' assume "content_addressed sc dt d" "undo_entry e d = (r, d')"
    then show "content_addressed sc dt d'"
      by (cases e) (auto simp: content_addressed_def split: option.splits if_splits)
  qed
  have upd: "content_addressed sc dt (d\<lparr> sd_journal := j \<rparr>) = content_addressed sc dt d"
    "content_addressed sc dt (d\<lparr> sd_revisions := rs \<rparr>) = content_addressed sc dt d"
    for d :: "'a state_db" and j rs by (simp_all add: content_addressed_def)
  show ?thesis
    using assms
    by (auto simp: revert_def Let_def sbind_def upd dest!: undo split: outcome.splits prod.splits)
qed

text \<open>A read only feeds the tracker; a write pushes the entry that undoes it.\<close>

lemma read_ops_frame:
  assumes "reads_pure T"
  shows "\<exists>t. snd (sdb_get_raw T k db) = db\<lparr> sd_state_tracker := t \<rparr>"
    and "\<exists>t. snd (sdb_get_account_count T db) = db\<lparr> sd_state_tracker := t \<rparr>"
    and "\<exists>t. snd (sdb_get_script T k db) = db\<lparr> sd_state_tracker := t \<rparr>"
    and "\<exists>t. snd (sdb_get_data T k db) = db\<lparr> sd_state_tracker := t \<rparr>"
proof -
  have pure: "snd (st_get_raw T k s) = s" "snd (st_get_account_count T s) = s"
    "snd (cs_get_script T k s) = s" "snd (cs_get_data T k s) = s" for s
    using assms by (simp_all add: reads_pure_def)
  have same: "\<exists>t. db = db\<lparr> sd_state_tracker := t \<rparr>" by (rule exI [of _ "sd_state_tracker db"]) simp
  show "\<exists>t. snd (sdb_get_raw T k db) = db\<lparr> sd_state_tracker := t \<rparr>"
    using pure(1) [of "sd_state db"]
    by (auto simp: sdb_defs Let_def on_inner_def split: option.splits prod.splits)
  show "\<exists>t. snd (sdb_get_account_count T db) = db\<lparr> sd_state_tracker := t \<rparr>"
    using pure(2) [of "sd_state db"] same
    by (auto simp: sdb_defs Let_def on_inner_def split: option.splits prod.splits)
  show "\<exists>t. snd (sdb_get_script T k db) = db\<lparr> sd_state_tracker := t \<rparr>"
    using pure(3) [of "sd_state db"] same
    by (auto simp: sdb_defs Let_def on_inner_def split: option.splits prod.splits)
  show "\<exists>t. snd (sdb_get_data T k db) = db\<lparr> sd_state_tracker := t \<rparr>"
  proof (cases "fmlookup (sd_dirty_data db) k")
    case None
    obtain r where r: "cs_get_data T k (sd_state db) = (r, sd_state db)"
      using pure(4) [of "sd_state db"] by (metis prod.collapse)
    show ?thesis
      using same None r by (cases r) (auto simp: sdb_defs on_inner_def sbind_run split: option.splits)
  qed (auto simp: sdb_defs sbind_run)
qed

lemma tracker_frame:
  assumes "since db0 db" and "content_addressed sc dt db"
  shows "since db0 (db\<lparr> sd_state_tracker := t \<rparr>) \<and>
    content_addressed sc dt (db\<lparr> sd_state_tracker := t \<rparr>)"
  using assms by (auto intro: since_same simp: content_addressed_def core_def)

lemma write_ops_since:
  assumes s: "since db0 db" and c: "content_addressed sc dt db"
  shows "since db0 (snd (sdb_update_raw k v db))"
    and "since db0 (snd (sdb_set_account_count n db))"
    and "since db0 (snd (sdb_insert_script h (sc h) db))"
    and "since db0 (snd (sdb_insert_data h (dt h) db))"
    and "since db0 (append_log l db)"
proof -
  show "since db0 (snd (sdb_update_raw k v db))"
    by (rule since_push [OF s, where e = "UpdateRaw k (fmlookup (sd_dirty_state db) k)"])
      (auto simp: sdb_defs Let_def core_def fmdrop_fmupd_fresh fmupd_idem split: option.splits)
  show "since db0 (snd (sdb_set_account_count n db))"
    by (rule since_push [OF s, where e = "SetAccountCount (sd_dirty_account_count db)"])
      (auto simp: sdb_defs Let_def core_def)
  show "since db0 (snd (sdb_insert_script h (sc h) db))"
    using c
    by (intro since_push [OF s, where e = "InsertScript h (fmlookup (sd_dirty_scripts db) h \<noteq> None)"])
      (auto simp: sdb_defs Let_def core_def fmdrop_fmupd_fresh fmupd_idem content_addressed_def)
  show "since db0 (snd (sdb_insert_data h (dt h) db))"
    using c
    by (intro since_push [OF s, where e = "InsertData h (fmlookup (sd_dirty_data db) h \<noteq> None)"])
      (auto simp: sdb_defs Let_def core_def fmdrop_fmupd_fresh fmupd_idem content_addressed_def)
  show "since db0 (append_log l db)"
    by (rule since_push [OF s, where e = "AppendLog (length (sd_dirty_logs db))"])
      (auto simp: append_log_def journal_push_def Let_def core_def)
qed

lemma write_ops_content:
  assumes "content_addressed sc dt db"
  shows "content_addressed sc dt (snd (sdb_update_raw k v db))"
    and "content_addressed sc dt (snd (sdb_set_account_count n db))"
    and "content_addressed sc dt (snd (sdb_insert_script h (sc h) db))"
    and "content_addressed sc dt (snd (sdb_insert_data h (dt h) db))"
    and "content_addressed sc dt (append_log l db)"
    and "content_addressed sc dt (snd (snapshot db))"
  using assms
  by (auto simp: sdb_defs Let_def content_addressed_def append_log_def snapshot_def split: if_splits)

lemma run_op_since:
  assumes T: "reads_pure T" and s: "since db0 db" and c: "content_addressed sc dt db"
    and ok: "op_ok sc dt (sd_next_revision_id db0) op"
  shows "since db0 (run_op T op db) \<and> content_addressed sc dt (run_op T op db)"
  using ok
proof (cases op)
  case (OpGetRaw k)
  then show ?thesis using read_ops_frame(1) [OF T, of k db] tracker_frame [OF s c] by auto
next
  case OpGetCount
  then show ?thesis using read_ops_frame(2) [OF T, of db] tracker_frame [OF s c] by auto
next
  case (OpGetScript h)
  then show ?thesis using read_ops_frame(3) [OF T, of h db] tracker_frame [OF s c] by auto
next
  case (OpGetData h)
  then show ?thesis using read_ops_frame(4) [OF T, of h db] tracker_frame [OF s c] by auto
qed (use write_ops_since [OF s c] write_ops_content [OF c] since_OpSnapshot [OF s] since_revert [OF s]
      content_revert [OF c] tracker_frame [OF s c]
      in \<open>auto simp: set_state_tracker_def take_state_tracker_def\<close>)

lemma run_ops_since:
  assumes "reads_pure T" and "since db0 db" and "content_addressed sc dt db"
    and "list_all (op_ok sc dt (sd_next_revision_id db0)) ops"
  shows "since db0 (run_ops T ops db)"
  using assms
proof (induction ops arbitrary: db)
  case Nil
  then show ?case by (simp add: run_ops_def)
next
  case (Cons op ops)
  have "op_ok sc dt (sd_next_revision_id db0) op" using Cons.prems(4) by simp
  note step = run_op_since [OF Cons.prems(1-3) this]
  show ?case
    using Cons.IH [OF Cons.prems(1), of "run_op T op db"] step Cons.prems(4)
    by (simp add: run_ops_def)
qed

lemma since_revert_exact:
  assumes s: "since db0 db"
  shows "revert (sd_next_revision_id db0) db =
    (Ok (), db0\<lparr> sd_next_revision_id := sd_next_revision_id db,
                 sd_state_tracker := sd_state_tracker db \<rparr>)"
proof -
  let ?k = "length (sd_revisions db0)" and ?n = "length (sd_journal db0)"
  from s obtain new rest where wf: "revisions_wf db" and new: "sd_journal db = sd_journal db0 @ new"
    "sfor (rev new) undo_entry (core db) = (Ok (), core db0)"
    and rest: "sd_revisions db = sd_revisions db0 @
        \<lparr> rev_id = sd_next_revision_id db0, rev_journal_len = ?n \<rparr> # rest"
    by (auto simp: since_def)
  have "?k < length (sd_revisions db)" "rev_id (sd_revisions db ! ?k) = sd_next_revision_id db0"
    "sfor (rev (drop (rev_journal_len (sd_revisions db ! ?k)) (sd_journal db))) undo_entry (core db)
       = (Ok (), core db0)"
    using rest new by simp_all
  from revert_run [OF wf this] obtain db' where db': "revert (sd_next_revision_id db0) db = (Ok (), db')"
    "core db' = core db0" "sd_journal db' = sd_journal db0" "sd_revisions db' = sd_revisions db0"
    "sd_next_revision_id db' = sd_next_revision_id db" "sd_state_tracker db' = sd_state_tracker db"
    using rest new by auto
  have "db' = db0\<lparr> sd_next_revision_id := sd_next_revision_id db, sd_state_tracker := sd_state_tracker db \<rparr>"
    using db'(2-) by (cases db'; cases db0) (simp add: core_def)
  with db'(1) show ?thesis by simp
qed

section \<open>Writing the dirty state through\<close>

definition hash_iter_ok :: "hash_iter \<Rightarrow> bool" where
  "hash_iter_ok it \<longleftrightarrow> (\<forall>xs. mset (it_state it xs) = mset xs) \<and>
     (\<forall>xs. mset (it_scripts it xs) = mset xs) \<and> (\<forall>xs. mset (it_data it xs) = mset xs)"

lemma fm_rows_map_of: "map_of (fm_rows m) = fmlookup m"
  by (simp add: fm_rows_def)

lemma fm_rows_distinct: "distinct (map fst (fm_rows m))"
  by (simp add: fm_rows_def sorted_list_of_fmap_def comp_def sorted_list_of_fset.rep_eq)

lemma rows_permuted:
  assumes "mset ys = mset (fm_rows m)"
  shows "distinct (map fst ys)" "map_of ys = fmlookup m"
proof -
  have "mset (map fst ys) = mset (map fst (fm_rows m))" using assms by (simp only: mset_map)
  then show d: "distinct (map fst ys)" using fm_rows_distinct mset_eq_imp_distinct_iff by blast
  have "set ys = set (fm_rows m)" using assms by (rule mset_eq_setD)
  then show "map_of ys = fmlookup m"
    using map_of_inject_set [OF d fm_rows_distinct, of m] by (simp add: fm_rows_map_of)
qed

text \<open>Writing rows with distinct keys, in any order, overrides the map by them.\<close>

lemma sfor_update_view:
  "vw_has v = (\<lambda>_. True) \<Longrightarrow> distinct (map fst rows) \<Longrightarrow>
   sfor rows (\<lambda>(k, x). st_update_raw (view_ops root) k x) v =
     (Ok (), v\<lparr> vw_map := \<lambda>k. case map_of rows k of Some x \<Rightarrow> x | None \<Rightarrow> vw_map v k \<rparr>)"
proof (induction rows arbitrary: v)
  case (Cons kx rows)
  obtain k x where kx: "kx = (k, x)" by (cases kx)
  have "map_of rows k = None" using Cons.prems(2) kx by (simp add: map_of_eq_None_iff)
  then show ?case
    using Cons kx by (auto simp: sbind_run view_ops_run set_key_def fun_eq_iff split: option.splits)
qed simp

lemma sfor_scripts_view:
  "distinct (map fst rows) \<Longrightarrow>
   sfor rows (\<lambda>(h, x). cs_insert_script (view_ops root) h x) v =
     (Ok (), v\<lparr> vw_scripts := \<lambda>h. case map_of rows h of Some x \<Rightarrow> Some x | None \<Rightarrow> vw_scripts v h \<rparr>)"
proof (induction rows arbitrary: v)
  case (Cons kx rows)
  obtain k x where kx: "kx = (k, x)" by (cases kx)
  have "map_of rows k = None" using Cons.prems kx by (simp add: map_of_eq_None_iff)
  then show ?case
    using Cons kx by (auto simp: sbind_run view_ops_run fun_eq_iff split: option.splits)
qed simp

lemma sfor_data_view:
  "distinct (map fst rows) \<Longrightarrow>
   sfor rows (\<lambda>(h, x). cs_insert_data (view_ops root) h x) v =
     (Ok (), v\<lparr> vw_data := \<lambda>h. case map_of rows h of Some x \<Rightarrow> Some x | None \<Rightarrow> vw_data v h \<rparr>)"
proof (induction rows arbitrary: v)
  case (Cons kx rows)
  obtain k x where kx: "kx = (k, x)" by (cases kx)
  have "map_of rows k = None" using Cons.prems kx by (simp add: map_of_eq_None_iff)
  then show ?case
    using Cons kx by (auto simp: sbind_run view_ops_run fun_eq_iff split: option.splits)
qed simp

text \<open>The writes \<open>finalise\<close> issues to the inner state, for any dictionary.\<close>

definition flush :: "('s, 'x) code_state_ops_scheme \<Rightarrow> hash_iter \<Rightarrow> 'd state_db \<Rightarrow>
    ('s, common_error, unit) sm" where
  "flush T it db =
     sbind (case sd_dirty_account_count db of
              Some c \<Rightarrow> st_set_account_count T c | None \<Rightarrow> ret ()) (\<lambda>_.
     sbind (sfor (it_state it (fm_rows (sd_dirty_state db)))
              (\<lambda>(k, v). st_update_raw T k v)) (\<lambda>_.
     sbind (sfor (it_scripts it (fm_rows (sd_dirty_scripts db)))
              (\<lambda>(h, sc). cs_insert_script T h sc)) (\<lambda>_.
     sfor (it_data it (fm_rows (sd_dirty_data db))) (\<lambda>(h, d). cs_insert_data T h d))))"

lemma on_inner_case_prod:
  "(\<lambda>p. case p of (x, y) \<Rightarrow> on_inner (f x y)) = (\<lambda>p. on_inner (case p of (x, y) \<Rightarrow> f x y))"
  by (auto simp: fun_eq_iff)

lemma finalise_flush:
  "is_dirty db \<Longrightarrow> finalise T it db =
     sbind (on_inner (flush T it db)) (\<lambda>_. sbind (modify clear_journal_and_dirty) (\<lambda>_.
       sbind (sdb_calculate_root T) (\<lambda>root. modify (\<lambda>db. db\<lparr> sd_last_state_root := root \<rparr>)))) db"
  by (cases "sd_dirty_account_count db")
    (simp_all add: finalise_def flush_def on_inner_sbind on_inner_case_prod on_inner_sfor
      sbind_assoc del: sm_prim_simps sbind_prim_simps)

lemma flush_view:
  assumes "hash_iter_ok it" and "vw_has (view (sd_state db)) = (\<lambda>_. True)"
  shows "flush (view_ops root) it db (view (sd_state db)) = (Ok (), sdb_view view db)"
proof -
  let ?v = "case sd_dirty_account_count db of
      Some c \<Rightarrow> view (sd_state db)\<lparr> vw_count := c \<rparr> | None \<Rightarrow> view (sd_state db)"
  have 1: "(case sd_dirty_account_count db of Some c \<Rightarrow> st_set_account_count (view_ops root) c
      | None \<Rightarrow> ret ()) (view (sd_state db)) = (Ok (), ?v)"
    by (auto simp: view_ops_run split: option.splits)
  have has: "vw_has ?v = (\<lambda>_. True)" using assms(2) by (auto split: option.splits)
  note p1 = rows_permuted [of "it_state it (fm_rows (sd_dirty_state db))"]
  note p2 = rows_permuted [of "it_scripts it (fm_rows (sd_dirty_scripts db))"]
  note p3 = rows_permuted [of "it_data it (fm_rows (sd_dirty_data db))"]
  show ?thesis
    using assms has p1 p2 p3
    by (simp add: flush_def sbind_run 1 sfor_update_view sfor_scripts_view sfor_data_view hash_iter_ok_def)
      (intro view.equality; auto simp: sdb_view_def cong: option.case_cong split: option.splits)
qed

locale rooted_contract = code_state_contract T view good root
  for T :: "('s, 'x) code_state_ops_scheme" and view good root +
  assumes sim_calculate_root:
    "simulates good view (st_calculate_root T) (st_calculate_root (view_ops root))"
begin

lemma sim_flush: "simulates good view (flush T it db) (flush (view_ops root) it db)"
  unfolding flush_def by (intro sim_intros)

lemma sdb_view_clean: "vw_has (view (sd_state db)) = (\<lambda>_. True) \<Longrightarrow> \<not> is_dirty db \<Longrightarrow>
    sdb_view view db = view (sd_state db)"
  by (simp add: sdb_view_def is_dirty_def)

lemma finalise_correct:
  assumes g: "sdb_good good view db" and it: "hash_iter_ok it"
  shows "\<exists>db'. finalise T it db = (Ok (), db') \<and> sdb_good good view db' \<and> \<not> is_dirty db' \<and>
    sdb_view view db' = sdb_view view db \<and> view (sd_state db') = sdb_view view db \<and>
    (is_dirty db \<longrightarrow> sd_last_state_root db' = root (vw_map (sdb_view view db)))"
proof (cases "is_dirty db")
  case False
  then show ?thesis using g by (auto simp: finalise_def sdb_view_clean sdb_good_def)
next
  case True
  have has: "vw_has (view (sd_state db)) = (\<lambda>_. True)" and gs: "good (sd_state db)"
    using g by (auto simp: sdb_good_def)
  obtain r s1 where fl: "flush T it db (sd_state db) = (r, s1)" by fastforce
  from simulatesD [OF sim_flush gs fl] flush_view [where view = view, OF it has, of root]
  have s1: "r = Ok ()" "good s1" "view s1 = sdb_view view db" by auto
  obtain r2 s2 where rt: "st_calculate_root T s1 = (r2, s2)" by fastforce
  from simulatesD [OF sim_calculate_root s1(2) rt] s1(3)
  have s2: "r2 = Ok (root (vw_map (sdb_view view db)))" "good s2" "view s2 = sdb_view view db"
    by (auto simp: view_ops_run)
  let ?db' = "clear_journal_and_dirty (db\<lparr> sd_state := s2 \<rparr>)\<lparr>
      sd_last_state_root := root (vw_map (sdb_view view db)) \<rparr>"
  have "finalise T it db = (Ok (), ?db')"
    using fl s1 rt s2
    by (simp add: finalise_flush [OF True] sbind_run on_inner_def sdb_calculate_root_def
        clear_journal_and_dirty_def is_dirty_def)
  moreover have "\<not> is_dirty ?db'" by (simp add: is_dirty_def clear_journal_and_dirty_def)
  moreover have "vw_has (sdb_view view db) = (\<lambda>_. True)" by (simp add: sdb_view_def)
  ultimately show ?thesis
    using s2 sdb_view_clean [of ?db'] by (auto simp: sdb_good_def clear_journal_and_dirty_def)
qed

end

end
