(* ===== verification/Gw_KV.thy ===== *)
theory Gw_KV
  imports Gw_StateDB
begin

text \<open>
  The key-value layer of \<open>crates/store\<close>: the traits \<open>KVStoreRead\<close>/\<open>KVStoreWrite\<close>, the
  overlay \<open>MemStore\<close> (\<open>state/overlay/mem_store.rs\<close>) and the 40-byte record keys
  (\<open>state/history/block_state_record.rs\<close>).

  RocksDB is third-party code. Its transaction is a dictionary \<open>rocks_ops\<close> of the operations
  the store calls; the locale \<open>rocks_contract\<close> states what RocksDB documents of them: a map
  per column family, iterated in the byte order of the keys. The instance \<open>fkv_ops\<close> (finite
  maps) shows the contract can be met.
\<close>

section \<open>Column families (\<open>schema.rs\<close>)\<close>

definition COLUMN_META :: nat where "COLUMN_META = 0"
definition COLUMN_INDEX :: nat where "COLUMN_INDEX = 1"
definition COLUMN_BLOCK :: nat where "COLUMN_BLOCK = 2"
definition COLUMN_BAD_BLOCK :: nat where "COLUMN_BAD_BLOCK = 3"
definition COLUMN_BLOCK_GLOBAL_STATE :: nat where "COLUMN_BLOCK_GLOBAL_STATE = 4"
definition COLUMN_TRANSACTION :: nat where "COLUMN_TRANSACTION = 5"
definition COLUMN_TRANSACTION_RECEIPT :: nat where "COLUMN_TRANSACTION_RECEIPT = 6"
definition COLUMN_BLOCK_SUBMIT_TX_HASH :: nat where "COLUMN_BLOCK_SUBMIT_TX_HASH = 7"
definition COLUMN_TRANSACTION_INFO :: nat where "COLUMN_TRANSACTION_INFO = 8"
definition COLUMN_BLOCK_SMT_BRANCH :: nat where "COLUMN_BLOCK_SMT_BRANCH = 11"
definition COLUMN_BLOCK_SMT_LEAF :: nat where "COLUMN_BLOCK_SMT_LEAF = 12"
definition COLUMN_SCRIPT :: nat where "COLUMN_SCRIPT = 14"
definition COLUMN_DATA :: nat where "COLUMN_DATA = 15"
definition COLUMN_BLOCK_DEPOSIT_INFO_VEC :: nat where "COLUMN_BLOCK_DEPOSIT_INFO_VEC = 16"
definition COLUMN_MEM_POOL_TRANSACTION_RECEIPT :: nat where
  "COLUMN_MEM_POOL_TRANSACTION_RECEIPT = 17"
definition COLUMN_BLOCK_STATE_RECORD :: nat where "COLUMN_BLOCK_STATE_RECORD = 18"
definition COLUMN_BLOCK_STATE_REVERSE_RECORD :: nat where "COLUMN_BLOCK_STATE_REVERSE_RECORD = 20"
definition COLUMN_REVERTED_BLOCK_SMT_BRANCH :: nat where "COLUMN_REVERTED_BLOCK_SMT_BRANCH = 21"
definition COLUMN_REVERTED_BLOCK_SMT_LEAF :: nat where "COLUMN_REVERTED_BLOCK_SMT_LEAF = 22"
definition COLUMN_BAD_BLOCK_CHALLENGE_TARGET :: nat where "COLUMN_BAD_BLOCK_CHALLENGE_TARGET = 23"
definition COLUMN_REVERTED_BLOCK_SMT_ROOT :: nat where "COLUMN_REVERTED_BLOCK_SMT_ROOT = 24"
definition COLUMN_ASSET_SCRIPT :: nat where "COLUMN_ASSET_SCRIPT = 25"
definition COLUMN_MEM_POOL_TRANSACTION :: nat where "COLUMN_MEM_POOL_TRANSACTION = 26"
definition COLUMN_MEM_POOL_WITHDRAWAL :: nat where "COLUMN_MEM_POOL_WITHDRAWAL = 27"
definition COLUMN_WITHDRAWAL :: nat where "COLUMN_WITHDRAWAL = 33"
definition COLUMN_WITHDRAWAL_INFO :: nat where "COLUMN_WITHDRAWAL_INFO = 34"
definition COLUMN_BLOCK_SUBMIT_TX :: nat where "COLUMN_BLOCK_SUBMIT_TX = 35"
definition COLUMN_BLOCK_POST_FINALIZED_CUSTODIAN_CAPACITY :: nat where
  "COLUMN_BLOCK_POST_FINALIZED_CUSTODIAN_CAPACITY = 36"

lemmas column_defs = COLUMN_META_def COLUMN_INDEX_def COLUMN_BLOCK_def COLUMN_BAD_BLOCK_def
  COLUMN_BLOCK_GLOBAL_STATE_def COLUMN_TRANSACTION_def COLUMN_TRANSACTION_RECEIPT_def
  COLUMN_BLOCK_SUBMIT_TX_HASH_def COLUMN_TRANSACTION_INFO_def COLUMN_BLOCK_SMT_BRANCH_def
  COLUMN_BLOCK_SMT_LEAF_def COLUMN_SCRIPT_def COLUMN_DATA_def COLUMN_BLOCK_DEPOSIT_INFO_VEC_def
  COLUMN_MEM_POOL_TRANSACTION_RECEIPT_def COLUMN_BLOCK_STATE_RECORD_def
  COLUMN_BLOCK_STATE_REVERSE_RECORD_def COLUMN_REVERTED_BLOCK_SMT_BRANCH_def
  COLUMN_REVERTED_BLOCK_SMT_LEAF_def COLUMN_BAD_BLOCK_CHALLENGE_TARGET_def
  COLUMN_REVERTED_BLOCK_SMT_ROOT_def COLUMN_ASSET_SCRIPT_def COLUMN_MEM_POOL_TRANSACTION_def
  COLUMN_MEM_POOL_WITHDRAWAL_def COLUMN_WITHDRAWAL_def COLUMN_WITHDRAWAL_INFO_def
  COLUMN_BLOCK_SUBMIT_TX_def COLUMN_BLOCK_POST_FINALIZED_CUSTODIAN_CAPACITY_def

section \<open>The traits\<close>

record 'k kv_ops =
  kv_get :: "nat \<Rightarrow> bytes \<Rightarrow> 'k \<Rightarrow> bytes option"
  kv_insert_raw :: "nat \<Rightarrow> bytes \<Rightarrow> bytes \<Rightarrow> ('k, string, unit) sm"
  kv_delete :: "nat \<Rightarrow> bytes \<Rightarrow> ('k, string, unit) sm"

text \<open>A RocksDB transaction also iterates a column family, its rows in key order.\<close>

record 'k rocks_ops = "'k kv_ops" +
  kv_iter :: "nat \<Rightarrow> 'k \<Rightarrow> (bytes \<times> bytes) list"

section \<open>\<open>MemStore\<close>\<close>

datatype mem_value = Exist bytes | Deleted

record 'k mem_store =
  ms_inner :: 'k
  ms_mem :: "(nat \<times> bytes, mem_value) fmap"
  ms_history_mem :: "(u64, (h256, h256) fmap) fmap"

definition mem_store_new :: "'k \<Rightarrow> 'k mem_store" where
  "mem_store_new inner = \<lparr> ms_inner = inner, ms_mem = fmempty, ms_history_mem = fmempty \<rparr>"

definition mem_store_get ::
  "('k, 'x) kv_ops_scheme \<Rightarrow> nat \<Rightarrow> bytes \<Rightarrow> 'k mem_store \<Rightarrow> bytes option" where
  "mem_store_get K col key ms = (case fmlookup (ms_mem ms) (col, key) of
      Some (Exist v) \<Rightarrow> Some v
    | Some Deleted \<Rightarrow> None
    | None \<Rightarrow> kv_get K col key (ms_inner ms))"

definition mem_store_insert_raw :: "nat \<Rightarrow> bytes \<Rightarrow> bytes \<Rightarrow> ('k mem_store, string, unit) sm" where
  "mem_store_insert_raw col key value =
     modify (\<lambda>ms. ms\<lparr> ms_mem := fmupd (col, key) (Exist value) (ms_mem ms) \<rparr>)"

definition mem_store_delete :: "nat \<Rightarrow> bytes \<Rightarrow> ('k mem_store, string, unit) sm" where
  "mem_store_delete col key =
     modify (\<lambda>ms. ms\<lparr> ms_mem := fmupd (col, key) Deleted (ms_mem ms) \<rparr>)"

definition mem_store_ops :: "('k, 'x) kv_ops_scheme \<Rightarrow> 'k mem_store kv_ops" where
  "mem_store_ops K = \<lparr>
     kv_get = mem_store_get K,
     kv_insert_raw = mem_store_insert_raw,
     kv_delete = mem_store_delete \<rparr>"

section \<open>Record keys\<close>

text \<open>\<open>block_number(8 bytes) | key(32 bytes)\<close>, and the reverse order.\<close>

definition record_key_new :: "u64 \<Rightarrow> h256 \<Rightarrow> bytes" where
  "record_key_new block_number state_key =
     copy_at 8 (as_slice state_key) (copy_at 0 (to_be_bytes 8 block_number) (replicate 40 0))"

definition record_key_state_key :: "bytes \<Rightarrow> h256" where
  "record_key_state_key key = h256_of_bytes (drop 8 key)"

definition record_key_block_number :: "bytes \<Rightarrow> u64" where
  "record_key_block_number key = from_be_bytes (take 8 key)"

definition record_key_from_slice :: "bytes \<Rightarrow> ('e, bytes) outcome" where
  "record_key_from_slice bs = (if length bs = 40 then Ok bs else Panic)"

definition reverse_key_new :: "u64 \<Rightarrow> h256 \<Rightarrow> bytes" where
  "reverse_key_new block_number state_key =
     copy_at 32 (to_be_bytes 8 block_number) (copy_at 0 (as_slice state_key) (replicate 40 0))"

definition reverse_key_state_key :: "bytes \<Rightarrow> h256" where
  "reverse_key_state_key key = h256_of_bytes (take 32 key)"

definition reverse_key_block_number :: "bytes \<Rightarrow> u64" where
  "reverse_key_block_number key = from_be_bytes (drop 32 key)"

definition reverse_key_from_slice :: "bytes \<Rightarrow> ('e, bytes) outcome" where
  "reverse_key_from_slice bs = (if length bs = 40 then Ok bs else Panic)"

section \<open>The contract of the key-value traits\<close>

type_synonym kvs = "nat \<Rightarrow> bytes \<Rightarrow> bytes option"

definition kvs_set :: "nat \<Rightarrow> bytes \<Rightarrow> bytes option \<Rightarrow> kvs \<Rightarrow> kvs" where
  "kvs_set c k v s = s(c := (s c)(k := v))"

definition ref_kv_ops :: "kvs kv_ops" where
  "ref_kv_ops = \<lparr>
     kv_get = (\<lambda>c k s. s c k),
     kv_insert_raw = (\<lambda>c k v. modify (kvs_set c k (Some v))),
     kv_delete = (\<lambda>c k. modify (kvs_set c k None)) \<rparr>"

lemma kvs_set_apply [simp]:
  "kvs_set c k v s c' k' = (if c = c' \<and> k = k' then v else s c' k')"
  by (auto simp: kvs_set_def)

lemma ref_kv_run [outcome_simps]:
  "kv_get ref_kv_ops c k s = s c k"
  "kv_insert_raw ref_kv_ops c k v s = (Ok (), kvs_set c k (Some v) s)"
  "kv_delete ref_kv_ops c k s = (Ok (), kvs_set c k None s)"
  by (simp_all add: ref_kv_ops_def)

lemma simulates_gets: "(\<And>s. good s \<Longrightarrow> f s = f' (absf s)) \<Longrightarrow> simulates good absf (gets f) (gets f')"
  by (auto simp: simulates_def)

locale kv_contract =
  fixes K :: "('k, 'x) kv_ops_scheme" and absf :: "'k \<Rightarrow> kvs" and good :: "'k \<Rightarrow> bool"
  assumes get_abs: "good s \<Longrightarrow> kv_get K c k s = absf s c k"
    and sim_insert_raw [sim_intros]:
      "simulates good absf (kv_insert_raw K c k v) (kv_insert_raw ref_kv_ops c k v)"
    and sim_delete [sim_intros]:
      "simulates good absf (kv_delete K c k) (kv_delete ref_kv_ops c k)"
begin

lemma sim_get [sim_intros]:
  "simulates good absf (gets (kv_get K c k)) (gets (kv_get ref_kv_ops c k))"
  by (rule simulates_gets) (simp add: get_abs ref_kv_run)

lemma insert_raw_run:
  "good s \<Longrightarrow> \<exists>s'. kv_insert_raw K c k v s = (Ok (), s') \<and> good s' \<and>
     absf s' = kvs_set c k (Some v) (absf s)"
  using simulatesD [OF sim_insert_raw] by (cases "kv_insert_raw K c k v s") (fastforce simp: ref_kv_run)

lemma delete_run:
  "good s \<Longrightarrow> \<exists>s'. kv_delete K c k s = (Ok (), s') \<and> good s' \<and> absf s' = kvs_set c k None (absf s)"
  using simulatesD [OF sim_delete] by (cases "kv_delete K c k s") (fastforce simp: ref_kv_run)

end

locale rocks_contract = kv_contract K absf good
  for K :: "('k, 'x) rocks_ops_scheme" and absf good +
  assumes iter_sorted: "good s \<Longrightarrow> sorted_wrt (<) (map fst (kv_iter K c s))"
    and iter_rows: "good s \<Longrightarrow> map_of (kv_iter K c s) = absf s c"

text \<open>Finite maps per column are one implementation.\<close>

type_synonym fkv = "nat \<Rightarrow> (bytes, bytes) fmap"

definition fkv_ops :: "fkv rocks_ops" where
  "fkv_ops = \<lparr>
     kv_get = (\<lambda>c k s. fmlookup (s c) k),
     kv_insert_raw = (\<lambda>c k v. modify (\<lambda>s. s(c := fmupd k v (s c)))),
     kv_delete = (\<lambda>c k. modify (\<lambda>s. s(c := fmdrop k (s c)))),
     kv_iter = (\<lambda>c s. fm_rows (s c)) \<rparr>"

lemma fm_rows_sorted: "sorted_wrt (<) (map fst (fm_rows m))"
  by (simp add: fm_rows_def sorted_list_of_fmap_def comp_def sorted_list_of_fset.rep_eq
      strict_sorted_list_of_set)

interpretation fk: rocks_contract fkv_ops "\<lambda>s c. fmlookup (s c)" "\<lambda>_. True"
  by unfold_locales
    (auto simp: fkv_ops_def simulates_def ref_kv_run kvs_set_def fun_eq_iff fm_rows_sorted
      fm_rows_map_of)

text \<open>The overlay keeps the contract over every store that keeps it.\<close>

definition mem_store_abs :: "('k \<Rightarrow> kvs) \<Rightarrow> 'k mem_store \<Rightarrow> kvs" where
  "mem_store_abs absf ms = (\<lambda>c k. case fmlookup (ms_mem ms) (c, k) of
      Some (Exist v) \<Rightarrow> Some v | Some Deleted \<Rightarrow> None | None \<Rightarrow> absf (ms_inner ms) c k)"

locale mem_store_over = inner: kv_contract K absf good
  for K :: "('k, 'x) kv_ops_scheme" and absf good

sublocale mem_store_over \<subseteq> ms: kv_contract "mem_store_ops K" "mem_store_abs absf"
    "\<lambda>ms. good (ms_inner ms)"
proof unfold_locales
  show "kv_get (mem_store_ops K) c k s = mem_store_abs absf s c k" if "good (ms_inner s)" for s c k
    using that inner.get_abs
    by (simp add: mem_store_ops_def mem_store_get_def mem_store_abs_def
        split: option.splits mem_value.splits)
qed (auto simp: simulates_def mem_store_ops_def mem_store_insert_raw_def mem_store_delete_def
    ref_kv_run mem_store_abs_def fun_eq_iff split: option.splits)

interpretation fkm: mem_store_over fkv_ops "\<lambda>s c. fmlookup (s c)" "\<lambda>_. True"
  by unfold_locales

section \<open>Byte order of the keys\<close>

lemma record_key_eq: "record_key_new n k = to_be_bytes 8 n @ as_slice k"
  by (simp add: record_key_new_def copy_at_def)

lemma reverse_key_eq: "reverse_key_new n k = as_slice k @ to_be_bytes 8 n"
  by (simp add: reverse_key_new_def copy_at_def)

lemma record_key_round_trips [simp, codec_simps]:
  "record_key_block_number (record_key_new n k) = n"
  "record_key_state_key (record_key_new n k) = k"
  "reverse_key_block_number (reverse_key_new n k) = n"
  "reverse_key_state_key (reverse_key_new n k) = k"
  "length (record_key_new n k) = 40" "length (reverse_key_new n k) = 40"
  by (simp_all add: record_key_eq reverse_key_eq record_key_block_number_def
      record_key_state_key_def reverse_key_block_number_def reverse_key_state_key_def
      from_to_be_bytes)

lemma key_new_inject [simp]:
  "record_key_new n k = record_key_new m j \<longleftrightarrow> n = m \<and> k = j"
  "reverse_key_new n k = reverse_key_new m j \<longleftrightarrow> n = m \<and> k = j"
  using record_key_round_trips by metis+

lemma record_key_rebuild:
  assumes "length bs = 40"
  shows "record_key_new (record_key_block_number bs) (record_key_state_key bs) = bs"
proof -
  have "to_be_bytes 8 (from_be_bytes (take 8 bs) :: u64) = take 8 bs"
    using assms by (simp add: to_be_bytes_def from_be_bytes_def to_from_le_bytes)
  moreover have "as_slice (h256_of_bytes (drop 8 bs)) = drop 8 bs"
    using assms by (simp add: as_slice_of_bytes)
  ultimately show ?thesis
    by (simp add: record_key_eq record_key_block_number_def record_key_state_key_def)
qed

lemma reverse_key_rebuild:
  assumes "length bs = 40"
  shows "reverse_key_new (reverse_key_block_number bs) (reverse_key_state_key bs) = bs"
proof -
  have "to_be_bytes 8 (from_be_bytes (drop 32 bs) :: u64) = drop 32 bs"
    using assms by (simp add: to_be_bytes_def from_be_bytes_def to_from_le_bytes)
  moreover have "as_slice (h256_of_bytes (take 32 bs)) = take 32 bs"
    using assms by (simp add: as_slice_of_bytes)
  ultimately show ?thesis
    by (simp add: reverse_key_eq reverse_key_block_number_def reverse_key_state_key_def)
qed

lemma append_less_iff:
  "length xs = length ys \<Longrightarrow> xs @ us < ys @ vs \<longleftrightarrow> xs < ys \<or> xs = ys \<and> us < vs"
  for xs ys us vs :: "'a::linorder list"
proof (induction xs ys rule: list_induct2)
  case (Cons x xs y ys)
  then show ?case by (cases "x = y") auto
qed simp

lemma append_le_iff:
  "length xs = length ys \<Longrightarrow> xs @ us \<le> ys @ vs \<longleftrightarrow> xs < ys \<or> xs = ys \<and> us \<le> vs"
  for xs ys us vs :: "'a::linorder list"
  by (auto simp: order_le_less append_less_iff)

text \<open>Big-endian encodings of one length order as the numbers do.\<close>

lemma unat_ucast_drop_bit:
  "unat (ucast (drop_bit (8 * n) w) :: 8 word) = (unat w div 256 ^ n) mod 256"
proof -
  have "unat (drop_bit (8 * n) w) = drop_bit (8 * n) (unat w)"
    using unat_less [of w] by (simp add: unsigned_drop_bit_eq take_bit_nat_eq_self)
  also have "\<dots> = unat w div 256 ^ n" by (simp add: drop_bit_eq_div power_mult)
  finally show ?thesis by (simp add: unsigned_ucast_eq take_bit_eq_mod del: drop_bit_eq_div)
qed

lemma to_be_bytes_less_iff:
  "to_be_bytes n a < to_be_bytes n b \<longleftrightarrow> unat a mod 256 ^ n < unat b mod 256 ^ n"
proof (induction n)
  case 0
  then show ?case by (simp add: to_be_bytes_def to_le_bytes_def)
next
  case (Suc n)
  have split: "x mod 256 ^ Suc n = (x div 256 ^ n mod 256) * 256 ^ n + x mod 256 ^ n" for x :: nat
    by (simp add: mod_mult2_eq mult.commute [of 256])
  have lt: "x mod 256 ^ n < 256 ^ n" for x :: nat by simp
  let ?ha = "unat a div 256 ^ n mod 256" and ?hb = "unat b div 256 ^ n mod 256"
  have "to_be_bytes (Suc n) a < to_be_bytes (Suc n) b \<longleftrightarrow>
      ?ha < ?hb \<or> ?ha = ?hb \<and> unat a mod 256 ^ n < unat b mod 256 ^ n"
    using Suc by (simp add: to_be_bytes_Suc word_less_nat_alt unat_ucast_drop_bit word_unat_eq_iff)
  also have "\<dots> \<longleftrightarrow> ?ha * 256 ^ n + unat a mod 256 ^ n < ?hb * 256 ^ n + unat b mod 256 ^ n"
  proof (cases ?ha ?hb rule: linorder_cases)
    case less
    then have "(?ha + 1) * 256 ^ n \<le> ?hb * 256 ^ n" by (intro mult_le_mono1) simp
    then have "?ha * 256 ^ n + 256 ^ n \<le> ?hb * 256 ^ n" by simp
    then have "?ha * 256 ^ n + unat a mod 256 ^ n < ?hb * 256 ^ n + unat b mod 256 ^ n"
      using lt [of "unat a"] by linarith
    then show ?thesis using less by blast
  next
    case greater
    then have "(?hb + 1) * 256 ^ n \<le> ?ha * 256 ^ n" by (intro mult_le_mono1) simp
    then have "?hb * 256 ^ n + 256 ^ n \<le> ?ha * 256 ^ n" by simp
    then have "\<not> ?ha * 256 ^ n + unat a mod 256 ^ n < ?hb * 256 ^ n + unat b mod 256 ^ n"
      using lt [of "unat b"] by linarith
    then show ?thesis using greater by simp
  qed simp
  finally show ?case by (simp only: split)
qed

lemma to_be_bytes_u64_less [simp]: "to_be_bytes 8 a < to_be_bytes 8 b \<longleftrightarrow> a < b" for a b :: u64
  using unat_less [of a] unat_less [of b] by (simp add: to_be_bytes_less_iff word_less_nat_alt)

lemma to_be_bytes_u64_inject [simp]: "to_be_bytes 8 a = to_be_bytes 8 b \<longleftrightarrow> a = b" for a b :: u64
  by (simp add: to_be_bytes_def to_le_bytes_inject)

lemma to_be_bytes_u64_le [simp]: "to_be_bytes 8 a \<le> to_be_bytes 8 b \<longleftrightarrow> a \<le> b" for a b :: u64
  by (simp add: order_le_less)

end
