(* ===== verification/Gw_History.thy ===== *)
theory Gw_History
  imports Gw_KV
begin

text \<open>
  The persisted account state: the history records of \<open>StoreTransaction\<close>
  (\<open>transaction/history_store_impl.rs\<close>) and of \<open>MemStore\<close>, \<open>HistoryState\<close>
  (\<open>state/history/history_state.rs\<close>) and \<open>MemStateTree\<close> (\<open>state/overlay/mem_state.rs\<close>).

  The sparse Merkle tree is third-party code: \<open>smt_ops\<close> holds the operations called, and the
  locale \<open>smt_contract\<close> what the crate documents: a map from keys to values whose root is a
  function of the contents. The tree keeps its nodes in column families of its own, so a tree
  and the rest of the store are separate components of \<open>HistoryState\<close> here.
\<close>

section \<open>Codecs\<close>

record 'a codec =
  enc :: "'a \<Rightarrow> bytes"
  dec :: "bytes \<Rightarrow> 'a option"

definition codec_ok :: "'a codec \<Rightarrow> bool" where
  "codec_ok c \<longleftrightarrow> (\<forall>x. dec c (enc c x) = Some x)"

text \<open>\<open>from_box_should_be_ok!\<close>: a stored value that does not parse is a panic.\<close>

definition parse_should_be_ok :: "'a codec \<Rightarrow> bytes option \<Rightarrow> ('e, 'a option) outcome" where
  "parse_should_be_ok c r = (case r of
      None \<Rightarrow> Ok None
    | Some slice' \<Rightarrow> obind (or_panic (dec c slice')) (\<lambda>x. Ok (Some x)))"

section \<open>The trait \<open>HistoryStateStore\<close> (with \<open>CodeStore\<close>)\<close>

record 'd history_store_ops =
  ho_iter_block_state_record :: "u64 \<Rightarrow> 'd \<Rightarrow> (common_error, bytes list) outcome"
  ho_remove_block_state_record :: "u64 \<Rightarrow> ('d, string, unit) sm"
  ho_get_history_state :: "u64 \<Rightarrow> h256 \<Rightarrow> 'd \<Rightarrow> (common_error, h256 option) outcome"
  ho_record_block_state :: "u64 \<Rightarrow> h256 \<Rightarrow> h256 \<Rightarrow> ('d, string, unit) sm"
  ho_insert_script :: "h256 \<Rightarrow> script \<Rightarrow> ('d, common_error, unit) sm"
  ho_get_script :: "h256 \<Rightarrow> 'd \<Rightarrow> (common_error, script option) outcome"
  ho_insert_data :: "h256 \<Rightarrow> bytes \<Rightarrow> ('d, common_error, unit) sm"
  ho_get_data :: "h256 \<Rightarrow> 'd \<Rightarrow> (common_error, bytes option) outcome"

text \<open>\<open>.expect(..)\<close> on a result: an error is a panic.\<close>

definition expect_ok :: "('s, 'e, 'a) sm \<Rightarrow> ('s, 'f, 'a) sm" where
  "expect_ok m = (\<lambda>s. case m s of (Ok x, s') \<Rightarrow> (Ok x, s') | (_, s') \<Rightarrow> (Panic, s'))"

section \<open>\<open>StoreTransaction\<close>\<close>

fun take_records :: "u64 \<Rightarrow> (bytes \<times> bytes) list \<Rightarrow> (common_error, bytes list) outcome" where
  "take_records n [] = Ok []"
| "take_records n ((key, value) # rows) =
     obind (record_key_from_slice key) (\<lambda>key.
       if record_key_block_number key = n
       then obind (take_records n rows) (\<lambda>ks. Ok (key # ks))
       else Ok [])"

definition tx_iter_block_state_record ::
  "('k, 'x) rocks_ops_scheme \<Rightarrow> u64 \<Rightarrow> 'k \<Rightarrow> (common_error, bytes list) outcome" where
  "tx_iter_block_state_record K block_number s = (
     let start_key = record_key_new block_number h256_zero;
         rows = dropWhile (\<lambda>(k, _). k < start_key) (kv_iter K COLUMN_BLOCK_STATE_RECORD s)
     in take_records block_number rows)"

definition tx_remove_block_state_record ::
  "('k, 'x) rocks_ops_scheme \<Rightarrow> u64 \<Rightarrow> ('k, string, unit) sm" where
  "tx_remove_block_state_record K block_number =
     sbind (\<lambda>s. (omap_err (\<lambda>_. []) (tx_iter_block_state_record K block_number s), s)) (\<lambda>keys.
       sfor keys (\<lambda>record_key.
         sbind (kv_delete K COLUMN_BLOCK_STATE_RECORD record_key) (\<lambda>_.
           kv_delete K COLUMN_BLOCK_STATE_REVERSE_RECORD
             (reverse_key_new (record_key_block_number record_key)
                (record_key_state_key record_key)))))"

definition seek_for_prev :: "bytes \<Rightarrow> (bytes \<times> bytes) list \<Rightarrow> bytes option" where
  "seek_for_prev key rows = (case filter (\<lambda>(k, _). k \<le> key) rows of
      [] \<Rightarrow> None | rs \<Rightarrow> Some (fst (last rs)))"

definition tx_get_history_state ::
  "('k, 'x) rocks_ops_scheme \<Rightarrow> u64 \<Rightarrow> h256 \<Rightarrow> 'k \<Rightarrow> (common_error, h256 option) outcome" where
  "tx_get_history_state K block_number state_key s = (
     let key = reverse_key_new block_number state_key in
     case seek_for_prev key (kv_iter K COLUMN_BLOCK_STATE_REVERSE_RECORD s) of
       None \<Rightarrow> Ok None
     | Some prev_key \<Rightarrow>
         if length prev_key < 32 then Panic
         else if take 32 prev_key \<noteq> as_slice (reverse_key_state_key key) then Ok None
         else obind (reverse_key_from_slice prev_key) (\<lambda>prev_reverse_key.
           let prev_key = record_key_new (reverse_key_block_number prev_reverse_key)
                            (reverse_key_state_key prev_reverse_key)
           in case kv_get K COLUMN_BLOCK_STATE_RECORD prev_key s of
                None \<Rightarrow> Ok None
              | Some raw \<Rightarrow> if length raw = 32 then Ok (Some (h256_of_bytes raw)) else Panic))"

definition tx_record_block_state ::
  "('k, 'x) kv_ops_scheme \<Rightarrow> u64 \<Rightarrow> h256 \<Rightarrow> h256 \<Rightarrow> ('k, string, unit) sm" where
  "tx_record_block_state K block_number state_key value =
     sbind (kv_insert_raw K COLUMN_BLOCK_STATE_RECORD (record_key_new block_number state_key)
              (as_slice value)) (\<lambda>_.
     sbind (kv_insert_raw K COLUMN_BLOCK_STATE_REVERSE_RECORD
              (reverse_key_new block_number state_key) []) (\<lambda>_. ret ()))"

definition store_insert_script ::
  "('k, 'x) kv_ops_scheme \<Rightarrow> script codec \<Rightarrow> h256 \<Rightarrow> script \<Rightarrow> ('k, common_error, unit) sm" where
  "store_insert_script K sc sh s =
     expect_ok (kv_insert_raw K COLUMN_SCRIPT (as_slice sh) (enc sc s))"

definition store_get_script ::
  "('k, 'x) kv_ops_scheme \<Rightarrow> script codec \<Rightarrow> h256 \<Rightarrow> 'k \<Rightarrow> (common_error, script option) outcome" where
  "store_get_script K sc sh s = parse_should_be_ok sc (kv_get K COLUMN_SCRIPT (as_slice sh) s)"

definition store_insert_data ::
  "('k, 'x) kv_ops_scheme \<Rightarrow> h256 \<Rightarrow> bytes \<Rightarrow> ('k, common_error, unit) sm" where
  "store_insert_data K data_hash code =
     expect_ok (kv_insert_raw K COLUMN_DATA (as_slice data_hash) code)"

definition store_get_data ::
  "('k, 'x) kv_ops_scheme \<Rightarrow> h256 \<Rightarrow> 'k \<Rightarrow> (common_error, bytes option) outcome" where
  "store_get_data K data_hash s = Ok (kv_get K COLUMN_DATA (as_slice data_hash) s)"

definition tx_history_ops ::
  "('k, 'x) rocks_ops_scheme \<Rightarrow> script codec \<Rightarrow> 'k history_store_ops" where
  "tx_history_ops K sc = \<lparr>
     ho_iter_block_state_record = tx_iter_block_state_record K,
     ho_remove_block_state_record = tx_remove_block_state_record K,
     ho_get_history_state = tx_get_history_state K,
     ho_record_block_state = tx_record_block_state K,
     ho_insert_script = store_insert_script K sc,
     ho_get_script = store_get_script K sc,
     ho_insert_data = store_insert_data K,
     ho_get_data = store_get_data K \<rparr>"

section \<open>\<open>MemStore\<close>\<close>

text \<open>\<open>HashSet\<close> of keys: its iteration order is the parameter \<open>ord\<close>.\<close>

definition mem_iter_block_state_record ::
  "('d, 'x) history_store_ops_scheme \<Rightarrow> (bytes set \<Rightarrow> bytes list) \<Rightarrow> u64 \<Rightarrow> 'd mem_store \<Rightarrow>
     (common_error, bytes list) outcome" where
  "mem_iter_block_state_record D ord block_number ms = (
     let ks = (case fmlookup (ms_history_mem ms) block_number of
                 Some m \<Rightarrow> record_key_new block_number ` fset (fmdom m)
               | None \<Rightarrow> {})
     in obind (ho_iter_block_state_record D block_number (ms_inner ms))
          (\<lambda>inner. Ok (ord (ks \<union> set inner))))"

definition mem_remove_block_state_record :: "u64 \<Rightarrow> ('d mem_store, string, unit) sm" where
  "mem_remove_block_state_record block_number =
     modify (\<lambda>ms. ms\<lparr> ms_history_mem := fmdrop block_number (ms_history_mem ms) \<rparr>)"

definition mem_get_history_state ::
  "('d, 'x) history_store_ops_scheme \<Rightarrow> u64 \<Rightarrow> h256 \<Rightarrow> 'd mem_store \<Rightarrow>
     (common_error, h256 option) outcome" where
  "mem_get_history_state D block_number state_key ms = (
     case Option.bind (fmlookup (ms_history_mem ms) block_number) (\<lambda>m. fmlookup m state_key) of
       Some value \<Rightarrow> Ok (Some value)
     | None \<Rightarrow> ho_get_history_state D block_number state_key (ms_inner ms))"

definition mem_record_block_state :: "u64 \<Rightarrow> h256 \<Rightarrow> h256 \<Rightarrow> ('d mem_store, string, unit) sm" where
  "mem_record_block_state block_number state_key value = modify (\<lambda>ms.
     let m = (case fmlookup (ms_history_mem ms) block_number of Some m \<Rightarrow> m | None \<Rightarrow> fmempty)
     in ms\<lparr> ms_history_mem := fmupd block_number (fmupd state_key value m) (ms_history_mem ms) \<rparr>)"

section \<open>Sparse Merkle trees\<close>

record 't smt_ops =
  smt_get :: "h256 \<Rightarrow> 't \<Rightarrow> (string, h256) outcome"
  smt_update :: "h256 \<Rightarrow> h256 \<Rightarrow> ('t, string, unit) sm"
  smt_root :: "'t \<Rightarrow> h256"

section \<open>\<open>HistoryState\<close>\<close>

datatype read_opt = ReadBlock u64 | ReadAny
datatype write_opt = NoRecord | WriteBlock u64 | Deny

record rw_config =
  rw_read :: read_opt
  rw_write :: write_opt

definition rw_readonly :: rw_config where
  "rw_readonly = \<lparr> rw_read = ReadAny, rw_write = Deny \<rparr>"

definition rw_attach_block :: "u64 \<Rightarrow> rw_config" where
  "rw_attach_block number = \<lparr> rw_read = ReadAny, rw_write = WriteBlock number \<rparr>"

definition rw_detach_block :: rw_config where
  "rw_detach_block = \<lparr> rw_read = ReadAny, rw_write = NoRecord \<rparr>"

definition rw_history_block :: "u64 \<Rightarrow> rw_config" where
  "rw_history_block number = \<lparr> rw_read = ReadBlock number, rw_write = Deny \<rparr>"

record ('t, 'd) history_state =
  hi_account_count :: u32
  hi_tree :: 't
  hi_db :: 'd
  hi_rw_config :: rw_config

definition on_tree :: "('t, string, 'a) sm \<Rightarrow> (('t, 'd) history_state, common_error, 'a) sm" where
  "on_tree m = (\<lambda>h. case m (hi_tree h) of (r, t') \<Rightarrow> (omap_err SMT r, h\<lparr> hi_tree := t' \<rparr>))"

definition on_db :: "('d, 'e, 'a) sm \<Rightarrow> (('t, 'd) history_state, 'e, 'a) sm" where
  "on_db m = (\<lambda>h. case m (hi_db h) of (r, d') \<Rightarrow> (r, h\<lparr> hi_db := d' \<rparr>))"

definition history_get_merkle_state ::
  "'t smt_ops \<Rightarrow> ('t, 'd) history_state \<Rightarrow> account_merkle_state" where
  "history_get_merkle_state S h =
     \<lparr> ams_merkle_root = smt_root S (hi_tree h), ams_count = hi_account_count h \<rparr>"

definition history_get_raw ::
  "'t smt_ops \<Rightarrow> 'd history_store_ops \<Rightarrow> h256 \<Rightarrow> (('t, 'd) history_state, common_error, h256) sm" where
  "history_get_raw S D key = (\<lambda>h.
     (case rw_read (hi_rw_config h) of
        ReadBlock block_number \<Rightarrow>
          obind (ho_get_history_state D block_number key (hi_db h))
            (\<lambda>v. Ok (case v of Some x \<Rightarrow> x | None \<Rightarrow> 0))
      | ReadAny \<Rightarrow> omap_err SMT (smt_get S key (hi_tree h)), h))"

definition history_update_raw ::
  "'t smt_ops \<Rightarrow> 'd history_store_ops \<Rightarrow> h256 \<Rightarrow> h256 \<Rightarrow>
     (('t, 'd) history_state, common_error, unit) sm" where
  "history_update_raw S D key value =
     sbind (on_tree (smt_update S key value)) (\<lambda>_ h.
       case rw_write (hi_rw_config h) of
         WriteBlock block_number \<Rightarrow>
           on_db (expect_ok (ho_record_block_state D block_number key value)) h
       | NoRecord \<Rightarrow> (Ok (), h)
       | Deny \<Rightarrow> (Err Store, h))"

definition history_ops ::
  "'t smt_ops \<Rightarrow> 'd history_store_ops \<Rightarrow> ('t, 'd) history_state code_state_ops" where
  "history_ops S D = \<lparr>
     st_get_raw = history_get_raw S D,
     st_update_raw = history_update_raw S D,
     st_get_account_count = gets hi_account_count,
     st_set_account_count = (\<lambda>c. modify (\<lambda>h. h\<lparr> hi_account_count := c \<rparr>)),
     st_calculate_root = gets (\<lambda>h. smt_root S (hi_tree h)),
     cs_insert_script = (\<lambda>sh s. on_db (ho_insert_script D sh s)),
     cs_get_script = (\<lambda>sh h. (ho_get_script D sh (hi_db h), h)),
     cs_insert_data = (\<lambda>dh d. on_db (ho_insert_data D dh d)),
     cs_get_data = (\<lambda>dh h. (ho_get_data D dh (hi_db h), h)) \<rparr>"

definition detach_block_state ::
  "'t smt_ops \<Rightarrow> 'd history_store_ops \<Rightarrow> u64 \<Rightarrow>
     (('t, 'd) history_state, common_error, unit) sm" where
  "detach_block_state S D block_number = (
     let parent_block_number = saturating_sub block_number 1 in
     sbind (\<lambda>h. (obind (ho_iter_block_state_record D block_number (hi_db h)) (\<lambda>keys.
              omapM (\<lambda>record_key.
                let state_key = record_key_state_key record_key in
                obind (ho_get_history_state D parent_block_number state_key (hi_db h))
                  (\<lambda>v. Ok (state_key, case v of Some x \<Rightarrow> x | None \<Rightarrow> h256_zero))) keys), h))
       (\<lambda>reverted_key_values.
     sbind (sfor reverted_key_values (\<lambda>(state_key, last_value).
              history_update_raw S D state_key last_value)) (\<lambda>_.
     sbind (map_err (\<lambda>_. Store) (on_db (ho_remove_block_state_record D block_number)))
       (\<lambda>_. ret ()))))"

section \<open>\<open>MemStateTree\<close>\<close>

record ('t, 'd) mem_state_tree =
  mt_tree :: 't
  mt_db :: 'd
  mt_account_count :: u32

definition mem_state_tree_ops ::
  "'t smt_ops \<Rightarrow> ('d, 'x) kv_ops_scheme \<Rightarrow> script codec \<Rightarrow> ('t, 'd) mem_state_tree code_state_ops" where
  "mem_state_tree_ops S K sc = \<lparr>
     st_get_raw = (\<lambda>key m. (omap_err SMT (smt_get S key (mt_tree m)), m)),
     st_update_raw = (\<lambda>key value m. case smt_update S key value (mt_tree m) of
        (r, t') \<Rightarrow> (omap_err SMT r, m\<lparr> mt_tree := t' \<rparr>)),
     st_get_account_count = gets mt_account_count,
     st_set_account_count = (\<lambda>c. modify (\<lambda>m. m\<lparr> mt_account_count := c \<rparr>)),
     st_calculate_root = gets (\<lambda>m. smt_root S (mt_tree m)),
     cs_insert_script = (\<lambda>sh s m. case store_insert_script K sc sh s (mt_db m) of
        (r, d') \<Rightarrow> (r, m\<lparr> mt_db := d' \<rparr>)),
     cs_get_script = (\<lambda>sh m. (store_get_script K sc sh (mt_db m), m)),
     cs_insert_data = (\<lambda>dh d m. case store_insert_data K dh d (mt_db m) of
        (r, d') \<Rightarrow> (r, m\<lparr> mt_db := d' \<rparr>)),
     cs_get_data = (\<lambda>dh m. (store_get_data K dh (mt_db m), m)) \<rparr>"

definition mem_state_tree_merkle_state ::
  "'t smt_ops \<Rightarrow> ('t, 'd) mem_state_tree \<Rightarrow> account_merkle_state" where
  "mem_state_tree_merkle_state S m =
     \<lparr> ams_merkle_root = smt_root S (mt_tree m), ams_count = mt_account_count m \<rparr>"

section \<open>Abstract history\<close>

text \<open>
  A history gives the value each block wrote to each key. A read at block \<open>n\<close> means the value
  of the last block at or before \<open>n\<close> that wrote the key.
\<close>

type_synonym history = "u64 \<Rightarrow> h256 \<Rightarrow> h256 option"

definition latest :: "history \<Rightarrow> u64 \<Rightarrow> h256 \<Rightarrow> h256 option" where
  "latest H n k = (if \<forall>m\<le>n. H m k = None then None else H (Max {m. m \<le> n \<and> H m k \<noteq> None}) k)"

lemma latest_NoneI: "(\<And>m. m \<le> n \<Longrightarrow> H m k = None) \<Longrightarrow> latest H n k = None"
  by (simp add: latest_def)

lemma latest_SomeI:
  assumes "m \<le> n" and "H m k = Some x" and "\<And>i. m < i \<Longrightarrow> i \<le> n \<Longrightarrow> H i k = None"
  shows "latest H n k = Some x"
proof -
  have max: "Max {i. i \<le> n \<and> H i k \<noteq> None} = m"
  proof (rule Max_eqI)
    fix i assume "i \<in> {i. i \<le> n \<and> H i k \<noteq> None}"
    then show "i \<le> m" using assms(3) [of i] by (cases "i \<le> m") (auto simp: not_le)
  qed (use assms in auto)
  have "\<not> (\<forall>m\<le>n. H m k = None)" using assms(1,2) by auto
  then have "latest H n k = H (Max {i. i \<le> n \<and> H i k \<noteq> None}) k"
    unfolding latest_def by (rule if_not_P)
  then show ?thesis unfolding max assms(2) .
qed

lemma latest_cases:
  obtains (none) "latest H n k = None" "\<And>m. m \<le> n \<Longrightarrow> H m k = None"
  | (some) m x where "m \<le> n" "H m k = Some x" "\<And>i. m < i \<Longrightarrow> i \<le> n \<Longrightarrow> H i k = None"
      "latest H n k = Some x"
proof (cases "\<forall>m\<le>n. H m k = None")
  case True
  show thesis by (rule none) (use True in \<open>auto intro: latest_NoneI\<close>)
next
  case False
  let ?A = "{m. m \<le> n \<and> H m k \<noteq> None}"
  have "?A \<noteq> {}" using False by blast
  then have "Max ?A \<in> ?A" by (intro Max_in) auto
  then obtain x where x: "Max ?A \<le> n" "H (Max ?A) k = Some x" by auto
  have above: "H i k = None" if "Max ?A < i" "i \<le> n" for i
  proof (rule ccontr)
    assume "H i k \<noteq> None"
    with that(2) have "i \<le> Max ?A" by (intro Max_ge) auto
    with that(1) show False by simp
  qed
  show thesis
  proof (rule some [OF x])
    show "H i k = None" if "Max ?A < i" "i \<le> n" for i using that by (rule above)
    show "latest H n k = Some x" using x by (rule latest_SomeI) (rule above)
  qed
qed

text \<open>What the two record columns of a store encode.\<close>

definition hist_of :: "kvs \<Rightarrow> history" where
  "hist_of s n k = map_option h256_of_bytes (s COLUMN_BLOCK_STATE_RECORD (record_key_new n k))"

definition hist_wf :: "kvs \<Rightarrow> bool" where
  "hist_wf s \<longleftrightarrow>
     (\<forall>k v. s COLUMN_BLOCK_STATE_RECORD k = Some v \<longrightarrow> length k = 40 \<and> length v = 32) \<and>
     (\<forall>k v. s COLUMN_BLOCK_STATE_REVERSE_RECORD k = Some v \<longrightarrow> length k = 40) \<and>
     (\<forall>n k. s COLUMN_BLOCK_STATE_RECORD (record_key_new n k) = None \<longleftrightarrow>
            s COLUMN_BLOCK_STATE_REVERSE_RECORD (reverse_key_new n k) = None)"

lemma hist_of_None: "hist_wf s \<Longrightarrow>
    hist_of s n k = None \<longleftrightarrow> s COLUMN_BLOCK_STATE_REVERSE_RECORD (reverse_key_new n k) = None"
  by (auto simp: hist_of_def hist_wf_def)

lemma sorted_le_last: "sorted_wrt (<) xs \<Longrightarrow> x \<in> set xs \<Longrightarrow> x \<le> last (xs :: 'a::linorder list)"
  by (induction xs) (auto simp: order_le_less)

lemma seek_for_prev_max:
  assumes "sorted_wrt (<) (map fst rows)" and "k \<in> fst ` set rows" and "k \<le> key"
  shows "\<exists>l. seek_for_prev key rows = Some l \<and> k \<le> l"
proof -
  let ?f = "filter (\<lambda>(k, _). k \<le> key) rows"
  have k: "k \<in> set (map fst ?f)" using assms by force
  then have ne: "?f \<noteq> []" by (metis in_set_replicate list.map_disc_iff replicate_0)
  have "sorted_wrt (<) (map fst ?f)"
    using assms(1) by (simp add: sorted_wrt_map sorted_wrt_filter)
  then have "k \<le> last (map fst ?f)" using k by (rule sorted_le_last)
  then have "k \<le> fst (last ?f)" by (simp only: last_map [OF ne])
  moreover have "seek_for_prev key rows = Some (fst (last ?f))"
    using ne by (auto simp: seek_for_prev_def split: list.splits)
  ultimately show ?thesis by blast
qed

lemma seek_for_prev_None:
  assumes "seek_for_prev key rows = None"
  shows "\<forall>(k, v) \<in> set rows. key < k"
proof -
  have "filter (\<lambda>(k, _). k \<le> key) rows = []"
    using assms by (auto simp: seek_for_prev_def split: list.splits)
  then show ?thesis by (auto simp: filter_empty_conv)
qed

lemma seek_for_prev_Some:
  assumes "seek_for_prev key rows = Some l"
  shows "l \<in> fst ` set rows \<and> l \<le> key"
proof -
  let ?f = "filter (\<lambda>(k, _). k \<le> key) rows"
  have ne: "?f \<noteq> []" "l = fst (last ?f)"
    using assms by (auto simp: seek_for_prev_def split: list.splits)
  then show ?thesis using last_in_set [OF ne(1)] by auto
qed

text \<open>Prefixes taken off a sorted list by a downward closed predicate.\<close>

lemma sorted_dropWhile_filter:
  "sorted_wrt (<) (map fst rows) \<Longrightarrow> (\<And>x y. x < y \<Longrightarrow> P y \<Longrightarrow> P x) \<Longrightarrow>
     dropWhile (\<lambda>(k, _). P k) rows = filter (\<lambda>(k, _). \<not> P k) rows"
proof (induction rows)
  case (Cons r rows)
  obtain k v where r: "r = (k, v)" by (cases r)
  show ?case
  proof (cases "P k")
    case False
    then have "\<forall>(k', v') \<in> set rows. \<not> P k'" using Cons.prems r by fastforce
    then have "filter (\<lambda>(k, _). \<not> P k) rows = rows" by (auto simp: filter_id_conv)
    with False r show ?thesis by simp
  qed (use Cons r in simp)
qed simp

lemma take_records_filter:
  "sorted_wrt (<) (map fst rows) \<Longrightarrow> (\<forall>(k, v) \<in> set rows. length k = 40 \<and> n \<le> record_key_block_number k) \<Longrightarrow>
     take_records n rows = Ok (map fst (filter (\<lambda>(k, _). record_key_block_number k = n) rows))"
proof (induction n rows rule: take_records.induct)
  case (2 n key vl rows)
  have len: "length key = 40" using "2.prems" by simp
  show ?case
  proof (cases "record_key_block_number key = n")
    case True
    then show ?thesis using 2 len by (simp add: record_key_from_slice_def)
  next
    case False
    then have lt: "n < record_key_block_number key" using "2.prems" by auto
    have "n < record_key_block_number k" if "(k, v) \<in> set rows" for k v
    proof -
      have "key < k" "length k = 40" using "2.prems" that by auto
      then have "record_key_new (record_key_block_number key) (record_key_state_key key) <
          record_key_new (record_key_block_number k) (record_key_state_key k)"
        using len by (simp add: record_key_rebuild)
      then have "record_key_block_number key \<le> record_key_block_number k"
        by (auto simp: record_key_eq append_less_iff)
      with lt show ?thesis by simp
    qed
    then have "filter (\<lambda>(k, _). record_key_block_number k = n) rows = []"
      by (fastforce simp: filter_empty_conv)
    with False len show ?thesis by (simp add: record_key_from_slice_def)
  qed
qed simp

lemma zeros_le: "length bs = n \<Longrightarrow> replicate n (0 :: byte) \<le> bs"
proof (induction bs arbitrary: n)
  case (Cons b bs)
  then show ?case by (cases "b = 0") (auto simp: word_neq_0_conv)
qed simp

lemma as_slice_zero: "as_slice 0 = replicate 32 0"
  by (rule nth_equalityI) (simp_all add: as_slice_def)

context rocks_contract
begin

lemma iter_keys: "good s \<Longrightarrow> fst ` set (kv_iter K c s) = {k. absf s c k \<noteq> None}"
  using iter_rows [of s c] by (auto simp: dom_map_of_conv_image_fst [symmetric] dom_def)

lemma get_history_state_latest:
  assumes g: "good s" and wf: "hist_wf (absf s)"
  shows "tx_get_history_state K n k s = Ok (latest (hist_of (absf s)) n k)"
proof -
  let ?H = "hist_of (absf s)" and ?key = "reverse_key_new n k"
  let ?rows = "kv_iter K COLUMN_BLOCK_STATE_REVERSE_RECORD s"
  have srt: "sorted_wrt (<) (map fst ?rows)" by (rule iter_sorted [OF g])
  have key: "\<exists>m j. l = reverse_key_new m j \<and> ?H m j \<noteq> None" if "l \<in> fst ` set ?rows" for l
  proof -
    have "absf s COLUMN_BLOCK_STATE_REVERSE_RECORD l \<noteq> None" using that iter_keys [OF g] by auto
    then have "length l = 40" "absf s COLUMN_BLOCK_STATE_REVERSE_RECORD
        (reverse_key_new (reverse_key_block_number l) (reverse_key_state_key l)) \<noteq> None"
      using wf by (auto simp: hist_wf_def reverse_key_rebuild)
    then show ?thesis using hist_of_None [OF wf] reverse_key_rebuild by metis
  qed
  have at: "tx_get_history_state K n k s = Ok (?H m k)"
    if seek: "seek_for_prev ?key ?rows = Some (reverse_key_new m k)" and H: "?H m k = Some x" for m x
  proof -
    obtain raw where "absf s COLUMN_BLOCK_STATE_RECORD (record_key_new m k) = Some raw"
      using H by (auto simp: hist_of_def)
    moreover from this wf have "length raw = 32" by (auto simp: hist_wf_def)
    ultimately show ?thesis
      using seek g
      by (simp add: tx_get_history_state_def Let_def reverse_key_from_slice_def get_abs hist_of_def)
        (simp add: reverse_key_eq)
  qed
  show ?thesis
  proof (cases rule: latest_cases [where H = ?H and n = n and k = k])
    case none
    show ?thesis
    proof (cases "seek_for_prev ?key ?rows")
      case None
      then show ?thesis using none by (simp add: tx_get_history_state_def)
    next
      case (Some l)
      note sk = seek_for_prev_Some [OF this]
      then obtain m j where l: "l = reverse_key_new m j" "?H m j \<noteq> None" "l \<le> ?key"
        using key [of l] by auto
      have "j \<noteq> k"
        using l none(2) [of m] by (auto simp: reverse_key_eq append_le_iff)
      then show ?thesis
        using Some l none by (simp add: tx_get_history_state_def Let_def) (simp add: reverse_key_eq)
    qed
  next
    case (some m x)
    have "reverse_key_new m k \<in> fst ` set ?rows"
      using some(2) hist_of_None [OF wf, of m k] iter_keys [OF g] by auto
    moreover have "reverse_key_new m k \<le> ?key" using some(1) by (simp add: reverse_key_eq append_le_iff)
    ultimately obtain l where l: "seek_for_prev ?key ?rows = Some l" "reverse_key_new m k \<le> l"
      using seek_for_prev_max [OF srt, of "reverse_key_new m k" ?key] by auto
    then obtain i j where ij: "l = reverse_key_new i j" "?H i j \<noteq> None" "l \<le> ?key"
      using seek_for_prev_Some [OF l(1)] key [of l] by auto
    have jk: "j = k" using l ij by (auto simp: reverse_key_eq append_le_iff)
    then have "m \<le> i" "i \<le> n" using l ij by (auto simp: reverse_key_eq append_le_iff)
    then have "i = m" using some(3) [of i] ij(2) jk by (cases "m < i") auto
    then show ?thesis using at [of m x] l ij jk some by simp
  qed
qed

lemma iter_block_state_record_correct:
  assumes g: "good s" and wf: "hist_wf (absf s)"
  shows "\<exists>ks. tx_iter_block_state_record K n s = Ok ks \<and> distinct ks \<and>
    set ks = {record_key_new n k | k. hist_of (absf s) n k \<noteq> None}"
proof -
  let ?rows = "kv_iter K COLUMN_BLOCK_STATE_RECORD s"
  let ?start = "record_key_new n 0"
  let ?ge = "filter (\<lambda>(k, _). \<not> k < ?start) ?rows"
  let ?ks = "map fst (filter (\<lambda>(k, _). record_key_block_number k = n) ?ge)"
  have srt: "sorted_wrt (<) (map fst ?rows)" by (rule iter_sorted [OF g])
  have len: "length k = 40" if "(k, v) \<in> set ?rows" for k v
  proof -
    have "k \<in> fst ` set ?rows" using that by (rule image_eqI [rotated]) simp
    then show ?thesis using wf unfolding iter_keys [OF g] by (auto simp: hist_wf_def)
  qed
  have drop: "dropWhile (\<lambda>(k, _). k < ?start) ?rows = ?ge"
    using srt by (rule sorted_dropWhile_filter) simp
  have order: "k < ?start \<longleftrightarrow> record_key_block_number k < n" if "length k = 40" for k
  proof -
    have "k < ?start \<longleftrightarrow> record_key_new (record_key_block_number k) (record_key_state_key k) < ?start"
      using that by (simp add: record_key_rebuild)
    also have "\<dots> \<longleftrightarrow> record_key_block_number k < n"
      using zeros_le [of "as_slice (record_key_state_key k)" 32]
      by (auto simp: record_key_eq append_less_iff as_slice_zero)
    finally show ?thesis .
  qed
  have "sorted_wrt (<) (map fst ?ge)" using srt by (simp add: sorted_wrt_map sorted_wrt_filter)
  moreover have "length k = 40 \<and> n \<le> record_key_block_number k" if "(k, v) \<in> set ?ge" for k v
    using that len [of k v] order [of k] by (auto simp: not_less)
  then have "\<forall>(k, v) \<in> set ?ge. length k = 40 \<and> n \<le> record_key_block_number k" by blast
  ultimately have run: "tx_iter_block_state_record K n s = Ok ?ks"
    unfolding tx_iter_block_state_record_def Let_def h256_zero_eq drop
    by (rule take_records_filter)
  have "sorted_wrt (<) ?ks" using srt by (simp add: sorted_wrt_map sorted_wrt_filter)
  then have "distinct ?ks" by (simp add: strict_sorted_iff)
  moreover have "set ?ks = {record_key_new n k | k. hist_of (absf s) n k \<noteq> None}"
  proof (intro set_eqI iffI)
    fix x assume "x \<in> set ?ks"
    then obtain v where x: "(x, v) \<in> set ?rows" "record_key_block_number x = n" by auto
    have "x \<in> fst ` set ?rows" using x(1) by (rule image_eqI [rotated]) simp
    then have some: "absf s COLUMN_BLOCK_STATE_RECORD x \<noteq> None" unfolding iter_keys [OF g] by simp
    have "x = record_key_new n (record_key_state_key x)"
      using x(2) record_key_rebuild [OF len [OF x(1)]] by simp
    then show "x \<in> {record_key_new n k | k. hist_of (absf s) n k \<noteq> None}"
      using some by (auto simp: hist_of_def)
  next
    fix x assume "x \<in> {record_key_new n k | k. hist_of (absf s) n k \<noteq> None}"
    then obtain k where x: "x = record_key_new n k" "hist_of (absf s) n k \<noteq> None" by auto
    then have "x \<in> fst ` set ?rows" unfolding iter_keys [OF g] by (simp add: hist_of_def)
    then obtain v where "(x, v) \<in> set ?rows" by auto
    then have "(x, v) \<in> set (filter (\<lambda>(k, _). record_key_block_number k = n) ?ge)"
      using x order [of x] by simp
    then show "x \<in> set ?ks" by force
  qed
  ultimately show ?thesis using run by blast
qed

end

section \<open>The contract of the history store\<close>

locale history_contract =
  fixes D :: "'d history_store_ops" and hist :: "'d \<Rightarrow> history"
    and scripts :: "'d \<Rightarrow> h256 \<Rightarrow> script option" and data :: "'d \<Rightarrow> h256 \<Rightarrow> bytes option"
    and dgood :: "'d \<Rightarrow> bool"
  assumes iter_records: "dgood d \<Longrightarrow> \<exists>ks. ho_iter_block_state_record D n d = Ok ks \<and> distinct ks \<and>
      set ks = {record_key_new n k | k. hist d n k \<noteq> None}"
    and get_history: "dgood d \<Longrightarrow> ho_get_history_state D n k d = Ok (latest (hist d) n k)"
    and record_state: "dgood d \<Longrightarrow> \<exists>d'. ho_record_block_state D n k v d = (Ok (), d') \<and> dgood d' \<and>
      hist d' = (hist d)(n := (hist d n)(k := Some v)) \<and> scripts d' = scripts d \<and> data d' = data d"
    and remove_records: "dgood d \<Longrightarrow> \<exists>d'. ho_remove_block_state_record D n d = (Ok (), d') \<and> dgood d' \<and>
      hist d' = (hist d)(n := (\<lambda>_. None)) \<and> scripts d' = scripts d \<and> data d' = data d"
    and insert_script_run: "dgood d \<Longrightarrow> \<exists>d'. ho_insert_script D h x d = (Ok (), d') \<and> dgood d' \<and>
      hist d' = hist d \<and> scripts d' = (scripts d)(h := Some x) \<and> data d' = data d"
    and get_script_run: "dgood d \<Longrightarrow> ho_get_script D h d = Ok (scripts d h)"
    and insert_data_run: "dgood d \<Longrightarrow> \<exists>d'. ho_insert_data D h b d = (Ok (), d') \<and> dgood d' \<and>
      hist d' = hist d \<and> scripts d' = scripts d \<and> data d' = (data d)(h := Some b)"
    and get_data_run: "dgood d \<Longrightarrow> ho_get_data D h d = Ok (data d h)"

definition stored_scripts :: "script codec \<Rightarrow> kvs \<Rightarrow> h256 \<Rightarrow> script option" where
  "stored_scripts sc s h = Option.bind (s COLUMN_SCRIPT (as_slice h)) (dec sc)"

definition stored_data :: "kvs \<Rightarrow> h256 \<Rightarrow> bytes option" where
  "stored_data s h = s COLUMN_DATA (as_slice h)"

definition scripts_wf :: "script codec \<Rightarrow> kvs \<Rightarrow> bool" where
  "scripts_wf sc s \<longleftrightarrow> (\<forall>h v. s COLUMN_SCRIPT (as_slice h) = Some v \<longrightarrow> dec sc v \<noteq> None)"

lemma kvs_eta: "kvs_set c k v s = (\<lambda>c' k'. if c = c' \<and> k = k' then v else s c' k')"
  by (simp add: fun_eq_iff)

lemma stored_set_script:
  assumes "codec_ok sc"
  shows "stored_scripts sc (kvs_set COLUMN_SCRIPT (as_slice h) (Some (enc sc x)) s) =
      (stored_scripts sc s)(h := Some x)"
    "stored_data (kvs_set COLUMN_SCRIPT k v s) = stored_data s"
    "scripts_wf sc s \<Longrightarrow> scripts_wf sc (kvs_set COLUMN_SCRIPT (as_slice h) (Some (enc sc x)) s)"
  using assms
  by (auto simp: stored_scripts_def stored_data_def scripts_wf_def codec_ok_def fun_eq_iff
      column_defs split: if_splits)

lemma stored_set_data:
  "stored_data (kvs_set COLUMN_DATA (as_slice h) (Some b) s) = (stored_data s)(h := Some b)"
  "stored_scripts sc (kvs_set COLUMN_DATA k v s) = stored_scripts sc s"
  "scripts_wf sc (kvs_set COLUMN_DATA k v s) = scripts_wf sc s"
  by (auto simp: stored_scripts_def stored_data_def scripts_wf_def fun_eq_iff column_defs)

lemma ref_record_state:
  "tx_record_block_state ref_kv_ops n k v s =
     (Ok (), kvs_set COLUMN_BLOCK_STATE_REVERSE_RECORD (reverse_key_new n k) (Some [])
        (kvs_set COLUMN_BLOCK_STATE_RECORD (record_key_new n k) (Some (as_slice v)) s))"
  by (simp add: tx_record_block_state_def sbind_run ref_kv_run)

definition remove_keys :: "bytes list \<Rightarrow> kvs \<Rightarrow> kvs" where
  "remove_keys ks s = (\<lambda>c k.
     if c = COLUMN_BLOCK_STATE_RECORD \<and> k \<in> set ks then None
     else if c = COLUMN_BLOCK_STATE_REVERSE_RECORD \<and>
       k \<in> (\<lambda>r. reverse_key_new (record_key_block_number r) (record_key_state_key r)) ` set ks then None
     else s c k)"

lemma ref_remove_keys:
  "sfor ks (\<lambda>r. sbind (kv_delete ref_kv_ops COLUMN_BLOCK_STATE_RECORD r) (\<lambda>_.
      kv_delete ref_kv_ops COLUMN_BLOCK_STATE_REVERSE_RECORD
        (reverse_key_new (record_key_block_number r) (record_key_state_key r)))) s =
   (Ok (), remove_keys ks s)"
proof (induction ks arbitrary: s)
  case Nil
  then show ?case by (simp add: remove_keys_def)
next
  case (Cons k ks)
  then show ?case
    by (auto simp: sbind_run ref_kv_run remove_keys_def kvs_eta column_defs fun_eq_iff)
qed

lemma remove_keys_hist:
  assumes wf: "hist_wf s" and ks: "set ks = {record_key_new n k | k. hist_of s n k \<noteq> None}"
  shows "hist_wf (remove_keys ks s)" "hist_of (remove_keys ks s) = (hist_of s)(n := (\<lambda>_. None))"
proof -
  have ks': "set ks = record_key_new n ` {k. hist_of s n k \<noteq> None}" using ks by auto
  have mem: "record_key_new m k \<in> set ks \<longleftrightarrow> m = n \<and> hist_of s n k \<noteq> None" for m k
    using ks by auto
  have mem': "reverse_key_new m k \<in> (\<lambda>r. reverse_key_new (record_key_block_number r)
      (record_key_state_key r)) ` set ks \<longleftrightarrow> m = n \<and> hist_of s n k \<noteq> None" for m k
    unfolding ks' image_image by auto
  have rec: "remove_keys ks s COLUMN_BLOCK_STATE_RECORD (record_key_new m k) =
      (if m = n then None else s COLUMN_BLOCK_STATE_RECORD (record_key_new m k))" for m k
    by (auto simp: remove_keys_def mem hist_of_def column_defs)
  have rev: "remove_keys ks s COLUMN_BLOCK_STATE_REVERSE_RECORD (reverse_key_new m k) =
      (if m = n then None else s COLUMN_BLOCK_STATE_REVERSE_RECORD (reverse_key_new m k))" for m k
    using hist_of_None [OF wf, of n k] by (auto simp: remove_keys_def mem' column_defs)
  show "hist_of (remove_keys ks s) = (hist_of s)(n := (\<lambda>_. None))"
    by (auto simp: fun_eq_iff hist_of_def rec)
  have "length k = 40 \<and> length v = 32"
    if "remove_keys ks s COLUMN_BLOCK_STATE_RECORD k = Some v" for k v
    using that wf by (auto simp: remove_keys_def hist_wf_def column_defs split: if_splits)
  moreover have "length k = 40"
    if "remove_keys ks s COLUMN_BLOCK_STATE_REVERSE_RECORD k = Some v" for k v
    using that wf by (auto simp: remove_keys_def hist_wf_def column_defs split: if_splits)
  ultimately show "hist_wf (remove_keys ks s)"
    using wf by (auto simp: hist_wf_def rec rev)
qed

text \<open>\<open>StoreTransaction\<close> keeps the contract.\<close>

definition tx_good :: "('k \<Rightarrow> bool) \<Rightarrow> ('k \<Rightarrow> kvs) \<Rightarrow> script codec \<Rightarrow> 'k \<Rightarrow> bool" where
  "tx_good good absf sc s \<longleftrightarrow> good s \<and> hist_wf (absf s) \<and> scripts_wf sc (absf s)"

locale tx_store = rocks_contract K absf good
  for K :: "('k, 'x) rocks_ops_scheme" and absf good +
  fixes sc :: "script codec"
  assumes codec: "codec_ok sc"
begin

lemma record_run:
  assumes "tx_good good absf sc s"
  shows "\<exists>s'. tx_record_block_state K n k v s = (Ok (), s') \<and> tx_good good absf sc s' \<and>
    hist_of (absf s') = (hist_of (absf s))(n := (hist_of (absf s) n)(k := Some v)) \<and>
    stored_scripts sc (absf s') = stored_scripts sc (absf s) \<and> stored_data (absf s') = stored_data (absf s)"
proof -
  have "simulates good absf (tx_record_block_state K n k v) (tx_record_block_state ref_kv_ops n k v)"
    unfolding tx_record_block_state_def by (intro sim_intros)
  moreover obtain r s' where run: "tx_record_block_state K n k v s = (r, s')" by fastforce
  ultimately have s': "r = Ok ()" "good s'"
    "absf s' = kvs_set COLUMN_BLOCK_STATE_REVERSE_RECORD (reverse_key_new n k) (Some [])
        (kvs_set COLUMN_BLOCK_STATE_RECORD (record_key_new n k) (Some (as_slice v)) (absf s))"
    using assms simulatesD by (fastforce simp: tx_good_def ref_record_state)+
  then show ?thesis
    using assms run
    by (auto simp: tx_good_def hist_wf_def hist_of_def scripts_wf_def stored_scripts_def
        stored_data_def column_defs fun_eq_iff)
qed

lemma remove_run:
  assumes "tx_good good absf sc s"
  shows "\<exists>s'. tx_remove_block_state_record K n s = (Ok (), s') \<and> tx_good good absf sc s' \<and>
    hist_of (absf s') = (hist_of (absf s))(n := (\<lambda>_. None)) \<and>
    stored_scripts sc (absf s') = stored_scripts sc (absf s) \<and> stored_data (absf s') = stored_data (absf s)"
proof -
  have g: "good s" and wf: "hist_wf (absf s)" using assms by (auto simp: tx_good_def)
  obtain ks where ks: "tx_iter_block_state_record K n s = Ok ks"
    "set ks = {record_key_new n k | k. hist_of (absf s) n k \<noteq> None}"
    using iter_block_state_record_correct [OF g wf] by blast
  let ?del = "\<lambda>K'. sfor ks (\<lambda>r. sbind (kv_delete K' COLUMN_BLOCK_STATE_RECORD r) (\<lambda>_.
      kv_delete K' COLUMN_BLOCK_STATE_REVERSE_RECORD
        (reverse_key_new (record_key_block_number r) (record_key_state_key r))))"
  have sim: "simulates good absf (?del K) (?del ref_kv_ops)" by (intro sim_intros)
  obtain r s' where run: "?del K s = (r, s')" by fastforce
  from simulatesD [OF sim g run] have s': "r = Ok ()" "good s'" "absf s' = remove_keys ks (absf s)"
    by (simp_all add: ref_remove_keys)
  have "tx_remove_block_state_record K n s = (Ok (), s')"
    using run s' ks by (simp add: tx_remove_block_state_record_def sbind_run)
  moreover have "remove_keys ks (absf s) COLUMN_SCRIPT = absf s COLUMN_SCRIPT"
    "remove_keys ks (absf s) COLUMN_DATA = absf s COLUMN_DATA"
    by (simp_all add: remove_keys_def column_defs)
  ultimately show ?thesis
    using assms s' remove_keys_hist [OF wf ks(2)]
    by (auto simp: tx_good_def scripts_wf_def stored_scripts_def [abs_def] stored_data_def [abs_def])
qed

lemma insert_code_run:
  assumes "tx_good good absf sc s"
  shows "\<exists>s'. store_insert_script K sc h x s = (Ok (), s') \<and> tx_good good absf sc s' \<and>
      hist_of (absf s') = hist_of (absf s) \<and>
      stored_scripts sc (absf s') = (stored_scripts sc (absf s))(h := Some x) \<and>
      stored_data (absf s') = stored_data (absf s)"
    and "\<exists>s'. store_insert_data K h b s = (Ok (), s') \<and> tx_good good absf sc s' \<and>
      hist_of (absf s') = hist_of (absf s) \<and>
      stored_scripts sc (absf s') = stored_scripts sc (absf s) \<and>
      stored_data (absf s') = (stored_data (absf s))(h := Some b)"
proof -
  have g: "good s" using assms by (simp add: tx_good_def)
  obtain s1 where "kv_insert_raw K COLUMN_SCRIPT (as_slice h) (enc sc x) s = (Ok (), s1)" "good s1"
    "absf s1 = kvs_set COLUMN_SCRIPT (as_slice h) (Some (enc sc x)) (absf s)"
    using insert_raw_run [OF g] by blast
  then show "\<exists>s'. store_insert_script K sc h x s = (Ok (), s') \<and> tx_good good absf sc s' \<and>
      hist_of (absf s') = hist_of (absf s) \<and>
      stored_scripts sc (absf s') = (stored_scripts sc (absf s))(h := Some x) \<and>
      stored_data (absf s') = stored_data (absf s)"
    using assms codec
    by (auto simp: store_insert_script_def expect_ok_def tx_good_def hist_wf_def hist_of_def
        scripts_wf_def stored_scripts_def stored_data_def column_defs fun_eq_iff codec_ok_def)
  obtain s2 where "kv_insert_raw K COLUMN_DATA (as_slice h) b s = (Ok (), s2)" "good s2"
    "absf s2 = kvs_set COLUMN_DATA (as_slice h) (Some b) (absf s)"
    using insert_raw_run [OF g] by blast
  then show "\<exists>s'. store_insert_data K h b s = (Ok (), s') \<and> tx_good good absf sc s' \<and>
      hist_of (absf s') = hist_of (absf s) \<and>
      stored_scripts sc (absf s') = stored_scripts sc (absf s) \<and>
      stored_data (absf s') = (stored_data (absf s))(h := Some b)"
    using assms
    by (auto simp: store_insert_data_def expect_ok_def tx_good_def hist_wf_def hist_of_def
        scripts_wf_def stored_scripts_def stored_data_def column_defs fun_eq_iff)
qed

lemma get_code_run:
  assumes "tx_good good absf sc s"
  shows "store_get_script K sc h s = Ok (stored_scripts sc (absf s) h)"
    and "store_get_data K h s = Ok (stored_data (absf s) h)"
  using assms
  by (fastforce simp: tx_good_def store_get_script_def store_get_data_def parse_should_be_ok_def
      get_abs stored_scripts_def stored_data_def scripts_wf_def split: option.splits)+

end

sublocale tx_store \<subseteq> tx: history_contract "tx_history_ops K sc" "\<lambda>s. hist_of (absf s)"
    "\<lambda>s. stored_scripts sc (absf s)" "\<lambda>s. stored_data (absf s)" "tx_good good absf sc"
proof (unfold_locales, goal_cases)
  case (1 d n)
  then show ?case
    using iter_block_state_record_correct [of d n] by (simp add: tx_history_ops_def tx_good_def)
next
  case (2 d n k)
  then show ?case
    using get_history_state_latest [of d n k] by (simp add: tx_history_ops_def tx_good_def)
next
  case (3 d n k v)
  then show ?case using record_run [of d n k v] by (simp add: tx_history_ops_def)
next
  case (4 d n)
  then show ?case using remove_run [of d n] by (simp add: tx_history_ops_def)
next
  case (5 d h x)
  then show ?case using insert_code_run(1) [of d h x] by (simp add: tx_history_ops_def)
next
  case (6 d h)
  then show ?case using get_code_run(1) [of d h] by (simp add: tx_history_ops_def)
next
  case (7 d h b)
  then show ?case using insert_code_run(2) [of d h b] by (simp add: tx_history_ops_def)
next
  case (8 d h)
  then show ?case using get_code_run(2) [of d h] by (simp add: tx_history_ops_def)
qed

section \<open>The contract of the tree, and the states over it\<close>

locale smt_contract =
  fixes S :: "'t smt_ops" and sem :: "'t \<Rightarrow> h256 \<Rightarrow> h256" and tgood :: "'t \<Rightarrow> bool"
    and root :: "(h256 \<Rightarrow> h256) \<Rightarrow> h256"
  assumes get_sem: "tgood t \<Longrightarrow> smt_get S k t = Ok (sem t k)"
    and update_sem: "tgood t \<Longrightarrow> \<exists>t'. smt_update S k v t = (Ok (), t') \<and> tgood t' \<and>
      sem t' = (sem t)(k := v)"
    and root_sem: "tgood t \<Longrightarrow> smt_root S t = root (sem t)"

text \<open>A map as a tree, with any function of its contents for a root.\<close>

definition map_tree_ops :: "((h256 \<Rightarrow> h256) \<Rightarrow> h256) \<Rightarrow> (h256 \<Rightarrow> h256) smt_ops" where
  "map_tree_ops root = \<lparr>
     smt_get = (\<lambda>k t. Ok (t k)),
     smt_update = (\<lambda>k v. modify (\<lambda>t. t(k := v))),
     smt_root = root \<rparr>"

interpretation mtree: smt_contract "map_tree_ops root" "\<lambda>t. t" "\<lambda>_. True" root for root
  by unfold_locales (simp_all add: map_tree_ops_def)

definition history_view ::
  "('t \<Rightarrow> h256 \<Rightarrow> h256) \<Rightarrow> ('d \<Rightarrow> h256 \<Rightarrow> script option) \<Rightarrow> ('d \<Rightarrow> h256 \<Rightarrow> bytes option) \<Rightarrow>
     ('t, 'd) history_state \<Rightarrow> view" where
  "history_view sem scripts data h = \<lparr>
     vw_map = sem (hi_tree h), vw_has = (\<lambda>_. True), vw_count = hi_account_count h,
     vw_scripts = scripts (hi_db h), vw_data = data (hi_db h) \<rparr>"

text \<open>A state opened for writing: it reads the tree and does not deny writes.\<close>

definition history_good ::
  "('t \<Rightarrow> bool) \<Rightarrow> ('d \<Rightarrow> bool) \<Rightarrow> ('t, 'd) history_state \<Rightarrow> bool" where
  "history_good tgood dgood h \<longleftrightarrow> tgood (hi_tree h) \<and> dgood (hi_db h) \<and>
     rw_read (hi_rw_config h) = ReadAny \<and> rw_write (hi_rw_config h) \<noteq> Deny"

locale history_state_over =
  tree: smt_contract S sem tgood root + db: history_contract D hist scripts data dgood
  for S :: "'t smt_ops" and sem tgood root and D :: "'d history_store_ops"
    and hist scripts data dgood
begin

lemma update_raw_run:
  assumes "tgood (hi_tree h)" and "dgood (hi_db h)" and "rw_write (hi_rw_config h) \<noteq> Deny"
  shows "\<exists>h'. history_update_raw S D k v h = (Ok (), h') \<and> tgood (hi_tree h') \<and> dgood (hi_db h') \<and>
    sem (hi_tree h') = (sem (hi_tree h))(k := v) \<and> hi_rw_config h' = hi_rw_config h \<and>
    hi_account_count h' = hi_account_count h \<and> scripts (hi_db h') = scripts (hi_db h) \<and>
    data (hi_db h') = data (hi_db h) \<and>
    hist (hi_db h') = (case rw_write (hi_rw_config h) of
        WriteBlock n \<Rightarrow> (hist (hi_db h))(n := (hist (hi_db h) n)(k := Some v))
      | _ \<Rightarrow> hist (hi_db h)) \<and>
    (rw_write (hi_rw_config h) = NoRecord \<longrightarrow> hi_db h' = hi_db h)"
proof -
  obtain t' where t': "smt_update S k v (hi_tree h) = (Ok (), t')" "tgood t'"
    "sem t' = (sem (hi_tree h))(k := v)"
    using tree.update_sem [OF assms(1)] by blast
  show ?thesis
  proof (cases "rw_write (hi_rw_config h)")
    case (WriteBlock n)
    obtain d' where "ho_record_block_state D n k v (hi_db h) = (Ok (), d')" "dgood d'"
      "hist d' = (hist (hi_db h))(n := (hist (hi_db h) n)(k := Some v))"
      "scripts d' = scripts (hi_db h)" "data d' = data (hi_db h)"
      using db.record_state [OF assms(2)] by blast
    then show ?thesis
      using t' WriteBlock
      by (simp add: history_update_raw_def sbind_run on_tree_def on_db_def expect_ok_def)
  qed (use t' assms in \<open>simp_all add: history_update_raw_def sbind_run on_tree_def\<close>)
qed

lemma sim_history_update_raw:
  "simulates (history_good tgood dgood) (history_view sem scripts data)
     (history_update_raw S D k v) (st_update_raw (view_ops root) k v)"
proof (rule simulatesI)
  fix h r h' assume g: "history_good tgood dgood h" and run: "history_update_raw S D k v h = (r, h')"
  with update_raw_run [of h k v] show "history_good tgood dgood h' \<and>
      st_update_raw (view_ops root) k v (history_view sem scripts data h) =
        (r, history_view sem scripts data h')"
    by (auto simp: history_good_def history_view_def view_ops_run set_key_def)
qed

lemma sim_history_code:
  "simulates (history_good tgood dgood) (history_view sem scripts data)
     (cs_insert_script (history_ops S D) sh x) (cs_insert_script (view_ops root) sh x)"
  "simulates (history_good tgood dgood) (history_view sem scripts data)
     (cs_insert_data (history_ops S D) sh b) (cs_insert_data (view_ops root) sh b)"
proof -
  show "simulates (history_good tgood dgood) (history_view sem scripts data)
     (cs_insert_script (history_ops S D) sh x) (cs_insert_script (view_ops root) sh x)"
  proof (rule simulatesI)
    fix h r h' assume g: "history_good tgood dgood h"
      and run: "cs_insert_script (history_ops S D) sh x h = (r, h')"
    with db.insert_script_run [of "hi_db h" sh x]
    show "history_good tgood dgood h' \<and> cs_insert_script (view_ops root) sh x
        (history_view sem scripts data h) = (r, history_view sem scripts data h')"
      by (auto simp: history_good_def history_ops_def on_db_def history_view_def view_ops_run)
  qed
  show "simulates (history_good tgood dgood) (history_view sem scripts data)
     (cs_insert_data (history_ops S D) sh b) (cs_insert_data (view_ops root) sh b)"
  proof (rule simulatesI)
    fix h r h' assume g: "history_good tgood dgood h"
      and run: "cs_insert_data (history_ops S D) sh b h = (r, h')"
    with db.insert_data_run [of "hi_db h" sh b]
    show "history_good tgood dgood h' \<and> cs_insert_data (view_ops root) sh b
        (history_view sem scripts data h) = (r, history_view sem scripts data h')"
      by (auto simp: history_good_def history_ops_def on_db_def history_view_def view_ops_run)
  qed
qed

lemma history_reads_pure: "reads_pure (history_ops S D)"
  by (simp add: reads_pure_def history_ops_def history_get_raw_def)

end

sublocale history_state_over \<subseteq> hs: rooted_contract "history_ops S D"
    "history_view sem scripts data" "history_good tgood dgood" root
proof (unfold_locales, goal_cases)
  case (2 k x)
  then show ?case using sim_history_update_raw [of k x] by (simp add: history_ops_def)
next
  case (5 h sc)
  then show ?case by (rule sim_history_code)
next
  case (7 h d)
  then show ?case by (rule sim_history_code)
qed (auto simp: simulates_def history_ops_def history_get_raw_def history_good_def history_view_def
    view_ops_run tree.get_sem tree.root_sem db.get_script_run db.get_data_run)

sublocale history_state_over \<subseteq> hs_db: state_db_over "history_ops S D"
    "history_view sem scripts data" "history_good tgood dgood" root
  by unfold_locales

section \<open>Attaching and detaching the state of a block\<close>

lemma map_of_graph: "map_of (map (\<lambda>k. (k, f k)) ks) k = (if k \<in> set ks then Some (f k) else None)"
  by (induction ks) auto

lemma latest_cong: "(\<And>m. m \<le> n \<Longrightarrow> H m k = H' m k) \<Longrightarrow> latest H n k = latest H' n k"
proof -
  assume eq: "\<And>m. m \<le> n \<Longrightarrow> H m k = H' m k"
  show ?thesis
  proof (cases rule: latest_cases [where H = H and n = n and k = k])
    case none
    then show ?thesis using eq by (simp add: latest_NoneI)
  next
    case (some m x)
    have "latest H' n k = Some x"
      by (rule latest_SomeI [of m]) (use some eq in auto)
    with some show ?thesis by simp
  qed
qed

lemma unat_ge_1: "n \<noteq> 0 \<Longrightarrow> 1 \<le> unat n" for n :: "'a::len word"
  by (cases "unat n") (auto simp: unat_eq_zero)

lemma unat_pred: "n \<noteq> 0 \<Longrightarrow> unat (n - 1) = unat n - 1" for n :: "'a::len word"
  using unat_ge_1 [of n] unat_sub [of 1 n] by (simp add: word_le_nat_alt)

lemma word_le_pred: "n \<noteq> 0 \<Longrightarrow> m \<le> n \<longleftrightarrow> m \<le> n - 1 \<or> m = n" for m n :: "'a::len word"
  using unat_ge_1 [of n] unat_pred [of n] by (auto simp: word_le_nat_alt word_unat_eq_iff)

lemma latest_step:
  assumes "n \<noteq> 0" and "H n k = None"
  shows "latest H n k = latest H (n - 1) k"
proof (cases rule: latest_cases [where H = H and n = "n - 1" and k = k])
  case none
  have "latest H n k = None"
    by (rule latest_NoneI) (use none assms(2) in \<open>auto simp: word_le_pred [OF assms(1)]\<close>)
  with none show ?thesis by simp
next
  case (some m x)
  have "latest H n k = Some x"
    by (rule latest_SomeI [of m]) (use some assms in \<open>auto simp: word_le_pred [OF assms(1)]\<close>)
  with some show ?thesis by simp
qed

text \<open>The tree holds, for every key, the value of the last block at or before \<open>n\<close>.\<close>

definition synced :: "history \<Rightarrow> (h256 \<Rightarrow> h256) \<Rightarrow> u64 \<Rightarrow> bool" where
  "synced H t n \<longleftrightarrow> (\<forall>k. t k = (case latest H n k of Some x \<Rightarrow> x | None \<Rightarrow> 0))"

lemma synced_write:
  assumes "synced H t n"
  shows "synced (H(n := (H n)(k := Some v))) (t(k := v)) n"
  unfolding synced_def
proof
  fix j
  let ?H = "H(n := (H n)(k := Some v))"
  show "(t(k := v)) j = (case latest ?H n j of Some x \<Rightarrow> x | None \<Rightarrow> 0)"
  proof (cases "j = k")
    case True
    have "latest ?H n k = Some v" by (rule latest_SomeI [of n]) auto
    with True show ?thesis by simp
  next
    case False
    then have "latest ?H n j = latest H n j" by (intro latest_cong) simp
    with False assms show ?thesis by (simp add: synced_def)
  qed
qed

lemma synced_remove:
  assumes n: "n \<noteq> 0" and s: "synced H t n"
    and t': "\<And>k. t' k = (if H n k = None then t k
        else (case latest H (n - 1) k of Some x \<Rightarrow> x | None \<Rightarrow> 0))"
  shows "synced (H(n := (\<lambda>_. None))) t' (n - 1)"
  unfolding synced_def
proof
  fix k
  have ne: "m \<noteq> n" if "m \<le> n - 1" for m
    using that n unat_ge_1 [OF n] by (auto simp: word_le_nat_alt unat_pred)
  have "latest (H(n := (\<lambda>_. None))) (n - 1) k = latest H (n - 1) k"
    by (rule latest_cong) (auto dest: ne)
  then show "t' k = (case latest (H(n := (\<lambda>_. None))) (n - 1) k of Some x \<Rightarrow> x | None \<Rightarrow> 0)"
    using t' [of k] s latest_step [OF n, of H k] by (auto simp: synced_def)
qed

context history_state_over
begin

lemma sfor_updates_no_record:
  assumes "tgood (hi_tree h)" and "dgood (hi_db h)" and "rw_write (hi_rw_config h) = NoRecord"
    and "distinct (map fst kvs)"
  shows "\<exists>h'. sfor kvs (\<lambda>(k, v). history_update_raw S D k v) h = (Ok (), h') \<and> tgood (hi_tree h') \<and>
    hi_db h' = hi_db h \<and> hi_rw_config h' = hi_rw_config h \<and> hi_account_count h' = hi_account_count h \<and>
    sem (hi_tree h') = (\<lambda>k. case map_of kvs k of Some x \<Rightarrow> x | None \<Rightarrow> sem (hi_tree h) k)"
  using assms
proof (induction kvs arbitrary: h)
  case Nil
  then show ?case by simp
next
  case (Cons kv kvs)
  obtain k v where kv: "kv = (k, v)" by (cases kv)
  obtain h1 where h1: "history_update_raw S D k v h = (Ok (), h1)" "tgood (hi_tree h1)"
    "sem (hi_tree h1) = (sem (hi_tree h))(k := v)" "hi_rw_config h1 = hi_rw_config h"
    "hi_account_count h1 = hi_account_count h" "hi_db h1 = hi_db h"
    using update_raw_run [OF Cons.prems(1,2), of k v] Cons.prems(3) by auto
  obtain h2 where h2: "sfor kvs (\<lambda>(k, v). history_update_raw S D k v) h1 = (Ok (), h2)"
    "tgood (hi_tree h2)" "hi_db h2 = hi_db h1" "hi_rw_config h2 = hi_rw_config h1"
    "hi_account_count h2 = hi_account_count h1"
    "sem (hi_tree h2) = (\<lambda>k. case map_of kvs k of Some x \<Rightarrow> x | None \<Rightarrow> sem (hi_tree h1) k)"
    using Cons.IH [of h1] h1 Cons.prems by auto
  have "map_of kvs k = None" using Cons.prems(4) kv by (simp add: map_of_eq_None_iff)
  then have "sem (hi_tree h2) = (\<lambda>j. case map_of (kv # kvs) j of Some x \<Rightarrow> x | None \<Rightarrow> sem (hi_tree h) j)"
    using h1 h2 kv by (auto simp: fun_eq_iff split: option.splits)
  then show ?case using h1 h2 kv by (simp add: sbind_run)
qed

lemma detach_block_state_correct:
  assumes t: "tgood (hi_tree h)" and d: "dgood (hi_db h)" and n: "n \<noteq> 0"
    and w: "rw_write (hi_rw_config h) = NoRecord" and s: "synced (hist (hi_db h)) (sem (hi_tree h)) n"
  shows "\<exists>h'. detach_block_state S D n h = (Ok (), h') \<and> tgood (hi_tree h') \<and> dgood (hi_db h') \<and>
    synced (hist (hi_db h')) (sem (hi_tree h')) (n - 1) \<and>
    hist (hi_db h') = (hist (hi_db h))(n := (\<lambda>_. None)) \<and>
    hi_account_count h' = hi_account_count h \<and> hi_rw_config h' = hi_rw_config h \<and>
    scripts (hi_db h') = scripts (hi_db h) \<and> data (hi_db h') = data (hi_db h)"
proof -
  let ?H = "hist (hi_db h)"
  let ?last = "\<lambda>k. case latest ?H (n - 1) k of Some x \<Rightarrow> x | None \<Rightarrow> 0"
  obtain ks where ks: "ho_iter_block_state_record D n (hi_db h) = Ok ks" "distinct ks"
    "set ks = {record_key_new n k | k. ?H n k \<noteq> None}"
    using db.iter_records [OF d] by blast
  let ?kvs = "map (\<lambda>r. (record_key_state_key r, ?last (record_key_state_key r))) ks"
  have parent: "saturating_sub n 1 = n - 1"
    using unat_ge_1 [OF n] by (simp add: saturating_sub_def checked_sub_def word_le_nat_alt)
  have inj: "inj_on record_key_state_key (set ks)" by (auto simp: inj_on_def ks(3))
  then have dist: "distinct (map fst ?kvs)" using ks(2) by (simp add: comp_def distinct_map)
  have keys: "record_key_state_key ` set ks = {k. ?H n k \<noteq> None}" by (force simp: ks(3))
  have "map_of ?kvs k = (if ?H n k \<noteq> None then Some (?last k) else None)" for k
  proof -
    have "map_of ?kvs k = map_of (map (\<lambda>k. (k, ?last k)) (map record_key_state_key ks)) k"
      by (simp add: comp_def)
    also have "\<dots> = (if k \<in> record_key_state_key ` set ks then Some (?last k) else None)"
      by (simp only: map_of_graph set_map)
    finally show ?thesis using keys by auto
  qed
  then have mo: "map_of ?kvs = (\<lambda>k. if ?H n k \<noteq> None then Some (?last k) else None)" by blast
  obtain h1 where h1: "sfor ?kvs (\<lambda>(k, v). history_update_raw S D k v) h = (Ok (), h1)"
    "tgood (hi_tree h1)" "hi_db h1 = hi_db h" "hi_rw_config h1 = hi_rw_config h"
    "hi_account_count h1 = hi_account_count h"
    "sem (hi_tree h1) = (\<lambda>k. case map_of ?kvs k of Some x \<Rightarrow> x | None \<Rightarrow> sem (hi_tree h) k)"
    using sfor_updates_no_record [OF t d w dist] by blast
  obtain d' where d': "ho_remove_block_state_record D n (hi_db h) = (Ok (), d')" "dgood d'"
    "hist d' = ?H(n := (\<lambda>_. None))" "scripts d' = scripts (hi_db h)" "data d' = data (hi_db h)"
    using db.remove_records [OF d] by blast
  have om: "omapM (\<lambda>r. let k = record_key_state_key r in
      obind (ho_get_history_state D (n - 1) k (hi_db h))
        (\<lambda>v. Ok (k, case v of Some x \<Rightarrow> x | None \<Rightarrow> h256_zero))) ks = Ok ?kvs"
    by (rule omapM_Ok) (simp add: db.get_history [OF d] Let_def split: option.splits)
  have "detach_block_state S D n h = (Ok (), h1\<lparr> hi_db := d' \<rparr>)"
    using h1 d' om ks(1)
    by (simp add: detach_block_state_def parent sbind_run on_db_def map_err_def)
  moreover have "synced (?H(n := (\<lambda>_. None))) (sem (hi_tree h1)) (n - 1)"
    by (rule synced_remove [OF n s]) (simp add: h1(6) mo)
  ultimately show ?thesis using h1 d' by auto
qed

text \<open>Writes of the block being attached keep the tree in step with its records.\<close>

lemma attach_writes:
  assumes "tgood (hi_tree h)" and "dgood (hi_db h)" and "rw_write (hi_rw_config h) = WriteBlock n"
    and "synced (hist (hi_db h)) (sem (hi_tree h)) n"
  shows "\<exists>h'. sfor kvs (\<lambda>(k, v). history_update_raw S D k v) h = (Ok (), h') \<and> tgood (hi_tree h') \<and>
    dgood (hi_db h') \<and> hi_rw_config h' = hi_rw_config h \<and>
    synced (hist (hi_db h')) (sem (hi_tree h')) n \<and>
    (\<forall>m. m \<noteq> n \<longrightarrow> hist (hi_db h') m = hist (hi_db h) m)"
  using assms
proof (induction kvs arbitrary: h)
  case Nil
  then show ?case by simp
next
  case (Cons kv kvs)
  obtain k v where kv: "kv = (k, v)" by (cases kv)
  obtain h1 where h1: "history_update_raw S D k v h = (Ok (), h1)" "tgood (hi_tree h1)" "dgood (hi_db h1)"
    "sem (hi_tree h1) = (sem (hi_tree h))(k := v)" "hi_rw_config h1 = hi_rw_config h"
    "hist (hi_db h1) = (hist (hi_db h))(n := (hist (hi_db h) n)(k := Some v))"
    using update_raw_run [OF Cons.prems(1,2), of k v] Cons.prems(3) by auto
  have "synced (hist (hi_db h1)) (sem (hi_tree h1)) n"
    using synced_write [OF Cons.prems(4)] h1 by simp
  with Cons.IH [of h1] h1 Cons.prems(3) show ?case by (fastforce simp: kv sbind_run)
qed

end

section \<open>\<open>MemStateTree\<close> keeps the contract\<close>

definition mem_tree_view ::
  "('t \<Rightarrow> h256 \<Rightarrow> h256) \<Rightarrow> ('d \<Rightarrow> kvs) \<Rightarrow> script codec \<Rightarrow> ('t, 'd) mem_state_tree \<Rightarrow> view" where
  "mem_tree_view sem absf sc m = \<lparr>
     vw_map = sem (mt_tree m), vw_has = (\<lambda>_. True), vw_count = mt_account_count m,
     vw_scripts = stored_scripts sc (absf (mt_db m)), vw_data = stored_data (absf (mt_db m)) \<rparr>"

definition mem_tree_good ::
  "('t \<Rightarrow> bool) \<Rightarrow> ('d \<Rightarrow> kvs) \<Rightarrow> ('d \<Rightarrow> bool) \<Rightarrow> script codec \<Rightarrow> ('t, 'd) mem_state_tree \<Rightarrow> bool" where
  "mem_tree_good tgood absf good sc m \<longleftrightarrow>
     tgood (mt_tree m) \<and> good (mt_db m) \<and> scripts_wf sc (absf (mt_db m))"

locale mem_state_over =
  tree: smt_contract S sem tgood root + db: kv_contract K absf good
  for S :: "'t smt_ops" and sem tgood root and K :: "('d, 'x) kv_ops_scheme" and absf good +
  fixes sc :: "script codec"
  assumes codec: "codec_ok sc"
begin

lemma sim_mem_update_raw:
  "simulates (mem_tree_good tgood absf good sc) (mem_tree_view sem absf sc)
     (st_update_raw (mem_state_tree_ops S K sc) k v) (st_update_raw (view_ops root) k v)"
proof (rule simulatesI)
  fix m r m' assume g: "mem_tree_good tgood absf good sc m"
    and run: "st_update_raw (mem_state_tree_ops S K sc) k v m = (r, m')"
  with tree.update_sem [of "mt_tree m" k v]
  show "mem_tree_good tgood absf good sc m' \<and>
      st_update_raw (view_ops root) k v (mem_tree_view sem absf sc m) = (r, mem_tree_view sem absf sc m')"
    by (auto simp: mem_tree_good_def mem_state_tree_ops_def mem_tree_view_def view_ops_run set_key_def)
qed

lemma sim_mem_insert_script:
  "simulates (mem_tree_good tgood absf good sc) (mem_tree_view sem absf sc)
     (cs_insert_script (mem_state_tree_ops S K sc) sh x) (cs_insert_script (view_ops root) sh x)"
proof (rule simulatesI)
  fix m r m' assume g: "mem_tree_good tgood absf good sc m"
    and run: "cs_insert_script (mem_state_tree_ops S K sc) sh x m = (r, m')"
  obtain d where "kv_insert_raw K COLUMN_SCRIPT (as_slice sh) (enc sc x) (mt_db m) = (Ok (), d)" "good d"
    "absf d = kvs_set COLUMN_SCRIPT (as_slice sh) (Some (enc sc x)) (absf (mt_db m))"
    using db.insert_raw_run [of "mt_db m" COLUMN_SCRIPT "as_slice sh" "enc sc x"] g by (auto simp: mem_tree_good_def)
  with g run codec show "mem_tree_good tgood absf good sc m' \<and>
      cs_insert_script (view_ops root) sh x (mem_tree_view sem absf sc m) = (r, mem_tree_view sem absf sc m')"
    by (auto simp: mem_tree_good_def mem_state_tree_ops_def mem_tree_view_def view_ops_run
        store_insert_script_def expect_ok_def stored_set_script)
qed

lemma sim_mem_insert_data:
  "simulates (mem_tree_good tgood absf good sc) (mem_tree_view sem absf sc)
     (cs_insert_data (mem_state_tree_ops S K sc) sh b) (cs_insert_data (view_ops root) sh b)"
proof (rule simulatesI)
  fix m r m' assume g: "mem_tree_good tgood absf good sc m"
    and run: "cs_insert_data (mem_state_tree_ops S K sc) sh b m = (r, m')"
  obtain d where "kv_insert_raw K COLUMN_DATA (as_slice sh) b (mt_db m) = (Ok (), d)" "good d"
    "absf d = kvs_set COLUMN_DATA (as_slice sh) (Some b) (absf (mt_db m))"
    using db.insert_raw_run [of "mt_db m" COLUMN_DATA "as_slice sh" b] g by (auto simp: mem_tree_good_def)
  with g run show "mem_tree_good tgood absf good sc m' \<and>
      cs_insert_data (view_ops root) sh b (mem_tree_view sem absf sc m) = (r, mem_tree_view sem absf sc m')"
    by (auto simp: mem_tree_good_def mem_state_tree_ops_def mem_tree_view_def view_ops_run
        store_insert_data_def expect_ok_def stored_set_data)
qed

lemma mem_get_script:
  "mem_tree_good tgood absf good sc m \<Longrightarrow>
     store_get_script K sc sh (mt_db m) = Ok (stored_scripts sc (absf (mt_db m)) sh)"
  by (fastforce simp: mem_tree_good_def store_get_script_def parse_should_be_ok_def db.get_abs
      stored_scripts_def scripts_wf_def split: option.splits)

end

sublocale mem_state_over \<subseteq> mst: rooted_contract "mem_state_tree_ops S K sc"
    "mem_tree_view sem absf sc" "mem_tree_good tgood absf good sc" root
proof (unfold_locales, goal_cases)
  case (2 k x)
  then show ?case by (rule sim_mem_update_raw)
next
  case (5 h s)
  then show ?case by (rule sim_mem_insert_script)
next
  case (6 h)
  then show ?case
    by (auto simp: simulates_def mem_state_tree_ops_def mem_get_script mem_tree_view_def view_ops_run)
next
  case (7 h d)
  then show ?case by (rule sim_mem_insert_data)
qed (auto simp: simulates_def mem_state_tree_ops_def mem_tree_good_def mem_tree_view_def
    view_ops_run tree.get_sem tree.root_sem store_get_data_def db.get_abs stored_data_def)

sublocale mem_state_over \<subseteq> mst_db: state_db_over "mem_state_tree_ops S K sc"
    "mem_tree_view sem absf sc" "mem_tree_good tgood absf good sc" root
  by unfold_locales

section \<open>Concrete instances\<close>

text \<open>A script codec, to instantiate the parameter the generated code stands for.\<close>

definition plain_script :: "script codec" where
  "plain_script = \<lparr>
     enc = (\<lambda>s. as_slice (sc_code_hash s) @ sc_hash_type s # sc_args s),
     dec = (\<lambda>bs. if length bs < 33 then None
        else Some \<lparr> sc_code_hash = h256_of_bytes (take 32 bs), sc_hash_type = bs ! 32,
                    sc_args = drop 33 bs \<rparr>) \<rparr>"

lemma plain_script_ok: "codec_ok plain_script"
  by (simp add: codec_ok_def plain_script_def nth_append)

interpretation ftx: tx_store fkv_ops "\<lambda>s c. fmlookup (s c)" "\<lambda>_. True" plain_script
  by unfold_locales (rule plain_script_ok)

interpretation fhs: history_state_over "map_tree_ops root" "\<lambda>t. t" "\<lambda>_. True" root
    "tx_history_ops fkv_ops plain_script" "\<lambda>s. hist_of (\<lambda>c. fmlookup (s c))"
    "\<lambda>s. stored_scripts plain_script (\<lambda>c. fmlookup (s c))"
    "\<lambda>s. stored_data (\<lambda>c. fmlookup (s c))"
    "tx_good (\<lambda>_. True) (\<lambda>s c. fmlookup (s c)) plain_script"
  for root
  by unfold_locales

interpretation fms: mem_state_over "map_tree_ops root" "\<lambda>t. t" "\<lambda>_. True" root
    "mem_store_ops fkv_ops" "mem_store_abs (\<lambda>s c. fmlookup (s c))" "\<lambda>_. True" plain_script
  for root
  by unfold_locales (rule plain_script_ok)

end
