(* ===== verification/Gw_Block_State.thy ===== *)
theory Gw_Block_State
  imports Gw_History
begin

text \<open>
  \<open>BlockStateDB\<close> (\<open>crates/store/src/state/mod.rs\<close>): the journal \<open>StateDB\<close> over \<open>HistoryState\<close>
  over a \<open>StoreTransaction\<close>, the state a node executes blocks on. The properties are stated of
  this composition. The two parameters that stand for third-party code, the sparse Merkle
  tree and the RocksDB transaction, enter as the hypotheses \<open>smt_contract\<close> and \<open>tx_store\<close>.

  The theory shows that snapshots and reverts are exact, that \<open>finalise\<close> writes through, that
  every provided method of \<open>State\<close> behaves as on a plain map, and from it the soundness of the
  token ledger, of the account table and of the registry; and that detaching a block gives
  back the state of its parent.
\<close>

section \<open>The composition\<close>

definition block_state_ops ::
  "'t smt_ops \<Rightarrow> ('k, 'x) rocks_ops_scheme \<Rightarrow> script codec \<Rightarrow>
     ('t, 'k) history_state state_db code_state_ops" where
  "block_state_ops S K sc = sdb_ops (history_ops S (tx_history_ops K sc))"

definition history_store_view ::
  "('t \<Rightarrow> h256 \<Rightarrow> h256) \<Rightarrow> ('k \<Rightarrow> kvs) \<Rightarrow> script codec \<Rightarrow> ('t, 'k) history_state \<Rightarrow> view" where
  "history_store_view sem absf sc =
     history_view sem (\<lambda>s. stored_scripts sc (absf s)) (\<lambda>s. stored_data (absf s))"

definition block_state_view ::
  "('t \<Rightarrow> h256 \<Rightarrow> h256) \<Rightarrow> ('k \<Rightarrow> kvs) \<Rightarrow> script codec \<Rightarrow>
     ('t, 'k) history_state state_db \<Rightarrow> view" where
  "block_state_view sem absf sc = sdb_view (history_store_view sem absf sc)"

definition block_state_good ::
  "('t \<Rightarrow> bool) \<Rightarrow> ('k \<Rightarrow> kvs) \<Rightarrow> ('k \<Rightarrow> bool) \<Rightarrow> script codec \<Rightarrow>
     ('t, 'k) history_state state_db \<Rightarrow> bool" where
  "block_state_good tgood absf good sc db \<longleftrightarrow> history_good tgood (tx_good good absf sc) (sd_state db)"

locale block_state =
  tree: smt_contract S sem tgood root + store: tx_store K absf good sc
  for S :: "'t smt_ops" and sem tgood root
    and K :: "('k, 'x) rocks_ops_scheme" and absf good sc

sublocale block_state \<subseteq> hist: history_state_over S sem tgood root "tx_history_ops K sc"
    "\<lambda>s. hist_of (absf s)" "\<lambda>s. stored_scripts sc (absf s)" "\<lambda>s. stored_data (absf s)"
    "tx_good good absf sc"
  by unfold_locales

lemma history_store_view_has: "vw_has (history_store_view sem absf sc h) = (\<lambda>_. True)"
  by (simp add: history_store_view_def history_view_def)

lemma block_state_good_sdb:
  "block_state_good tgood absf good sc =
     sdb_good (history_good tgood (tx_good good absf sc)) (history_store_view sem absf sc)"
  by (rule ext) (simp add: block_state_good_def sdb_good_def history_store_view_has)

sublocale block_state \<subseteq> bs: code_state_contract "block_state_ops S K sc"
    "block_state_view sem absf sc" "block_state_good tgood absf good sc" root
  unfolding block_state_good_sdb [of _ _ _ _ sem] block_state_ops_def block_state_view_def
    history_store_view_def
  by (rule hist.hs_db.sdb.code_state_contract_axioms)

interpretation fbs: block_state "map_tree_ops root" "\<lambda>t. t" "\<lambda>_. True" root
    fkv_ops "\<lambda>s c. fmlookup (s c)" "\<lambda>_. True" plain_script
  for root
  by unfold_locales

lemma block_stateI:
  "smt_contract S sem tgood root \<Longrightarrow> tx_store K absf good sc \<Longrightarrow>
     block_state S sem tgood root K absf good sc"
  by (simp add: block_state_def)

lemma history_ops_reads_pure: "reads_pure (history_ops S D)"
  by (simp add: reads_pure_def history_ops_def history_get_raw_def)


section \<open>What the composition gives its clients\<close>

context block_state
begin

lemma block_finalise:
  assumes "block_state_good tgood absf good sc db" and "hash_iter_ok it"
  shows "\<exists>db'. finalise (history_ops S (tx_history_ops K sc)) it db = (Ok (), db') \<and>
    block_state_good tgood absf good sc db' \<and> \<not> is_dirty db' \<and>
    block_state_view sem absf sc db' = block_state_view sem absf sc db \<and>
    history_store_view sem absf sc (sd_state db') = block_state_view sem absf sc db \<and>
    (is_dirty db \<longrightarrow> sd_last_state_root db' = root (vw_map (block_state_view sem absf sc db)))"
  using hist.hs.finalise_correct [OF _ assms(2)] assms(1)
  unfolding block_state_good_sdb [of _ _ _ _ sem] block_state_view_def history_store_view_def
  by blast

lemma block_view_has: "vw_has (block_state_view sem absf sc db) = (\<lambda>_. True)"
  by (simp add: block_state_view_def sdb_view_def)

text \<open>A method that simulates its reference instance runs as the reference runs on the view.\<close>

lemma run_on_view:
  assumes "simulates (block_state_good tgood absf good sc) (block_state_view sem absf sc) m m'"
    and "block_state_good tgood absf good sc db" and "m db = (r, db')"
  shows "block_state_good tgood absf good sc db'"
    and "m' (block_state_view sem absf sc db) = (r, block_state_view sem absf sc db')"
  using simulatesD [OF assms] by auto

lemma block_refines:
  "simulates (block_state_good tgood absf good sc) (block_state_view sem absf sc)
       (create_account (block_state_ops S K sc) b2b h) (create_account (view_ops root) b2b h) \<and>
     simulates (block_state_good tgood absf good sc) (block_state_view sem absf sc)
       (mint_sudt (block_state_ops S K sc) b2b i a n) (mint_sudt (view_ops root) b2b i a n) \<and>
     simulates (block_state_good tgood absf good sc) (block_state_view sem absf sc)
       (burn_sudt (block_state_ops S K sc) b2b i a n) (burn_sudt (view_ops root) b2b i a n) \<and>
     simulates (block_state_good tgood absf good sc) (block_state_view sem absf sc)
       (set_nonce (block_state_ops S K sc) i c) (set_nonce (view_ops root) i c) \<and>
     simulates (block_state_good tgood absf good sc) (block_state_view sem absf sc)
       (mapping_registry_address_to_script_hash (block_state_ops S K sc) b2b a h) (mapping_registry_address_to_script_hash (view_ops root) b2b a h) \<and>
     simulates (block_state_good tgood absf good sc) (block_state_view sem absf sc)
       (get_registry_address_by_script_hash (block_state_ops S K sc) b2b i h) (get_registry_address_by_script_hash (view_ops root) b2b i h) \<and>
     simulates (block_state_good tgood absf good sc) (block_state_view sem absf sc)
       (cs_get_script (block_state_ops S K sc) h) (cs_get_script (view_ops root) h)"
  by (intro conjI sim_intros)

lemma block_burn:
  "block_state_good tgood absf good sc db \<Longrightarrow>
     burn_sudt (block_state_ops S K sc) b2b i a n db = (r, db') \<Longrightarrow>
     burn_sudt (view_ops root) b2b i a n (block_state_view sem absf sc db) =
       (r, block_state_view sem absf sc db')"
  by (rule run_on_view(2) [OF bs.sim_burn_sudt])

lemma block_mint:
  "block_state_good tgood absf good sc db \<Longrightarrow>
     mint_sudt (block_state_ops S K sc) b2b i a n db = (r, db') \<Longrightarrow>
     mint_sudt (view_ops root) b2b i a n (block_state_view sem absf sc db) =
       (r, block_state_view sem absf sc db')"
  by (rule run_on_view(2) [OF bs.sim_mint_sudt])

lemma block_create_account:
  "block_state_good tgood absf good sc db \<Longrightarrow>
     create_account (block_state_ops S K sc) b2b h db = (r, db') \<Longrightarrow>
     create_account (view_ops root) b2b h (block_state_view sem absf sc db) =
       (r, block_state_view sem absf sc db')"
  by (rule run_on_view(2) [OF bs.sim_create_account])

lemma block_mapping_registry:
  "block_state_good tgood absf good sc db \<Longrightarrow>
     mapping_registry_address_to_script_hash (block_state_ops S K sc) b2b a h db = (r, db') \<Longrightarrow>
     mapping_registry_address_to_script_hash (view_ops root) b2b a h (block_state_view sem absf sc db) =
       (r, block_state_view sem absf sc db')"
  by (rule run_on_view(2) [OF bs.sim_mapping_registry])

lemma attach_detach:
  assumes t: "tgood (hi_tree h)" and d: "tx_good good absf sc (hi_db h)" and n: "n \<noteq> 0"
    and w: "hi_rw_config h = rw_attach_block n"
    and fresh: "hist_of (absf (hi_db h)) n = (\<lambda>_. None)"
    and s: "synced (hist_of (absf (hi_db h))) (sem (hi_tree h)) (n - 1)"
  shows "\<exists>h1 h2. sfor kvs (\<lambda>(k, v). history_update_raw S (tx_history_ops K sc) k v) h = (Ok (), h1) \<and>
    detach_block_state S (tx_history_ops K sc) n (h1\<lparr> hi_rw_config := rw_detach_block \<rparr>) = (Ok (), h2) \<and>
    sem (hi_tree h2) = sem (hi_tree h) \<and>
    hist_of (absf (hi_db h2)) = hist_of (absf (hi_db h)) \<and> tx_good good absf sc (hi_db h2)"
proof -
  let ?H = "hist_of (absf (hi_db h))"
  have sn: "synced ?H (sem (hi_tree h)) n"
    using s latest_step [OF n, of ?H] fresh by (simp add: synced_def)
  obtain h1 where h1: "sfor kvs (\<lambda>(k, v). history_update_raw S (tx_history_ops K sc) k v) h = (Ok (), h1)"
    "tgood (hi_tree h1)" "tx_good good absf sc (hi_db h1)"
    "synced (hist_of (absf (hi_db h1))) (sem (hi_tree h1)) n"
    "\<And>m. m \<noteq> n \<Longrightarrow> hist_of (absf (hi_db h1)) m = ?H m"
    using hist.attach_writes [OF t d _ sn, of kvs] w by (auto simp: rw_attach_block_def)
  let ?h1 = "h1\<lparr> hi_rw_config := rw_detach_block \<rparr>"
  obtain h2 where h2: "detach_block_state S (tx_history_ops K sc) n ?h1 = (Ok (), h2)"
    "tx_good good absf sc (hi_db h2)"
    "synced (hist_of (absf (hi_db h2))) (sem (hi_tree h2)) (n - 1)"
    "hist_of (absf (hi_db h2)) = (hist_of (absf (hi_db h1)))(n := (\<lambda>_. None))"
    using hist.detach_block_state_correct [of ?h1 n] h1 n by (auto simp: rw_detach_block_def)
  have "hist_of (absf (hi_db h2)) = ?H"
    using h1(5) h2(4) fresh by (auto simp: fun_eq_iff)
  moreover from this have "sem (hi_tree h2) = sem (hi_tree h)"
    using h2(3) s by (intro ext) (simp add: synced_def)
  ultimately show ?thesis using h1(1) h2 by blast
qed

end

text \<open>An empty state opened to attach block 1, on concrete parameters.\<close>

definition empty_block_state :: "(h256 \<Rightarrow> h256, fkv) history_state state_db" where
  "empty_block_state = \<lparr>
     sd_state = \<lparr> hi_account_count = 0, hi_tree = (\<lambda>_. 0), hi_db = (\<lambda>_. fmempty),
                  hi_rw_config = rw_attach_block 1 \<rparr>,
     sd_journal = [], sd_next_revision_id = 0, sd_revisions = [], sd_dirty_state = fmempty,
     sd_dirty_account_count = None, sd_dirty_scripts = fmempty, sd_dirty_data = fmempty,
     sd_dirty_logs = [], sd_state_tracker = None, sd_last_state_root = 0 \<rparr>"

abbreviation fkv_abs :: "fkv \<Rightarrow> kvs" where
  "fkv_abs \<equiv> (\<lambda>s c. fmlookup (s c))"

lemma empty_store_good: "tx_good (\<lambda>_. True) fkv_abs plain_script (\<lambda>_. fmempty)"
  by (simp add: tx_good_def hist_wf_def scripts_wf_def)

lemma empty_block_state_good:
  "block_state_good (\<lambda>_. True) fkv_abs (\<lambda>_. True) plain_script empty_block_state"
  using empty_store_good
  by (simp add: block_state_good_def history_good_def empty_block_state_def rw_attach_block_def)

lemma empty_block_state_view:
  "block_state_view (\<lambda>t. t) fkv_abs plain_script empty_block_state =
     \<lparr> vw_map = (\<lambda>_. 0), vw_has = (\<lambda>_. True), vw_count = 0, vw_scripts = (\<lambda>_. None),
       vw_data = (\<lambda>_. None) \<rparr>"
  by (simp add: block_state_view_def sdb_view_def empty_block_state_def history_store_view_def
      history_view_def stored_scripts_def stored_data_def fun_eq_iff)

lemma block_state_written:
  "block_state_good tgood absf good sc (snd (sdb_update_raw k v db)) =
     block_state_good tgood absf good sc db"
  "block_state_view sem absf sc (snd (sdb_update_raw k v db)) =
     set_key k v (block_state_view sem absf sc db)"
  by (simp_all add: block_state_good_def block_state_view_def sdb_view_def set_key_def fun_eq_iff
      sdb_update_raw_def tracker_touch_def journal_push_def Let_def cong: option.case_cong)

text \<open>A hash for concrete instances: the length of the preimage.\<close>

definition len_hash :: hasher where
  "len_hash bs = of_nat (length bs)"

definition sample_holder :: registry_address where
  "sample_holder = \<lparr> ra_registry_id = 2, ra_address = [1] \<rparr>"

text \<open>Token 1 with one holder of 10.\<close>

definition sample_ledger :: "(h256 \<Rightarrow> h256, fkv) history_state state_db" where
  "sample_ledger = snd (sdb_update_raw 37 10 (snd (sdb_update_raw 18 10 empty_block_state)))"

lemma sample_keys:
  "bal_key len_hash 1 sample_holder = 18" "sup_key len_hash 1 = 37"
  by (simp_all add: bal_key_def sup_key_def build_account_key_def len_hash_def sample_holder_def
      ra_encoding_def SUDT_TOTAL_SUPPLY_KEY_def)

lemma to_u32_0: "to_u32 0 = 0"
  by (simp add: h256_ext_eqs)

text \<open>Field keys carry their type in the fifth byte, so a small number is not one.\<close>

lemma field_key_not_small:
  assumes "t \<noteq> 0" and "k < 2 ^ 32"
  shows "build_account_field_key i t \<noteq> k"
proof
  assume eq: "build_account_field_key i t = k"
  have "as_slice k ! 4 = t"
    by (simp add: eq [symmetric] field_key_bytes nth_append)
  moreover have "unat (drop_bit 32 k) = 0"
    using assms(2) by (simp add: unat_div word_less_nat_alt drop_bit_eq_div)
  then have "drop_bit 32 k = 0" by (simp add: unat_eq_zero)
  then have "as_slice k ! 4 = 0" by (simp add: as_slice_def to_le_bytes_def)
  ultimately show False using assms(1) by simp
qed

lemma empty_accounts_ok:
  "accounts_ok len_hash {5} (block_state_view (\<lambda>t. t) fkv_abs plain_script empty_block_state)"
proof -
  have "id_key len_hash 5 = 37"
    by (simp add: id_key_def build_script_hash_to_account_id_key_def len_hash_def
        GW_NON_ACCOUNT_PLACEHOLDER_def)
  moreover have "script_field i \<noteq> 37" "nonce_field i \<noteq> 37" for i
    using field_key_not_small [of _ 37 i]
    by (simp_all add: script_field_def nonce_field_def GW_ACCOUNT_SCRIPT_HASH_TYPE_def
        GW_ACCOUNT_NONCE_TYPE_def)
  ultimately show ?thesis
    by (auto simp: accounts_ok_def account_keys_ok_def empty_block_state_view dest: sym)
qed

definition sample_address :: registry_address where
  "sample_address = \<lparr> ra_registry_id = 2, ra_address = replicate 20 7 \<rparr>"

lemma empty_registry_ok:
  "registry_ok len_hash {5} {sample_address}
     (block_state_view (\<lambda>t. t) fkv_abs plain_script empty_block_state)"
  by (simp add: registry_ok_def registry_keys_ok_def empty_block_state_view reg_addr_key_def
      reg_hash_key_def build_account_key_def script_hash_key_eq len_hash_def sample_address_def
      ra_encoding_def REGISTRY_KEY_PREFIX_def)

lemma sample_holder_fits: "ra_fits sample_holder"
  by (simp add: ra_fits_def sample_holder_def ra_len_def)

lemma sample_ledger_good:
  "block_state_good (\<lambda>_. True) fkv_abs (\<lambda>_. True) plain_script sample_ledger"
  by (simp add: sample_ledger_def block_state_written empty_block_state_good)

lemma sample_ledger_view:
  "block_state_view (\<lambda>t. t) fkv_abs plain_script sample_ledger =
     \<lparr> vw_map = (\<lambda>_. 0)(18 := 10, 37 := 10), vw_has = (\<lambda>_. True), vw_count = 0,
       vw_scripts = (\<lambda>_. None), vw_data = (\<lambda>_. None) \<rparr>"
  by (simp add: sample_ledger_def block_state_written empty_block_state_view set_key_def)

lemma sample_ledger_ok:
  "ledger_ok len_hash 1 {sample_holder} (block_state_view (\<lambda>t. t) fkv_abs plain_script sample_ledger)"
  by (simp add: sample_ledger_view ledger_ok_def keys_ok_def holdings_def tot_supply_def sample_keys
      sample_holder_fits)

section \<open>Snapshots, reverts and finalisation\<close>

text \<open>
  C3. Reverting to a snapshot is exact. Take a snapshot of a block state, run any sequence of
  reads, writes, log and tracker operations and nested snapshots and reverts that does not go
  back beyond the snapshot, then revert to it: the revert succeeds, and the whole database
  (dirty state, account count, scripts, data, logs, journal, revisions and the inner state) is
  what it was; only the revision counter and the access tracker have moved on. Scripts and data
  must be stored under a fixed content per hash, which is how the callers use them.
\<close>

theorem revert_restores_snapshot:
  assumes "revisions_wf db" and "content_addressed sc dt db"
    and "list_all (op_ok sc dt (sd_next_revision_id db)) ops"
    and "snapshot db = (rid, db1)" and "run_ops (history_ops S D) ops db1 = db2"
  shows "revert rid db2 = (Ok (), db\<lparr> sd_next_revision_id := sd_next_revision_id db2,
           sd_state_tracker := sd_state_tracker db2 \<rparr>)"
proof -
  have db1: "db1 = snd (snapshot db)" "rid = sd_next_revision_id db"
    using assms(4) by (auto simp: snapshot_def Let_def)
  have "since db db2"
    using assms db1 write_ops_content(6) [OF assms(2)] since_snapshot [OF assms(1)]
      run_ops_since [OF history_ops_reads_pure, of db db1 sc dt ops S D] by simp
  then show ?thesis using db1 since_revert_exact by blast
qed

theorem revert_restores_snapshot_witness:
  "revert 0 (run_ops (history_ops (map_tree_ops (\<lambda>_. 0)) (tx_history_ops fkv_ops plain_script))
      [OpUpdateRaw 1 2, OpSetCount 3, OpSnapshot, OpUpdateRaw 1 7, OpRevert 1, OpGetRaw 1]
      (snd (snapshot empty_block_state))) =
    (Ok (), empty_block_state\<lparr> sd_next_revision_id := sd_next_revision_id
      (run_ops (history_ops (map_tree_ops (\<lambda>_. 0)) (tx_history_ops fkv_ops plain_script))
        [OpUpdateRaw 1 2, OpSetCount 3, OpSnapshot, OpUpdateRaw 1 7, OpRevert 1, OpGetRaw 1]
        (snd (snapshot empty_block_state))),
      sd_state_tracker := sd_state_tracker
      (run_ops (history_ops (map_tree_ops (\<lambda>_. 0)) (tx_history_ops fkv_ops plain_script))
        [OpUpdateRaw 1 2, OpSetCount 3, OpSnapshot, OpUpdateRaw 1 7, OpRevert 1, OpGetRaw 1]
        (snd (snapshot empty_block_state))) \<rparr>)"
  by (rule revert_restores_snapshot
      [where sc = "\<lambda>_. \<lparr> sc_code_hash = 0, sc_hash_type = 0, sc_args = [] \<rparr>" and dt = "\<lambda>_. []"])
    (auto simp: revisions_wf_def content_addressed_def empty_block_state_def snapshot_def Let_def)

text \<open>
  C16. \<open>finalise\<close> writes the dirty state through: whatever order the hash maps iterate in, it
  succeeds, leaves nothing dirty, does not change what is read, and the last state root it
  records is the root of the state read before it.
\<close>

theorem finalise_writes_through:
  assumes "smt_contract S sem tgood root" and "tx_store K absf good sc"
    and "block_state_good tgood absf good sc db" and "hash_iter_ok it"
  shows "\<exists>db'. finalise (history_ops S (tx_history_ops K sc)) it db = (Ok (), db') \<and>
    block_state_good tgood absf good sc db' \<and> \<not> is_dirty db' \<and>
    block_state_view sem absf sc db' = block_state_view sem absf sc db \<and>
    history_store_view sem absf sc (sd_state db') = block_state_view sem absf sc db \<and>
    (is_dirty db \<longrightarrow> sd_last_state_root db' = root (vw_map (block_state_view sem absf sc db)))"
  using block_state.block_finalise [OF block_stateI [OF assms(1,2)] assms(3,4)] .

theorem finalise_writes_through_witness:
  "\<exists>db'. finalise (history_ops (map_tree_ops (\<lambda>m. m 1)) (tx_history_ops fkv_ops plain_script))
      \<lparr> it_state = rev, it_scripts = rev, it_data = rev \<rparr>
      (snd (sdb_update_raw 1 5 empty_block_state)) = (Ok (), db') \<and>
    \<not> is_dirty db' \<and> sd_last_state_root db' = 5"
proof -
  let ?db = "snd (sdb_update_raw 1 5 empty_block_state)"
  have good: "block_state_good (\<lambda>_. True) fkv_abs (\<lambda>_. True) plain_script ?db"
    using empty_block_state_good
    by (simp add: block_state_good_def sdb_update_raw_def tracker_touch_def journal_push_def Let_def)
  have dirty: "is_dirty ?db"
    by (simp add: is_dirty_def sdb_update_raw_def tracker_touch_def journal_push_def Let_def)
  have v: "vw_map (block_state_view (\<lambda>t. t) fkv_abs plain_script ?db) 1 = 5"
    by (simp add: block_state_view_def sdb_view_def sdb_update_raw_def tracker_touch_def
        journal_push_def Let_def)
  have "hash_iter_ok \<lparr> it_state = rev, it_scripts = rev, it_data = rev \<rparr>"
    by (simp add: hash_iter_ok_def)
  from finalise_writes_through [OF mtree.smt_contract_axioms [of "\<lambda>m. m 1"] ftx.tx_store_axioms
      good this]
  show ?thesis using dirty v by auto
qed


section \<open>Provided methods on the block state\<close>




text \<open>
  C12. Burning is atomic and conserves the ledger: on a block state whose total supply of a
  token is the sum of the balances of its holders, burning from a holder succeeds exactly when
  the balance covers the amount, then lowers that balance and the total supply by the amount;
  otherwise it fails with an overflow error and nothing changes. The supply stays the sum of
  the balances in both cases.
\<close>

theorem burn_sudt_conserves:
  assumes "smt_contract S sem tgood root" and "tx_store K absf good sc"
    and "block_state_good tgood absf good sc db"
    and "ledger_ok b2b i A (block_state_view sem absf sc db)" and "a \<in> A"
    and "burn_sudt (block_state_ops S K sc) b2b i a n db = (r, db')"
  shows "ledger_ok b2b i A (block_state_view sem absf sc db') \<and>
    (let v = block_state_view sem absf sc db; v' = block_state_view sem absf sc db' in
     if n \<le> vw_map v (bal_key b2b i a)
     then r = Ok () \<and> tot_supply b2b i v' + unat n = tot_supply b2b i v \<and>
          vw_map v' (bal_key b2b i a) = vw_map v (bal_key b2b i a) - n
     else r = Err AmountOverflow \<and> v' = v)"
proof -
  note run = block_state.block_burn [OF block_stateI [OF assms(1,2)] assms(3,6)]
  let ?v = "block_state_view sem absf sc db"
  have le: "unat n \<le> tot_supply b2b i ?v" if "n \<le> vw_map ?v (bal_key b2b i a)"
    using holding_le_supply [OF assms(4,5)] that by (simp add: word_le_nat_alt)
  have ne: "sup_key b2b i \<noteq> bal_key b2b i a"
    using assms(4,5) by (auto simp: ledger_ok_def keys_ok_def)
  show ?thesis
    using burn_sudt_ledger_ok [OF assms(4,5) run] burn_sudt_ledger [OF assms(4,5), of root n] run le ne
    by (auto simp: Let_def tot_supply_def unat_sub word_le_nat_alt)
qed

theorem burn_sudt_conserves_witness:
  "\<exists>r db'. burn_sudt (block_state_ops (map_tree_ops (\<lambda>_. 0)) fkv_ops plain_script) len_hash 1
      sample_holder 4 sample_ledger = (r, db') \<and> r = Ok () \<and>
    ledger_ok len_hash 1 {sample_holder} (block_state_view (\<lambda>t. t) fkv_abs plain_script db') \<and>
    vw_map (block_state_view (\<lambda>t. t) fkv_abs plain_script db') 18 = 6"
proof -
  obtain r db' where run: "burn_sudt (block_state_ops (map_tree_ops (\<lambda>_. 0)) fkv_ops plain_script)
      len_hash 1 sample_holder 4 sample_ledger = (r, db')" by fastforce
  from burn_sudt_conserves [OF mtree.smt_contract_axioms ftx.tx_store_axioms sample_ledger_good
      sample_ledger_ok _ run] run
  show ?thesis by (simp add: Let_def sample_keys sample_ledger_view)
qed

text \<open>
  C13. Minting conserves the ledger when the supply has room: it then raises the balance and
  the total supply by the amount and keeps the supply the sum of the balances. When the supply
  would overflow it fails, and in that case the balance has already been raised if the balance
  itself had room: the error leaves the ledger unsound until the caller reverts.
\<close>

theorem mint_sudt_conserves:
  assumes "smt_contract S sem tgood root" and "tx_store K absf good sc"
    and "block_state_good tgood absf good sc db"
    and "ledger_ok b2b i A (block_state_view sem absf sc db)" and "a \<in> A"
    and "mint_sudt (block_state_ops S K sc) b2b i a n db = (r, db')"
  shows "let v = block_state_view sem absf sc db; v' = block_state_view sem absf sc db' in
    if tot_supply b2b i v + unat n < 2 ^ 256
    then r = Ok () \<and> ledger_ok b2b i A v' \<and> tot_supply b2b i v' = tot_supply b2b i v + unat n \<and>
         vw_map v' (bal_key b2b i a) = vw_map v (bal_key b2b i a) + n
    else r = Err AmountOverflow \<and>
         v' = (if unat (vw_map v (bal_key b2b i a)) + unat n < 2 ^ 256
               then set_key (bal_key b2b i a) (vw_map v (bal_key b2b i a) + n) v else v)"
proof -
  note run = block_state.block_mint [OF block_stateI [OF assms(1,2)] assms(3,6)]
  let ?v = "block_state_view sem absf sc db"
  have K: "keys_ok b2b i A ?v" using assms(4) by (simp add: ledger_ok_def)
  show ?thesis
  proof (cases "tot_supply b2b i ?v + unat n < 2 ^ 256")
    case True
    note m = mint_sudt_ledger [OF assms(4,5) True, of root]
    have ok: "r = Ok ()" using run m by simp
    have "vw_map (block_state_view sem absf sc db') (bal_key b2b i a) = vw_map ?v (bal_key b2b i a) + n"
      using run keys_okD(4) [OF K assms(5)] unfolding m by (auto dest: sym)
    then show ?thesis
      using mint_sudt_ledger_ok [OF assms(4,5) run [unfolded ok]] True ok by (simp add: Let_def)
  next
    case False
    then have "checked_add (vw_map ?v (sup_key b2b i)) n = None"
      by (simp add: checked_add_def tot_supply_def)
    then show ?thesis
      using run False
      by (auto simp: mint_sudt_view [OF keys_okD(1,2,3,4) [OF K assms(5)]] checked_add_def Let_def)
  qed
qed

theorem mint_sudt_conserves_witness:
  "\<exists>r db'. mint_sudt (block_state_ops (map_tree_ops (\<lambda>_. 0)) fkv_ops plain_script) len_hash 1
      sample_holder 4 sample_ledger = (r, db') \<and> r = Ok () \<and>
    tot_supply len_hash 1 (block_state_view (\<lambda>t. t) fkv_abs plain_script db') = 14"
proof -
  obtain r db' where run: "mint_sudt (block_state_ops (map_tree_ops (\<lambda>_. 0)) fkv_ops plain_script)
      len_hash 1 sample_holder 4 sample_ledger = (r, db')" by fastforce
  from mint_sudt_conserves [OF mtree.smt_contract_axioms ftx.tx_store_axioms sample_ledger_good
      sample_ledger_ok _ run] run
  show ?thesis by (simp add: Let_def sample_keys sample_ledger_view tot_supply_def)
qed


text \<open>
  C15. The account table stays a bijection: creating an account for a script hash on a block
  state returns the next id, with a zero nonce, the script hash under the id and the id under
  the script hash, and keeps that every id below the count and every registered script hash
  map to each other.
\<close>

theorem create_account_keeps_table:
  assumes "smt_contract S sem tgood root" and "tx_store K absf good sc"
    and "block_state_good tgood absf good sc db"
    and "accounts_ok b2b H (block_state_view sem absf sc db)" and "h \<in> H"
    and "create_account (block_state_ops S K sc) b2b h db = (Ok j, db')"
  shows "let v = block_state_view sem absf sc db; v' = block_state_view sem absf sc db' in
    accounts_ok b2b H v' \<and> j = vw_count v \<and> vw_count v' = vw_count v + 1 \<and>
    get_script_hash (view_ops root) j v' = (Ok h, v') \<and>
    get_account_id_by_script_hash (view_ops root) b2b h v' = (Ok (Some j), v') \<and>
    get_nonce (view_ops root) j v' = (Ok 0, v')"
proof -
  let ?v' = "block_state_view sem absf sc db'"
  note run = block_state.block_create_account [OF block_stateI [OF assms(1,2)] assms(3,6)]
  note post = create_account_accounts_ok [OF assms(4,5) run]
  have has: "vw_has ?v' k" for k by (simp add: block_state_view_def sdb_view_def)
  show ?thesis
    using post has
    by (auto simp: Let_def get_script_hash_view get_account_id_view get_nonce_view to_u32_0)
qed

theorem create_account_keeps_table_witness:
  "\<exists>j db'. create_account (block_state_ops (map_tree_ops (\<lambda>_. 0)) fkv_ops plain_script) len_hash 5
      empty_block_state = (Ok j, db') \<and> j = 0 \<and>
    vw_count (block_state_view (\<lambda>t. t) fkv_abs plain_script db') = 1"
proof -
  obtain r db' where run: "create_account (block_state_ops (map_tree_ops (\<lambda>_. 0)) fkv_ops plain_script)
      len_hash 5 empty_block_state = (r, db')" by fastforce
  have "r = Ok 0"
    using fbs.block_create_account [OF empty_block_state_good run]
    by (simp add: create_account_view empty_block_state_view Let_def checked_add_def)
  with create_account_keeps_table [OF mtree.smt_contract_axioms ftx.tx_store_axioms
      empty_block_state_good empty_accounts_ok, of 5 "\<lambda>_. 0"] run
  show ?thesis by (simp add: Let_def empty_block_state_view)
qed

text \<open>
  C14. The registry stays a partial bijection between script hashes and addresses: recording an
  address for a script hash never panics, rejects every argument that is not a 20-byte address
  of the Ethereum registry or a zero script hash, rejects a script hash or an address already
  recorded, and otherwise records both directions, so that each lookup then finds the other.
\<close>

theorem mapping_registry_bijection:
  assumes "smt_contract S sem tgood root" and "tx_store K absf good sc"
    and "block_state_good tgood absf good sc db"
    and "registry_ok b2b H A (block_state_view sem absf sc db)" and "h \<in> H" and "a \<in> A"
    and "mapping_registry_address_to_script_hash (block_state_ops S K sc) b2b a h db = (r, db')"
  shows "let v = block_state_view sem absf sc db; v' = block_state_view sem absf sc db' in
    registry_ok b2b H A v' \<and>
    r = (if \<not> eth_address a \<or> h = 0 then Err InvalidArgs
         else if vw_map v (reg_addr_key b2b h) \<noteq> 0 \<or> vw_map v (reg_hash_key b2b a) \<noteq> 0
         then Err DuplicatedRegistryAddress else Ok ()) \<and>
    (if r = Ok ()
     then get_script_hash_by_registry_address (view_ops root) b2b a v' = (Ok (Some h), v') \<and>
          get_registry_address_by_script_hash (view_ops root) b2b ETH_REGISTRY_ACCOUNT_ID h v' =
            (Ok (Some a), v')
     else v' = v)"
proof -
  let ?v = "block_state_view sem absf sc db" and ?v' = "block_state_view sem absf sc db'"
  note run = block_state.block_mapping_registry [OF block_stateI [OF assms(1,2)] assms(3,7)]
  note eq = run [unfolded mapping_registry_view [OF assms(4,5,6)]]
  have has: "vw_has ?v' k" for k by (simp add: block_state_view_def sdb_view_def)
  have ne: "reg_addr_key b2b h \<noteq> reg_hash_key b2b a"
    using assms(4,5,6) by (auto simp: registry_ok_def registry_keys_ok_def)
  have ok: "registry_ok b2b H A ?v'" by (rule mapping_registry_ok [OF assms(4,5,6) run])
  show ?thesis
  proof (cases "eth_address a \<and> h \<noteq> 0 \<and> vw_map ?v (reg_addr_key b2b h) = 0 \<and>
      vw_map ?v (reg_hash_key b2b a) = 0")
    case True
    then have r: "r = Ok ()"
      and v': "?v' = set_key (reg_hash_key b2b a) h (set_key (reg_addr_key b2b h) (reg_value a) ?v)"
      using eq by (auto dest: sym)
    have "vw_map ?v' (reg_hash_key b2b a) = h" "vw_map ?v' (reg_addr_key b2b h) = reg_value a"
      using ne by (simp_all add: v')
    then show ?thesis
      using True r ok has
      by (simp add: Let_def get_script_hash_by_registry_address_view
          get_registry_address_by_script_hash_view)
  qed (use eq ok in \<open>auto simp: Let_def split: if_splits\<close>)
qed


theorem mapping_registry_bijection_witness:
  "\<exists>r db'. mapping_registry_address_to_script_hash
      (block_state_ops (map_tree_ops (\<lambda>_. 0)) fkv_ops plain_script) len_hash sample_address 5
      empty_block_state = (r, db') \<and> r = Ok () \<and>
    fst (get_script_hash_by_registry_address (view_ops (\<lambda>_. 0)) len_hash sample_address
      (block_state_view (\<lambda>t. t) fkv_abs plain_script db')) = Ok (Some 5)"
proof -
  obtain r db' where run: "mapping_registry_address_to_script_hash
      (block_state_ops (map_tree_ops (\<lambda>_. 0)) fkv_ops plain_script) len_hash sample_address 5
      empty_block_state = (r, db')" by fastforce
  have "eth_address sample_address"
    by (simp add: eth_address_def sample_address_def ETH_REGISTRY_ACCOUNT_ID_def)
  with mapping_registry_bijection [OF mtree.smt_contract_axioms ftx.tx_store_axioms
      empty_block_state_good empty_registry_ok _ _ run] run
  show ?thesis by (simp add: Let_def empty_block_state_view)
qed

section \<open>History\<close>

text \<open>
  C25. A historical read returns the value the key had at that block: the value written by the
  last block at or before the one asked for, and none when no such block wrote the key. The
  read seeks in the byte order of the reverse records and never panics on a well-formed store.
\<close>

theorem history_read_is_latest:
  assumes "tx_store K absf good sc" and "tx_good good absf sc s"
  shows "tx_get_history_state K n k s = Ok (latest (hist_of (absf s)) n k)"
proof -
  have "rocks_contract K absf good" using assms(1) by (rule tx_store.axioms(1))
  from rocks_contract.get_history_state_latest [OF this] show ?thesis
    using assms(2) by (simp add: tx_good_def)
qed

theorem history_read_is_latest_witness:
  "tx_get_history_state fkv_ops 9 5 (snd (tx_record_block_state fkv_ops 3 5 8 (\<lambda>_. fmempty))) = Ok (Some 8)"
proof -
  let ?s = "snd (tx_record_block_state fkv_ops 3 5 8 (\<lambda>_. fmempty))"
  obtain s' where s': "tx_record_block_state fkv_ops 3 5 8 (\<lambda>_. fmempty) = (Ok (), s')"
    "tx_good (\<lambda>_. True) fkv_abs plain_script s'"
    "hist_of (fkv_abs s') = (hist_of (fkv_abs (\<lambda>_. fmempty)))(3 := (hist_of (fkv_abs (\<lambda>_. fmempty)) 3)(5 := Some 8))"
    using ftx.record_run [OF empty_store_good, of 3 5 8] by blast
  have "latest (hist_of (fkv_abs s')) 9 5 = Some 8"
    by (rule latest_SomeI [of 3]) (simp_all add: s'(3) hist_of_def)
  then show ?thesis
    using history_read_is_latest [OF ftx.tx_store_axioms s'(2), of 9 5] s'(1) by simp
qed

text \<open>
  C4. Attaching a block's writes and detaching the block is the identity: starting from a tree
  in step with the records of the parent block, any writes made while attaching block \<open>n\<close>
  followed by \<open>detach_block_state\<close> succeed and give back the tree contents and the records.
\<close>

theorem detach_undoes_attach:
  assumes "smt_contract S sem tgood root" and "tx_store K absf good sc"
    and "tgood (hi_tree h)" and "tx_good good absf sc (hi_db h)" and "n \<noteq> 0"
    and "hi_rw_config h = rw_attach_block n" and "hist_of (absf (hi_db h)) n = (\<lambda>_. None)"
    and "synced (hist_of (absf (hi_db h))) (sem (hi_tree h)) (n - 1)"
  shows "\<exists>h1 h2. sfor kvs (\<lambda>(k, v). history_update_raw S (tx_history_ops K sc) k v) h = (Ok (), h1) \<and>
    detach_block_state S (tx_history_ops K sc) n (h1\<lparr> hi_rw_config := rw_detach_block \<rparr>) = (Ok (), h2) \<and>
    sem (hi_tree h2) = sem (hi_tree h) \<and>
    hist_of (absf (hi_db h2)) = hist_of (absf (hi_db h)) \<and> tx_good good absf sc (hi_db h2)"
  by (rule block_state.attach_detach [OF block_stateI [OF assms(1,2)] assms(3-)])

theorem detach_undoes_attach_witness:
  "\<exists>h1 h2. sfor [(1, 5), (2, 6), (1, 7)] (\<lambda>(k, v). history_update_raw (map_tree_ops (\<lambda>_. 0))
      (tx_history_ops fkv_ops plain_script) k v) (sd_state empty_block_state) = (Ok (), h1) \<and>
    detach_block_state (map_tree_ops (\<lambda>_. 0)) (tx_history_ops fkv_ops plain_script) 1
      (h1\<lparr> hi_rw_config := rw_detach_block \<rparr>) = (Ok (), h2) \<and> hi_tree h2 = (\<lambda>_. 0)"
proof -
  have "synced (hist_of (fkv_abs (\<lambda>_. fmempty))) (\<lambda>_. 0) (1 - 1)"
    by (simp add: synced_def latest_def hist_of_def)
  moreover have "hist_of (fkv_abs (\<lambda>_. fmempty)) 1 = (\<lambda>_. None)" by (simp add: hist_of_def fun_eq_iff)
  ultimately show ?thesis
    using detach_undoes_attach [OF mtree.smt_contract_axioms ftx.tx_store_axioms,
        of "sd_state empty_block_state" 1 "[(1, 5), (2, 6), (1, 7)]" "\<lambda>_. 0"]
      empty_store_good by (auto simp: empty_block_state_def)
qed

text \<open>
  C35. A state opened read-only or for history still changes its tree on a write: the update is
  refused with an error, but only after the tree has been updated.
\<close>

theorem denied_write_changes_tree:
  assumes "smt_contract S sem tgood root" and "tgood (hi_tree h)"
    and "rw_write (hi_rw_config h) = Deny"
  shows "\<exists>h'. history_update_raw S D k v h = (Err Store, h') \<and>
    sem (hi_tree h') = (sem (hi_tree h))(k := v)"
proof -
  obtain t' where "smt_update S k v (hi_tree h) = (Ok (), t')" "sem t' = (sem (hi_tree h))(k := v)"
    using smt_contract.update_sem [OF assms(1,2)] by blast
  then show ?thesis
    using assms(3) by (simp add: history_update_raw_def sbind_run on_tree_def)
qed

theorem denied_write_changes_tree_witness:
  "\<exists>h'. history_update_raw (map_tree_ops (\<lambda>_. 0)) (tx_history_ops fkv_ops plain_script) 1 5
      ((sd_state empty_block_state)\<lparr> hi_rw_config := rw_readonly \<rparr>) = (Err Store, h') \<and> hi_tree h' 1 = 5"
  using denied_write_changes_tree [OF mtree.smt_contract_axioms,
      of "(sd_state empty_block_state)\<lparr> hi_rw_config := rw_readonly \<rparr>" "\<lambda>_. 0"
      "tx_history_ops fkv_ops plain_script" 1 5]
  by (auto simp: rw_readonly_def)

end
