(* ===== verification/Gw_Tx.thy ===== *)
theory Gw_Tx
  imports Gw_StateDB
begin

text \<open>
  What a transaction costs and logs: the Polyjuice argument parser
  (\<open>crates/utils/src/polyjuice_parser.rs\<close>), the typed transactions and their costs
  (\<open>crates/generator/src/typed_transaction/types.rs\<close>), contract logs
  (\<open>crates/utils/src/script_log.rs\<close>) and the cycle accounting of the generator.

  The readers of the packed contract arguments are generated code and enter as the record
  \<open>tx_readers\<close>.
\<close>

section \<open>Byte ranges\<close>

text \<open>\<open>xs[a..b]\<close>, and the two ways Rust takes it: \<open>get\<close> and indexing.\<close>

definition range_get :: "nat \<Rightarrow> nat \<Rightarrow> bytes \<Rightarrow> bytes option" where
  "range_get a b xs = (if a \<le> b \<and> b \<le> length xs then Some (byte_range a b xs) else None)"

definition range_index :: "nat \<Rightarrow> nat \<Rightarrow> bytes \<Rightarrow> ('e, bytes) outcome" where
  "range_index a b xs = or_panic (range_get a b xs)"

section \<open>Polyjuice arguments\<close>

definition polyjuice_magic :: bytes where
  "polyjuice_magic = [0xff, 0xff, 0xff, 0x50, 0x4f, 0x4c, 0x59]"

definition poly_data_size :: "bytes \<Rightarrow> nat" where
  "poly_data_size p = unat (from_le_bytes (byte_range 48 52 p) :: u32)"

definition poly_from_raw_l2_tx :: "raw_l2transaction \<Rightarrow> bytes option" where
  "poly_from_raw_l2_tx raw_tx = (
     let args = rtx_args raw_tx; args_len = length args in
     if args_len < 52 then None
     else if byte_range 0 7 args \<noteq> polyjuice_magic then None
     else let data_size = poly_data_size args in
       if args_len \<noteq> 52 + data_size \<and> args_len \<noteq> 52 + data_size + 20 then None
       else Some args)"

definition poly_gas :: "bytes \<Rightarrow> u64" where
  "poly_gas p = from_le_bytes (byte_range 8 16 p)"

definition poly_gas_price :: "bytes \<Rightarrow> u128" where
  "poly_gas_price p = from_le_bytes (byte_range 16 32 p)"

definition poly_is_create :: "bytes \<Rightarrow> bool" where
  "poly_is_create p \<longleftrightarrow> p ! 7 = 3"

definition poly_is_call :: "bytes \<Rightarrow> bool" where
  "poly_is_call p \<longleftrightarrow> p ! 7 = 0"

definition poly_value :: "bytes \<Rightarrow> u128" where
  "poly_value p = from_le_bytes (byte_range 32 48 p)"

definition poly_data :: "bytes \<Rightarrow> bytes" where
  "poly_data p = byte_range 52 (52 + poly_data_size p) p"

definition poly_to_address :: "bytes \<Rightarrow> bytes option" where
  "poly_to_address p = (
     if length p = 52 + poly_data_size p + 20
     then let idx = 52 + poly_data_size p in Some (byte_range idx (idx + 20) p)
     else None)"

definition poly_is_native_transfer :: "bytes \<Rightarrow> bool" where
  "poly_is_native_transfer p \<longleftrightarrow> poly_is_call p \<and> poly_to_address p \<noteq> None"

section \<open>Typed transactions\<close>

text \<open>The fields of the packed argument unions that the generator reads.\<close>

record fee =
  fee_registry_id :: u32
  fee_amount :: u128

datatype eth_addr_reg_args = EthToGw | GwToEth | SetMapping fee | BatchSetMapping fee
datatype meta_contract_args = CreateAccount fee | BatchCreateEthAccounts fee
datatype sudt_args = SUDTQuery bytes | SUDTTransfer bytes u256 fee

record tx_readers =
  read_eth_addr_reg_args :: "bytes \<Rightarrow> eth_addr_reg_args option"
  read_meta_contract_args :: "bytes \<Rightarrow> meta_contract_args option"
  read_sudt_args :: "bytes \<Rightarrow> sudt_args option"

datatype typed_raw_transaction =
    TyEthAddrReg raw_l2transaction
  | TyMeta raw_l2transaction
  | TySimpleUDT raw_l2transaction
  | TyPolyjuice raw_l2transaction

fun typed_from_tx :: "raw_l2transaction \<Rightarrow> allowed_contract_type \<Rightarrow> typed_raw_transaction option" where
  "typed_from_tx raw_tx ContractEthAddrReg = Some (TyEthAddrReg raw_tx)"
| "typed_from_tx raw_tx ContractMeta = Some (TyMeta raw_tx)"
| "typed_from_tx raw_tx ContractSudt = Some (TySimpleUDT raw_tx)"
| "typed_from_tx raw_tx ContractPolyjuice = Some (TyPolyjuice raw_tx)"
| "typed_from_tx raw_tx ContractUnknown = None"

definition eth_addr_reg_consumed :: "tx_readers \<Rightarrow> raw_l2transaction \<Rightarrow> u256 option" where
  "eth_addr_reg_consumed R raw_tx = Option.bind (read_eth_addr_reg_args R (rtx_args raw_tx)) (\<lambda>args.
     case args of EthToGw \<Rightarrow> None | GwToEth \<Rightarrow> None
     | SetMapping f \<Rightarrow> Some (ucast (fee_amount f))
     | BatchSetMapping f \<Rightarrow> Some (ucast (fee_amount f)))"

definition meta_consumed :: "tx_readers \<Rightarrow> raw_l2transaction \<Rightarrow> u256 option" where
  "meta_consumed R raw_tx = Option.bind (read_meta_contract_args R (rtx_args raw_tx)) (\<lambda>args.
     case args of CreateAccount f \<Rightarrow> Some (ucast (fee_amount f))
     | BatchCreateEthAccounts f \<Rightarrow> Some (ucast (fee_amount f)))"

definition simple_udt_consumed :: "tx_readers \<Rightarrow> raw_l2transaction \<Rightarrow> u256 option" where
  "simple_udt_consumed R raw_tx = Option.bind (read_sudt_args R (rtx_args raw_tx)) (\<lambda>args.
     case args of SUDTQuery _ \<Rightarrow> None
     | SUDTTransfer _ _ f \<Rightarrow> Some (ucast (fee_amount f)))"

definition simple_udt_cost :: "tx_readers \<Rightarrow> raw_l2transaction \<Rightarrow> u256 option" where
  "simple_udt_cost R raw_tx = Option.bind (read_sudt_args R (rtx_args raw_tx)) (\<lambda>args.
     case args of SUDTQuery _ \<Rightarrow> None
     | SUDTTransfer _ amount f \<Rightarrow>
         if rtx_to_id raw_tx = CKB_SUDT_ACCOUNT_ID
         then checked_add amount (ucast (fee_amount f))
         else Some (ucast (fee_amount f)))"

definition polyjuice_cost :: "raw_l2transaction \<Rightarrow> u256 option" where
  "polyjuice_cost raw_tx = (case poly_from_raw_l2_tx raw_tx of
      None \<Rightarrow> None
    | Some p \<Rightarrow>
        Option.bind (checked_mul (poly_gas_price p) (ucast (poly_gas p))) (\<lambda>fee.
        Option.bind (checked_add (poly_value p) fee) (\<lambda>cost. Some (ucast cost))))"

fun typed_cost :: "tx_readers \<Rightarrow> typed_raw_transaction \<Rightarrow> u256 option" where
  "typed_cost R (TyEthAddrReg tx) = eth_addr_reg_consumed R tx"
| "typed_cost R (TyMeta tx) = meta_consumed R tx"
| "typed_cost R (TySimpleUDT tx) = simple_udt_cost R tx"
| "typed_cost R (TyPolyjuice tx) = polyjuice_cost tx"

definition MIN_TX_GAS :: u64 where "MIN_TX_GAS = 21000"
definition MIN_CONTRACT_CREATION_TX_GAS :: u64 where "MIN_CONTRACT_CREATION_TX_GAS = 53000"
definition DATA_NONE_ZERO_GAS :: u64 where "DATA_NONE_ZERO_GAS = 16"
definition DATA_ZERO_GAS :: u64 where "DATA_ZERO_GAS = 4"

definition intrinsic_gas :: "raw_l2transaction \<Rightarrow> u64 option" where
  "intrinsic_gas raw_tx = Option.bind (poly_from_raw_l2_tx raw_tx) (\<lambda>p.
     let gas = (if poly_is_create p then MIN_CONTRACT_CREATION_TX_GAS else MIN_TX_GAS) in
     if poly_data_size p > 0
     then let non_zeros = of_nat (length (filter (\<lambda>b. b \<noteq> 0) (poly_data p))) in
       Option.bind (checked_mul non_zeros DATA_NONE_ZERO_GAS) (\<lambda>g1.
       Option.bind (checked_add gas g1) (\<lambda>gas.
         let zeros = of_nat (poly_data_size p) - non_zeros in
         Option.bind (checked_mul zeros DATA_ZERO_GAS) (\<lambda>g2. checked_add gas g2)))
     else Some gas)"

section \<open>Contract logs\<close>

definition GW_LOG_SUDT_TRANSFER :: u8 where "GW_LOG_SUDT_TRANSFER = 0"
definition GW_LOG_SUDT_PAY_FEE :: u8 where "GW_LOG_SUDT_PAY_FEE = 1"
definition GW_LOG_POLYJUICE_SYSTEM :: u8 where "GW_LOG_POLYJUICE_SYSTEM = 2"
definition GW_LOG_POLYJUICE_USER :: u8 where "GW_LOG_POLYJUICE_USER = 3"

datatype gw_log =
    SudtTransfer u32 registry_address registry_address u256
  | SudtPayFee u32 registry_address registry_address u256
  | PolyjuiceSystem u64 u64 bytes u32
  | PolyjuiceUser bytes bytes "h256 list"

datatype log_error = ShortSudtLog | BadFromAddress | BadToAddress | BadDataLength | BadDataSize
  | BadTopics | TooManyBytes | BadServiceFlag

text \<open>The \<open>get(start + 4..start + 8)\<close> that gives the size of an address field.\<close>

definition address_field_end :: "nat \<Rightarrow> bytes \<Rightarrow> (log_error, nat) outcome" where
  "address_field_end start data =
     obind (ok_or ShortSudtLog (range_get (start + 4) (start + 8) data)) (\<lambda>bs.
       Ok (start + (if (from_le_bytes bs :: u32) = 0 then 8 else 28)))"

definition parse_sudt_log_data ::
  "bytes \<Rightarrow> (log_error, registry_address \<times> registry_address \<times> u256) outcome" where
  "parse_sudt_log_data data =
     obind (address_field_end 0 data) (\<lambda>end1.
     obind (ok_or ShortSudtLog (range_get 0 end1 data)) (\<lambda>bs.
     obind (ok_or BadFromAddress (from_slice bs)) (\<lambda>from_address.
     obind (address_field_end end1 data) (\<lambda>end2.
     obind (ok_or ShortSudtLog (range_get end1 end2 data)) (\<lambda>bs.
     obind (ok_or BadToAddress (from_slice bs)) (\<lambda>to_address.
     obind (ok_or ShortSudtLog (range_get end2 (end2 + 32) data)) (\<lambda>bs.
       Ok (from_address, to_address, from_le_bytes bs))))))))"

fun parse_topics :: "nat \<Rightarrow> nat \<Rightarrow> bytes \<Rightarrow> (log_error, h256 list \<times> nat) outcome" where
  "parse_topics 0 offset data = Ok ([], offset)"
| "parse_topics (Suc n) offset data = (
     if length data < offset + 32 then Err BadTopics
     else obind (parse_topics n (offset + 32) data) (\<lambda>(topics, end_offset).
       Ok (h256_of_bytes (byte_range offset (offset + 32) data) # topics, end_offset)))"

definition parse_user_log :: "bytes \<Rightarrow> (log_error, gw_log) outcome" where
  "parse_user_log data = (
     if length data < 24 then Err BadDataLength
     else let data_size = unat (from_le_bytes (byte_range 20 24 data) :: u32) in
       if length data < 24 + data_size then Err BadDataSize
       else let offset = 24 + data_size in
         obind (range_index offset (offset + 4) data) (\<lambda>bs.
         let topics_count = unat (from_le_bytes bs :: u32) in
         obind (parse_topics topics_count (offset + 4) data) (\<lambda>(topics, end_offset).
           if end_offset \<noteq> length data then Err TooManyBytes
           else Ok (PolyjuiceUser (byte_range 0 20 data) (byte_range 24 (24 + data_size) data) topics))))"

definition parse_log :: "log_item \<Rightarrow> (log_error, gw_log) outcome" where
  "parse_log item = (
     let service_flag = li_service_flag item; data = li_data item; n = length data in
     if service_flag = GW_LOG_SUDT_TRANSFER then
       (if n \<noteq> 88 \<and> n \<noteq> 68 \<and> n \<noteq> 48 then Err BadDataLength
        else obind (parse_sudt_log_data data) (\<lambda>(from, to, amount).
          Ok (SudtTransfer (li_account_id item) from to amount)))
     else if service_flag = GW_LOG_SUDT_PAY_FEE then
       (if n \<noteq> 88 \<and> n \<noteq> 68 \<and> n \<noteq> 48 then Err BadDataLength
        else obind (parse_sudt_log_data data) (\<lambda>(from, to, amount).
          Ok (SudtPayFee (li_account_id item) from to amount)))
     else if service_flag = GW_LOG_POLYJUICE_SYSTEM then
       (if n \<noteq> 8 + 8 + 20 + 4 then Err BadDataLength
        else Ok (PolyjuiceSystem (from_le_bytes (byte_range 0 8 data))
          (from_le_bytes (byte_range 8 16 data)) (byte_range 16 36 data)
          (from_le_bytes (byte_range 36 40 data))))
     else if service_flag = GW_LOG_POLYJUICE_USER then parse_user_log data
     else Err BadServiceFlag)"

definition generate_polyjuice_system_log ::
  "u32 \<Rightarrow> u64 \<Rightarrow> u64 \<Rightarrow> bytes \<Rightarrow> u32 \<Rightarrow> log_item" where
  "generate_polyjuice_system_log account_id gas_used cumulative_gas_used created_address status_code = (
     let data = replicate 40 0;
         data = copy_at 0 (to_le_bytes 8 gas_used) data;
         data = copy_at 8 (to_le_bytes 8 cumulative_gas_used) data;
         data = copy_at 16 created_address data;
         data = copy_at 36 (to_le_bytes 4 status_code) data
     in \<lparr> li_account_id = account_id, li_service_flag = GW_LOG_POLYJUICE_SYSTEM, li_data = data \<rparr>)"

definition read_polyjuice_gas_used :: "log_item \<Rightarrow> ('e, u64 option) outcome" where
  "read_polyjuice_gas_used system_log = (case parse_log system_log of
      Ok (PolyjuiceSystem gas_used _ _ _) \<Rightarrow> Ok (Some gas_used)
    | Ok _ \<Rightarrow> Ok None
    | Err _ \<Rightarrow> Ok None
    | Panic \<Rightarrow> Panic)"

section \<open>Cycles\<close>

record cycle_meter =
  cm_execution :: u64
  cm_virtual :: u64

definition cm_total :: "cycle_meter \<Rightarrow> u64" where
  "cm_total c = saturating_add (cm_execution c) (cm_virtual c)"

text \<open>The table of syscall costs of the pool is only handed to the syscalls.\<close>

record cycles_pool =
  cp_limit :: u64
  cp_available_cycles :: u64

definition cycles_pool_new :: "u64 \<Rightarrow> cycles_pool" where
  "cycles_pool_new limit = \<lparr> cp_limit = limit, cp_available_cycles = limit \<rparr>"

definition cycles_used :: "cycles_pool \<Rightarrow> ('e, u64) outcome" where
  "cycles_used p = sub_or_panic (cp_limit p) (cp_available_cycles p)"

definition consume_cycles :: "u64 \<Rightarrow> cycles_pool \<Rightarrow> u64 option \<times> cycles_pool" where
  "consume_cycles cycles p = (
     let opt_available_cycles = checked_sub (cp_available_cycles p) cycles in
     (opt_available_cycles, p\<lparr> cp_available_cycles :=
        (case opt_available_cycles of Some c \<Rightarrow> c | None \<Rightarrow> 0) \<rparr>))"


section \<open>Round trip of the system log\<close>

lemma byte_range_append:
  "a = length xs \<Longrightarrow> b = a + length ys \<Longrightarrow> byte_range a b (xs @ ys @ zs) = ys"
  by (simp add: byte_range_def)

lemma system_log_data:
  assumes "length addr = 20"
  shows "li_data (generate_polyjuice_system_log i g c addr st) =
    to_le_bytes 8 g @ to_le_bytes 8 c @ addr @ to_le_bytes 4 st"
  using assms by (simp add: generate_polyjuice_system_log_def Let_def copy_at_def)

text \<open>
  C36. The system log the generator writes for a failed Polyjuice transaction parses back to the
  gas, address and status it was made from, so the gas the fee is computed from is the gas used.
\<close>

theorem system_log_round_trip:
  assumes "length addr = 20"
  shows "parse_log (generate_polyjuice_system_log i g c addr st) = Ok (PolyjuiceSystem g c addr st) \<and>
    read_polyjuice_gas_used (generate_polyjuice_system_log i g c addr st) = (Ok (Some g) :: (log_error, u64 option) outcome)"
proof -
  let ?d = "to_le_bytes 8 g @ to_le_bytes 8 c @ addr @ to_le_bytes 4 st"
  have "byte_range 0 8 ?d = to_le_bytes 8 g" "byte_range 8 16 ?d = to_le_bytes 8 c"
    "byte_range 16 36 ?d = addr" "byte_range 36 40 ?d = to_le_bytes 4 st"
    using assms by (simp_all add: byte_range_def)
  then have "parse_log (generate_polyjuice_system_log i g c addr st) = Ok (PolyjuiceSystem g c addr st)"
    using assms system_log_data [OF assms, of i g c st]
    by (simp add: parse_log_def Let_def from_to_le_bytes generate_polyjuice_system_log_def
        GW_LOG_SUDT_TRANSFER_def GW_LOG_SUDT_PAY_FEE_def GW_LOG_POLYJUICE_SYSTEM_def)
  then show ?thesis by (simp add: read_polyjuice_gas_used_def)
qed

theorem system_log_round_trip_witness:
  "parse_log (generate_polyjuice_system_log 7 21000 21000 (replicate 20 0) (- 1)) =
     Ok (PolyjuiceSystem 21000 21000 (replicate 20 0) (- 1))"
  using system_log_round_trip [of "replicate 20 0" 7 21000 21000 "- 1"] by simp

text \<open>
  C37. Parsing a Polyjuice user log panics exactly when the bytes end inside the topic count: a
  log whose data field is complete but which is followed by fewer than four bytes indexes past
  the end instead of returning an error. Every other malformed log gives an error.
\<close>

lemma parse_topics_no_panic: "parse_topics n offset data \<noteq> Panic"
  by (induction n offset data rule: parse_topics.induct)
    (auto split: prod.splits elim!: obind.elims)


section \<open>Costs\<close>

lemma unat_checked_mul: "checked_mul a b = Some c \<Longrightarrow> unat c = unat a * unat b"
  using unat_mult_lem [THEN iffD1, of a b] by (auto simp: checked_mul_def split: if_splits)

lemma checked_mul_Some:
  "unat a * unat b < 2 ^ LENGTH('a) \<Longrightarrow> \<exists>c. checked_mul a b = Some c \<and> unat c = unat a * unat b"
  for a b :: "'a::len word"
  by (rule exI [of _ "a * b"]) (simp add: checked_mul_def unat_mult_lem [THEN iffD1])

lemma checked_add_Some:
  "unat a + unat b < 2 ^ LENGTH('a) \<Longrightarrow> \<exists>c. checked_add a b = Some c \<and> unat c = unat a + unat b"
  for a b :: "'a::len word"
  by (rule exI [of _ "a + b"]) (simp add: checked_add_def unat_add_lem [THEN iffD1])

lemma unat_of_nat_small: "n < 2 ^ LENGTH('a) \<Longrightarrow> unat (of_nat n :: 'a::len word) = n"
  by (simp add: unsigned_of_nat take_bit_nat_eq_self)

lemma poly_parsed:
  assumes "poly_from_raw_l2_tx tx = Some p"
  shows "52 \<le> length p \<and> 52 + poly_data_size p \<le> length p \<and> p = rtx_args tx"
  using assms by (auto simp: poly_from_raw_l2_tx_def Let_def split: if_splits)


definition sample_poly_tx :: raw_l2transaction where
  "sample_poly_tx = \<lparr> rtx_chain_id = 1, rtx_from_id = 3, rtx_to_id = 4, rtx_nonce = 0,
     rtx_args = polyjuice_magic @ [0] @ to_le_bytes 8 (21000 :: u64) @ to_le_bytes 16 (2 :: u128) @
       to_le_bytes 16 (5 :: u128) @ to_le_bytes 4 (0 :: u32) \<rparr>"

lemma sample_poly_fields:
  "poly_from_raw_l2_tx sample_poly_tx = Some (rtx_args sample_poly_tx)"
  "poly_gas (rtx_args sample_poly_tx) = 21000" "poly_gas_price (rtx_args sample_poly_tx) = 2"
  "poly_value (rtx_args sample_poly_tx) = 5" "poly_data_size (rtx_args sample_poly_tx) = 0"
  by (simp_all add: sample_poly_tx_def poly_from_raw_l2_tx_def Let_def poly_data_size_def
      poly_gas_def poly_gas_price_def poly_value_def byte_range_def polyjuice_magic_def
      from_to_le_bytes)


text \<open>
  C39. The intrinsic gas of a Polyjuice transaction is always defined and is 21000 (53000 for a
  contract creation) plus 16 per non-zero and 4 per zero byte of its data: the checked 64-bit
  arithmetic never overflows and the subtraction that counts the zero bytes never underflows.
\<close>

theorem intrinsic_gas_defined:
  assumes "poly_from_raw_l2_tx tx = Some p"
  shows "\<exists>g. intrinsic_gas tx = Some g \<and>
    unat g = (if poly_is_create p then 53000 else 21000) +
      16 * length (filter (\<lambda>b. b \<noteq> 0) (poly_data p)) + 4 * length (filter (\<lambda>b. b = 0) (poly_data p))"
proof -
  let ?nz = "length (filter (\<lambda>b. b \<noteq> 0) (poly_data p))"
  let ?z = "length (filter (\<lambda>b. b = 0) (poly_data p))"
  have len: "length (poly_data p) = poly_data_size p"
    using poly_parsed [OF assms] unfolding poly_data_def byte_range_def by auto
  have sum: "?nz + ?z = poly_data_size p"
    using sum_length_filter_compl [of "\<lambda>b. b \<noteq> 0" "poly_data p"] len by simp
  have small: "poly_data_size p < 2 ^ 32"
    using unat_less [of "from_le_bytes (byte_range 48 52 p) :: u32"] by (simp add: poly_data_size_def)
  let ?n = "of_nat ?nz :: u64"
  have nz: "unat ?n = ?nz" using sum small by (simp add: unat_of_nat_small)
  have ds: "unat (of_nat (poly_data_size p) :: u64) = poly_data_size p"
    using small by (simp add: unat_of_nat_small)
  have z: "unat (of_nat (poly_data_size p) - ?n) = ?z"
    using sum nz ds by (simp add: unat_sub word_le_nat_alt)
  let ?b = "if poly_is_create p then MIN_CONTRACT_CREATION_TX_GAS else MIN_TX_GAS"
  have b: "unat ?b = (if poly_is_create p then 53000 else 21000)"
    by (simp add: MIN_CONTRACT_CREATION_TX_GAS_def MIN_TX_GAS_def)
  obtain g1 where g1: "checked_mul ?n DATA_NONE_ZERO_GAS = Some g1" "unat g1 = ?nz * 16"
    using checked_mul_Some [of ?n DATA_NONE_ZERO_GAS] sum small nz by (auto simp: DATA_NONE_ZERO_GAS_def)
  obtain g2 where g2: "checked_add ?b g1 = Some g2" "unat g2 = unat ?b + ?nz * 16"
    using checked_add_Some [of ?b g1] sum small b g1(2) by (auto split: if_splits)
  obtain g3 where g3: "checked_mul (of_nat (poly_data_size p) - ?n) DATA_ZERO_GAS = Some g3"
    "unat g3 = ?z * 4"
    using checked_mul_Some [of "of_nat (poly_data_size p) - ?n" DATA_ZERO_GAS] sum small z
    by (auto simp: DATA_ZERO_GAS_def)
  obtain g4 where g4: "checked_add g2 g3 = Some g4" "unat g4 = unat ?b + ?nz * 16 + ?z * 4"
    using checked_add_Some [of g2 g3] sum small b g2(2) g3(2) by (auto split: if_splits)
  show ?thesis
  proof (cases "poly_data_size p > 0")
    case True
    then have "intrinsic_gas tx = Some g4"
      using assms g1(1) g2(1) g3(1) g4(1) by (simp add: intrinsic_gas_def Let_def)
    then show ?thesis using g4(2) b by (simp add: mult.commute)
  next
    case False
    then have "intrinsic_gas tx = Some ?b" using assms by (simp add: intrinsic_gas_def Let_def)
    then show ?thesis using b sum False by simp
  qed
qed

theorem intrinsic_gas_defined_witness:
  "\<exists>g. intrinsic_gas sample_poly_tx = Some g \<and> unat g = 21000"
proof -
  have "poly_data (rtx_args sample_poly_tx) = []"
    by (simp add: poly_data_def sample_poly_fields byte_range_def)
  moreover have "\<not> poly_is_create (rtx_args sample_poly_tx)"
    by (simp add: poly_is_create_def sample_poly_tx_def polyjuice_magic_def)
  ultimately show ?thesis using intrinsic_gas_defined [OF sample_poly_fields(1)] by simp
qed

section \<open>The cycles pool\<close>

text \<open>
  C40. Cycle accounting is exact: starting from a fresh pool, after any sequence of consumptions
  the cycles used are the sum of the amounts, capped by the limit; reading them never panics,
  and a consumption is refused exactly when it would pass the limit.
\<close>

definition consume_all :: "u64 list \<Rightarrow> cycles_pool \<Rightarrow> cycles_pool" where
  "consume_all cs p = fold (\<lambda>c p. snd (consume_cycles c p)) cs p"

lemma unat_saturating_minus: "unat (saturating_sub a b) = unat a - unat b"
  by (auto simp: saturating_sub_def checked_sub_def unat_sub word_le_nat_alt)

lemma consume_cycles_step:
  "snd (consume_cycles c p) = p\<lparr> cp_available_cycles := saturating_sub (cp_available_cycles p) c \<rparr>"
  "fst (consume_cycles c p) = None \<longleftrightarrow> unat (cp_available_cycles p) < unat c"
  by (auto simp: consume_cycles_def Let_def saturating_sub_def checked_sub_def word_le_nat_alt)

lemma consume_all_available:
  "cp_limit (consume_all cs p) = cp_limit p \<and>
   unat (cp_available_cycles (consume_all cs p)) = unat (cp_available_cycles p) - sum_list (map unat cs)"
proof (induction cs arbitrary: p)
  case (Cons c cs)
  then show ?case
    by (simp add: consume_all_def consume_cycles_step unat_saturating_minus)
qed (simp add: consume_all_def)

theorem cycles_used_exact:
  "let p = consume_all cs (cycles_pool_new limit); total = sum_list (map unat cs) in
   (\<exists>u. cycles_used p = (Ok u :: ('e, u64) outcome) \<and> unat u = min (unat limit) total) \<and>
   (fst (consume_cycles c p) = None \<longleftrightarrow> unat limit < min (unat limit) total + unat c)"
proof -
  let ?p = "consume_all cs (cycles_pool_new limit)" and ?t = "sum_list (map unat cs)"
  have p: "cp_limit ?p = limit" "unat (cp_available_cycles ?p) = unat limit - ?t"
    using consume_all_available [of cs "cycles_pool_new limit"] by (simp_all add: cycles_pool_new_def)
  then have le: "cp_available_cycles ?p \<le> limit" by (simp add: word_le_nat_alt)
  have "unat (limit - cp_available_cycles ?p) = min (unat limit) ?t"
    using p le by (simp add: unat_sub)
  moreover have "cycles_used ?p = (Ok (limit - cp_available_cycles ?p) :: ('e, u64) outcome)"
    using p le by (simp add: cycles_used_def sub_or_panic_def or_panic_def checked_sub_def)
  moreover have "fst (consume_cycles c ?p) = None \<longleftrightarrow> unat limit < min (unat limit) ?t + unat c"
    using p by (auto simp: consume_cycles_step)
  ultimately show ?thesis by (simp add: Let_def)
qed

end
