(* ===== verification/Gw_StateExt.thy ===== *)
theory Gw_StateExt
  imports Gw_Rollup_State Gw_Block_State Gw_Tx
begin

text \<open>
  The generator's extension of the account state (\<open>crates/generator/src/traits.rs\<close>): account
  creation from a script, fee payment, deposits and withdrawals, with the errors of
  \<open>crates/generator/src/error.rs\<close>.

  The theory shows what each operation does to a state that satisfies \<open>state_ok\<close>: the tokens a
  deposit mints and a withdrawal burns are exactly the capacity and amount of the request, and
  the whole invariant is kept.
\<close>

section \<open>Errors\<close>

datatype transaction_error =
    TxInvalidExitCode "8 word"
  | TxVM string
  | TxSMT string
  | TxNonce u32 u32 u32
  | TxState common_error
  | TxBackendNotFound h256
  | TxExceededMaxTotalReadData nat nat
  | TxExceededMaxWriteData nat nat
  | TxInvalidSUDTProxyCreatorAccount u32
  | TxInvalidContractCreatorAccount string u32
  | TxBackendMustIncreaseNonce
  | TxScriptHashNotFound
  | TxExceededMaxTxSize nat nat
  | TxInsufficientBalance
  | TxNoCost
  | TxNonceOverflow
  | TxIntrinsicGas string
  | TxInsufficientPoolCycles cycle_meter u64
  | TxExceededMaxBlockCycles cycle_meter u64
  | TxUtf8Error string
  | TxNativeTransferInvalidToId u32
  | TxPolyjuiceCreatorIdNotFound
  | TxUnknownTxType "8 word"

datatype lock_algorithm_error = InvalidLockArgs | InvalidSignature string | UnknownAccountLock
  | InvalidTransactionArgs

datatype deposit_error = DepositFakedCKB | DepositUnknownEoALock

datatype withdrawal_error =
    Overdraft
  | WithdrawalNonce u32 u32
  | WithdrawFakedCKB
  | NonPositiveSUDTAmount
  | OwnerLock h256
  | InsufficientCapacity u128 u64
  | ExceededMaxWithdrawalSize nat nat
  | NonceOverflow

datatype account_error =
    InvalidSUDTOperation | UnknownSUDT | UnknownAccount | UnknownScript | ScriptNotFound u32
  | RegistryAddressNotFound

datatype block_error =
    InvalidCheckpoint h256 h256 nat | CheckpointNotFound nat | BlockProducerNotExists

datatype generator_error =
    GTransaction transaction_error | GState common_error | GAccount account_error
  | GUnlock lock_algorithm_error | GDeposit deposit_error | GWithdrawal withdrawal_error
  | GBlock block_error

section \<open>The context and the state trait\<close>

record rollup_context =
  rx_rollup_script_hash :: h256
  rx_rollup_config :: rollup_config
  rx_fork_config :: fork_config

text \<open>\<open>State + CodeStore + JournalDB\<close>, of which \<open>StateExt\<close> calls \<open>finalise\<close>.\<close>

record 's finalise_ops = "'s code_state_ops" +
  jd_finalise :: "('s, common_error, unit) sm"

definition sdb_journal_ops ::
  "('s, 'x) code_state_ops_scheme \<Rightarrow> hash_iter \<Rightarrow> 's state_db finalise_ops" where
  "sdb_journal_ops T it = \<lparr>
     st_get_raw = sdb_get_raw T,
     st_update_raw = sdb_update_raw,
     st_get_account_count = sdb_get_account_count T,
     st_set_account_count = sdb_set_account_count,
     st_calculate_root = sdb_calculate_root T,
     cs_insert_script = sdb_insert_script,
     cs_get_script = sdb_get_script T,
     cs_insert_data = sdb_insert_data,
     cs_get_data = sdb_get_data T,
     jd_finalise = finalise T it \<rparr>"

abbreviation in_state :: "('s, common_error, 'a) sm \<Rightarrow> ('s, generator_error, 'a) sm" where
  "in_state m \<equiv> map_err GState m"

section \<open>\<open>StateExt\<close>\<close>

definition CKB_SUDT_SCRIPT_ARGS :: h256 where "CKB_SUDT_SCRIPT_ARGS = 0"

definition build_l2_sudt_script :: "rollup_context \<Rightarrow> h256 \<Rightarrow> script" where
  "build_l2_sudt_script ctx l1_sudt_script_hash = \<lparr>
     sc_code_hash = rc_l2_sudt_validator_script_type_hash (rx_rollup_config ctx),
     sc_hash_type = script_hash_type_to_byte Type,
     sc_args = as_slice (rx_rollup_script_hash ctx) @ as_slice l1_sudt_script_hash \<rparr>"

definition create_account_from_script ::
  "('s, 'x) code_state_ops_scheme \<Rightarrow> externs \<Rightarrow> script \<Rightarrow> ('s, generator_error, u32) sm" where
  "create_account_from_script T E sc = (
     if sc_hash_type sc \<noteq> script_hash_type_to_byte Type then fail (GAccount UnknownScript)
     else
       let sh = script_hash E sc in
       sbind (in_state (cs_insert_script T sh sc)) (\<lambda>_.
       sbind (in_state (create_account T (blake2b E) sh)) (\<lambda>aid. ret aid)))"

definition calculate_merkle_state ::
  "('s, 'x) state_ops_scheme \<Rightarrow> ('s, generator_error, account_merkle_state) sm" where
  "calculate_merkle_state T =
     sbind (in_state (st_calculate_root T)) (\<lambda>account_root.
     sbind (in_state (st_get_account_count T)) (\<lambda>account_count.
       ret \<lparr> ams_merkle_root = account_root, ams_count = account_count \<rparr>))"

definition pay_fee ::
  "('s, 'x) state_ops_scheme \<Rightarrow> hasher \<Rightarrow> registry_address \<Rightarrow> registry_address \<Rightarrow> u32 \<Rightarrow> u256 \<Rightarrow>
     ('s, generator_error, unit) sm" where
  "pay_fee T b2b payer block_producer sudt_id amount =
     sbind (in_state (burn_sudt T b2b sudt_id payer amount)) (\<lambda>_.
     sbind (in_state (mint_sudt T b2b sudt_id block_producer amount)) (\<lambda>_. ret ()))"

text \<open>The first match of \<open>apply_deposit_request\<close>: find or create the user account.\<close>

definition deposit_address ::
  "('s, 'x) code_state_ops_scheme \<Rightarrow> externs \<Rightarrow> rollup_context \<Rightarrow> deposit_request \<Rightarrow>
     ('s, generator_error, registry_address) sm" where
  "deposit_address T E ctx request = (
     let account_script_hash = script_hash E (dr_script request); b2b = blake2b E in
     sbind (in_state (get_account_id_by_script_hash T b2b account_script_hash)) (\<lambda>existing.
     case existing of
       Some _ \<Rightarrow>
         sbind (in_state (get_registry_address_by_script_hash T b2b (dr_registry_id request)
                  account_script_hash)) (\<lambda>a.
           lift_o (ok_or (GAccount RegistryAddressNotFound) a))
     | None \<Rightarrow>
         sbind (in_state (cs_insert_script T account_script_hash (dr_script request))) (\<lambda>_.
         sbind (in_state (create_account T b2b account_script_hash)) (\<lambda>_.
         sbind (in_state (lift_o (extract_registry_address_from_deposit
                  (rc_allowed_eoa_type_hashes (rx_rollup_config ctx)) (dr_registry_id request)
                  (sc_code_hash (dr_script request)) (sc_args (dr_script request))))) (\<lambda>addr.
         sbind (in_state (mapping_registry_address_to_script_hash T b2b addr account_script_hash)) (\<lambda>_.
           ret addr))))))"

text \<open>Its second match: find or create the sUDT account.\<close>

definition deposit_sudt_id ::
  "('s, 'x) code_state_ops_scheme \<Rightarrow> externs \<Rightarrow> rollup_context \<Rightarrow> h256 \<Rightarrow>
     ('s, generator_error, u32) sm" where
  "deposit_sudt_id T E ctx sudt_script_hash = (
     let l2_sudt_script = build_l2_sudt_script ctx sudt_script_hash;
         l2_sudt_script_hash = script_hash E l2_sudt_script in
     sbind (in_state (get_account_id_by_script_hash T (blake2b E) l2_sudt_script_hash)) (\<lambda>r.
     case r of
       Some aid \<Rightarrow> ret aid
     | None \<Rightarrow>
         sbind (in_state (cs_insert_script T l2_sudt_script_hash l2_sudt_script)) (\<lambda>_.
           in_state (create_account T (blake2b E) l2_sudt_script_hash))))"

definition apply_deposit_request ::
  "('s, 'x) code_state_ops_scheme \<Rightarrow> externs \<Rightarrow> rollup_context \<Rightarrow> deposit_request \<Rightarrow>
     ('s, generator_error, unit) sm" where
  "apply_deposit_request T E ctx request = (
     let b2b = blake2b E; capacity = dr_capacity request in
     sbind (deposit_address T E ctx request) (\<lambda>address.
     let ckb_amount = to_layer2 (from_layer1 capacity) in
     sbind (in_state (mint_sudt T b2b CKB_SUDT_ACCOUNT_ID address ckb_amount)) (\<lambda>_.
     let sudt_script_hash = dr_sudt_script_hash request; amount = dr_amount request in
     if sudt_script_hash \<noteq> CKB_SUDT_SCRIPT_ARGS then
       sbind (deposit_sudt_id T E ctx sudt_script_hash) (\<lambda>sudt_id.
       if sudt_id = CKB_SUDT_ACCOUNT_ID then fail (GAccount InvalidSUDTOperation)
       else sbind (in_state (mint_sudt T b2b sudt_id address (ucast amount))) (\<lambda>_. ret ()))
     else if amount \<noteq> 0 then fail (GDeposit DepositFakedCKB)
     else ret ())))"

definition apply_withdrawal_request ::
  "('s, 'x) finalise_ops_scheme \<Rightarrow> externs \<Rightarrow> rollup_context \<Rightarrow> registry_address \<Rightarrow>
     withdrawal_request \<Rightarrow> ('s, generator_error, account_merkle_state) sm" where
  "apply_withdrawal_request T E ctx block_producer_address request = (
     let b2b = blake2b E;
         raw = wr_raw request;
         account_script_hash = rw_account_script_hash raw;
         l2_sudt_script_hash = script_hash E (build_l2_sudt_script ctx (rw_sudt_script_hash raw));
         amount = rw_amount raw in
     sbind (in_state (get_registry_address_by_script_hash T b2b (rw_registry_id raw)
              account_script_hash)) (\<lambda>a.
     sbind (lift_o (ok_or (GAccount RegistryAddressNotFound) a)) (\<lambda>withdrawal_address.
     sbind (in_state (get_account_id_by_script_hash T b2b account_script_hash)) (\<lambda>i.
     sbind (lift_o (ok_or (GAccount UnknownAccount) i)) (\<lambda>aid.
     let capacity = rw_capacity raw; fee = ucast (rw_fee raw) in
     sbind (pay_fee T b2b withdrawal_address block_producer_address CKB_SUDT_ACCOUNT_ID fee) (\<lambda>_.
     sbind (in_state (burn_sudt T b2b CKB_SUDT_ACCOUNT_ID withdrawal_address
              (to_layer2 (from_layer1 capacity)))) (\<lambda>_.
     sbind (in_state (get_account_id_by_script_hash T b2b l2_sudt_script_hash)) (\<lambda>s.
     sbind (lift_o (ok_or (GAccount UnknownSUDT) s)) (\<lambda>sudt_id.
     sbind (if sudt_id \<noteq> CKB_SUDT_ACCOUNT_ID
            then in_state (burn_sudt T b2b sudt_id withdrawal_address (ucast amount))
            else if amount \<noteq> 0 then fail (GWithdrawal WithdrawFakedCKB) else ret ()) (\<lambda>_.
     sbind (in_state (get_nonce T aid)) (\<lambda>nonce.
     sbind (lift_o (ok_or (GWithdrawal NonceOverflow) (checked_add nonce 1))) (\<lambda>new_nonce.
     sbind (in_state (set_nonce T aid new_nonce)) (\<lambda>_.
     sbind (in_state (jd_finalise T)) (\<lambda>_.
     sbind (in_state (st_calculate_root T)) (\<lambda>account_root.
     sbind (in_state (st_get_account_count T)) (\<lambda>account_count.
       ret \<lparr> ams_merkle_root = account_root, ams_count = account_count \<rparr>))))))))))))))))"


section \<open>Effects on a sound state\<close>

text \<open>What an operation moved: \<open>cr\<close> and \<open>db\<close> give, per token and holder, the credit and the debit.\<close>

definition moved ::
  "hasher \<Rightarrow> registry_address set \<Rightarrow> (u32 \<Rightarrow> registry_address \<Rightarrow> nat) \<Rightarrow> (u32 \<Rightarrow> registry_address \<Rightarrow> nat) \<Rightarrow>
     view \<Rightarrow> view \<Rightarrow> bool" where
  "moved b2b A cr db v v' \<longleftrightarrow> (\<forall>i. \<forall>c\<in>A.
     unat (vw_map v' (bal_key b2b i c)) + db i c = unat (vw_map v (bal_key b2b i c)) + cr i c)"

definition credit :: "u32 \<Rightarrow> registry_address \<Rightarrow> nat \<Rightarrow> u32 \<Rightarrow> registry_address \<Rightarrow> nat" where
  "credit i a n = (\<lambda>j c. if j = i \<and> c = a then n else 0)"

abbreviation nothing :: "u32 \<Rightarrow> registry_address \<Rightarrow> nat" where
  "nothing \<equiv> (\<lambda>_ _. 0)"

lemma movedD:
  "moved b2b A cr db v v' \<Longrightarrow> c \<in> A \<Longrightarrow>
     unat (vw_map v' (bal_key b2b i c)) + db i c = unat (vw_map v (bal_key b2b i c)) + cr i c"
  by (simp add: moved_def)

lemma moved_refl: "moved b2b A nothing nothing v v"
  by (simp add: moved_def)

lemma moved_same:
  assumes "\<And>i c. c \<in> A \<Longrightarrow> vw_map v' (bal_key b2b i c) = vw_map v (bal_key b2b i c)"
  shows "moved b2b A nothing nothing v v'"
  using assms by (simp add: moved_def)

lemma moved_trans:
  assumes "moved b2b A p m u v" and "moved b2b A p' m' v w"
  shows "moved b2b A (\<lambda>i c. p i c + p' i c) (\<lambda>i c. m i c + m' i c) u w"
  unfolding moved_def
proof (intro allI ballI)
  fix i c
  assume "c \<in> A"
  then have "unat (vw_map v (bal_key b2b i c)) + m i c = unat (vw_map u (bal_key b2b i c)) + p i c"
    "unat (vw_map w (bal_key b2b i c)) + m' i c = unat (vw_map v (bal_key b2b i c)) + p' i c"
    using assms by (simp_all add: moved_def)
  then show "unat (vw_map w (bal_key b2b i c)) + (m i c + m' i c) =
      unat (vw_map u (bal_key b2b i c)) + (p i c + p' i c)" by linarith
qed

lemma moved_cong:
  "moved b2b A p m u v \<Longrightarrow> p = p' \<Longrightarrow> m = m' \<Longrightarrow> moved b2b A p' m' u v"
  by simp

text \<open>The supplies of a sound state follow from the balances.\<close>

lemma moved_supply:
  assumes "state_ok b2b A H v" and "state_ok b2b A H v'" and "moved b2b A p m v v'"
  shows "tot_supply b2b i v' + (\<Sum>c\<in>A. m i c) = tot_supply b2b i v + (\<Sum>c\<in>A. p i c)"
proof -
  have "(\<Sum>c\<in>A. unat (vw_map v' (bal_key b2b i c)) + m i c) =
      (\<Sum>c\<in>A. unat (vw_map v (bal_key b2b i c)) + p i c)"
    using assms(3) by (intro sum.cong) (simp_all add: moved_def)
  moreover have "holdings b2b i A v = tot_supply b2b i v" "holdings b2b i A v' = tot_supply b2b i v'"
    using assms(1,2) by (simp_all add: state_ok_def)
  ultimately show ?thesis by (simp add: holdings_def sum.distrib)
qed

lemma sum_credit: "finite A \<Longrightarrow> a \<in> A \<Longrightarrow> (\<Sum>c\<in>A. credit i a n j c) = (if j = i then n else 0)"
  by (simp add: credit_def)

lemma burn_moved:
  assumes S: "state_ok b2b A H v" and a: "a \<in> A"
    and run: "burn_sudt (view_ops root) b2b i a n v = (Ok u, v')"
  shows "state_ok b2b A H v'" and "moved b2b A nothing (credit i a (unat n)) v v'"
    and "token_frame b2b A H i v v'" and "n \<le> vw_map v (bal_key b2b i a)"
proof -
  note b = burn_state_ok [OF S a run]
  show le: "n \<le> vw_map v (bal_key b2b i a)" using b(4) by auto
  show "state_ok b2b A H v'" and f: "token_frame b2b A H i v v'" using b(1,2) .
  have "unat (vw_map v' (bal_key b2b j c)) + credit i a (unat n) j c = unat (vw_map v (bal_key b2b j c))"
    if "c \<in> A" for j c
    using b(3) [OF le] token_frameD(1) [OF f, of j c] that le
    by (cases "j = i") (auto simp: credit_def unat_sub word_le_nat_alt)
  then show "moved b2b A nothing (credit i a (unat n)) v v'" by (simp add: moved_def)
qed

lemma mint_moved:
  assumes S: "state_ok b2b A H v" and a: "a \<in> A"
    and run: "mint_sudt (view_ops root) b2b i a n v = (Ok u, v')"
  shows "state_ok b2b A H v'" and "moved b2b A (credit i a (unat n)) nothing v v'"
    and "token_frame b2b A H i v v'"
proof -
  obtain w where w: "mint_sudt (view_ops root) b2b i a n v = (Ok (), w)" "state_ok b2b A H w"
    "token_frame b2b A H i v w"
    "\<And>c. c \<in> A \<Longrightarrow> unat (vw_map w (bal_key b2b i c)) =
      (if c = a then unat (vw_map v (bal_key b2b i a)) + unat n else unat (vw_map v (bal_key b2b i c)))"
    using mint_state_ok [OF S a mint_room [OF S a run]] by metis
  have v': "v' = w" using run w(1) by simp
  show "state_ok b2b A H v'" "token_frame b2b A H i v v'" using w(2,3) v' by simp_all
  have "unat (vw_map w (bal_key b2b j c)) = unat (vw_map v (bal_key b2b j c)) + credit i a (unat n) j c"
    if "c \<in> A" for j c
    using w(4) [OF that] token_frameD(1) [OF w(3), of j c] that
    by (cases "j = i") (auto simp: credit_def)
  then show "moved b2b A (credit i a (unat n)) nothing v v'" by (simp add: moved_def v')
qed

text \<open>Paying a fee moves it when the payer has it, and otherwise does nothing.\<close>

lemma pay_fee_view:
  assumes S: "state_ok b2b A H v" and p: "p \<in> A" and q: "q \<in> A"
    and run: "pay_fee (view_ops root) b2b p q i n v = (r, v')"
  shows "state_ok b2b A H v'" and "token_frame b2b A H i v v'"
    and "r = (if n \<le> vw_map v (bal_key b2b i p) then Ok () else Err (GState AmountOverflow))"
    and "r = Ok u \<Longrightarrow> moved b2b A (credit i q (unat n)) (credit i p (unat n)) v v'"
    and "r \<noteq> Ok () \<Longrightarrow> v' = v"
proof -
  obtain r1 w where b: "burn_sudt (view_ops root) b2b i p n v = (r1, w)" by fastforce
  note B = burn_state_ok [OF S p b]
  have "state_ok b2b A H v' \<and> token_frame b2b A H i v v' \<and>
    r = (if n \<le> vw_map v (bal_key b2b i p) then Ok () else Err (GState AmountOverflow)) \<and>
    (r = Ok u \<longrightarrow> moved b2b A (credit i q (unat n)) (credit i p (unat n)) v v') \<and>
    (r \<noteq> Ok () \<longrightarrow> v' = v)"
  proof (cases "n \<le> vw_map v (bal_key b2b i p)")
    case False
    then have "r1 = Err AmountOverflow" "w = v" using B(4) by auto
    then show ?thesis
      using run b S False by (auto simp: pay_fee_def sbind_run map_err_def token_frame_refl)
  next
    case True
    then have r1: "r1 = Ok ()" and sup: "tot_supply b2b i w + unat n = tot_supply b2b i v"
      using B(3) by auto
    have "tot_supply b2b i w + unat n < 2 ^ 256"
      using sup unat_less [of "vw_map v (sup_key b2b i)"] by (simp add: tot_supply_def)
    then obtain x where m: "mint_sudt (view_ops root) b2b i q n w = (Ok (), x)"
      using mint_state_ok [OF B(1) q] by metis
    note M = mint_moved [OF B(1) q m]
    have "r = Ok ()" "v' = x" using run b m r1 by (auto simp: pay_fee_def sbind_run map_err_def)
    moreover have "moved b2b A nothing (credit i p (unat n)) v w"
      using burn_moved(2) [OF S p] b r1 by auto
    note mv = moved_trans [OF this M(2)]
    ultimately show ?thesis
      using M True token_frame_trans [OF B(2) M(3)] mv by (auto elim: moved_cong)
  qed
  then show "state_ok b2b A H v'" "token_frame b2b A H i v v'"
    "r = (if n \<le> vw_map v (bal_key b2b i p) then Ok () else Err (GState AmountOverflow))"
    "r = Ok u \<Longrightarrow> moved b2b A (credit i q (unat n)) (credit i p (unat n)) v v'"
    "r \<noteq> Ok () \<Longrightarrow> v' = v" by blast+
qed


section \<open>Deposits\<close>

lemma account_id_known:
  assumes S: "state_ok b2b A H v" and h: "h \<in> H"
    and run: "get_account_id_by_script_hash (view_ops root) b2b h v = (r, v')"
  obtains (absent) "r = Ok None" "v' = v" "vw_map v (id_key b2b h) = 0"
  | (present) i where "r = Ok (Some i)" "v' = v" "vw_map v (id_key b2b h) = id_value i"
      "i < vw_count v" "vw_map v (script_field i) = h"
proof (cases "vw_map v (id_key b2b h) = 0")
  case True
  then show thesis
    using absent run state_okD(2) [OF S] by (simp add: get_account_id_view)
next
  case False
  then obtain i where i: "i < vw_count v" "vw_map v (id_key b2b h) = id_value i"
    "vw_map v (script_field i) = h"
    using state_okD(3) [OF S] h by (auto simp: accounts_ok_def)
  then show thesis
    using present [of i] run state_okD(2) [OF S] by (simp add: get_account_id_view)
qed

lemma registry_address_known:
  assumes S: "state_ok b2b A H v" and h: "h \<in> H"
    and run: "get_registry_address_by_script_hash (view_ops root) b2b ETH_REGISTRY_ACCOUNT_ID h v = (r, v')"
  obtains (absent) "r = Ok None" "v' = v" "vw_map v (reg_addr_key b2b h) = 0"
  | (present) a where "r = Ok (Some a)" "v' = v" "a \<in> A" "eth_address a"
      "vw_map v (reg_addr_key b2b h) = reg_value a" "vw_map v (reg_hash_key b2b a) = h"
proof (cases "vw_map v (reg_addr_key b2b h) = 0")
  case True
  then show thesis
    using absent run state_okD(2) [OF S] by (simp add: get_registry_address_by_script_hash_view)
next
  case False
  then obtain a where a: "a \<in> A" "eth_address a" "vw_map v (reg_addr_key b2b h) = reg_value a"
    "vw_map v (reg_hash_key b2b a) = h"
    using state_okD(4) [OF S] h by (fastforce simp: registry_ok_def)
  then show thesis
    using present [of a] run state_okD(2) [OF S]
    by (simp add: get_registry_address_by_script_hash_view)
qed

text \<open>Storing a script and creating its account.\<close>

lemma stored_account_state_ok:
  assumes S: "state_ok b2b A H v" and h: "h \<in> H"
    and run: "create_account (view_ops root) b2b h (v\<lparr> vw_scripts := (vw_scripts v)(h := Some sc) \<rparr>) = (Ok j, v')"
  shows "state_ok b2b A H v'" and "moved b2b A nothing nothing v v'"
    and "vw_map v' (id_key b2b h) = id_value j" and "j = vw_count v"
    and "\<And>g. g \<in> H \<Longrightarrow> vw_map v' (reg_addr_key b2b g) = vw_map v (reg_addr_key b2b g)"
proof -
  note c = create_account_state_ok [OF insert_script_state_ok [OF S, of h sc] h _ run]
  show "state_ok b2b A H v'" "j = vw_count v" using c(1,2) by simp_all
  show "vw_map v' (id_key b2b h) = id_value j" using c(9) [of h] h by simp
  show "moved b2b A nothing nothing v v'" using c(5) by (intro moved_same) simp
  show "vw_map v' (reg_addr_key b2b g) = vw_map v (reg_addr_key b2b g)" if "g \<in> H" for g
    using c(7) [of g] that by simp
qed

lemma deposit_address_view:
  assumes S: "state_ok (blake2b E) A H v" and h: "script_hash E (dr_script request) \<in> H"
    and rid: "dr_registry_id request = ETH_REGISTRY_ACCOUNT_ID"
    and ext: "\<And>x. extract_registry_address_from_deposit
        (rc_allowed_eoa_type_hashes (rx_rollup_config ctx)) (dr_registry_id request)
        (sc_code_hash (dr_script request)) (sc_args (dr_script request)) = Ok x \<Longrightarrow> x \<in> A"
    and run: "deposit_address (view_ops root) E ctx request v = (Ok a, v')"
  shows "state_ok (blake2b E) A H v' \<and> moved (blake2b E) A nothing nothing v v' \<and> a \<in> A \<and>
    vw_map v' (reg_addr_key (blake2b E) (script_hash E (dr_script request))) = reg_value a"
proof -
  let ?h = "script_hash E (dr_script request)" and ?b = "blake2b E"
  obtain r w where g: "get_account_id_by_script_hash (view_ops root) ?b ?h v = (r, w)" by fastforce
  from S h g show ?thesis
  proof (cases rule: account_id_known)
    case absent
    let ?v1 = "v\<lparr> vw_scripts := (vw_scripts v)(?h := Some (dr_script request)) \<rparr>"
    obtain j v2 where c: "create_account (view_ops root) ?b ?h ?v1 = (Ok j, v2)"
      and x: "extract_registry_address_from_deposit
        (rc_allowed_eoa_type_hashes (rx_rollup_config ctx)) (dr_registry_id request)
        (sc_code_hash (dr_script request)) (sc_args (dr_script request)) = Ok a"
      and m: "mapping_registry_address_to_script_hash (view_ops root) ?b a ?h v2 = (Ok (), v')"
      using run g absent
      by (auto simp: deposit_address_def Let_def sbind_Ok_iff view_ops_run)
    note C = stored_account_state_ok [OF S h c]
    note M = mapping_state_ok [OF C(1) h ext [OF x] m]
    have "vw_map v' (reg_addr_key ?b ?h) = reg_value a"
      using m table_keys_differ(8) [OF state_okD(1) [OF S] h ext [OF x]]
      by (auto simp: mapping_registry_view [OF state_okD(4) [OF C(1)] h ext [OF x]] split: if_splits)
    moreover have "moved ?b A nothing nothing v2 v'" using M(4) by (rule moved_same)
    from moved_trans [OF C(2) this] have "moved ?b A nothing nothing v v'" by simp
    ultimately show ?thesis using M(1) ext [OF x] by simp
  next
    case (present i)
    then obtain q where
      q: "get_registry_address_by_script_hash (view_ops root) ?b ETH_REGISTRY_ACCOUNT_ID ?h v = (Ok q, v')"
      and qa: "q = Some a"
      using run g rid by (auto simp: deposit_address_def Let_def sbind_Ok_iff)
    from S h q show ?thesis
      by (cases rule: registry_address_known) (use qa S in \<open>auto simp: moved_refl\<close>)
  qed
qed

lemma deposit_sudt_id_view:
  assumes S: "state_ok (blake2b E) A H v"
    and h: "script_hash E (build_l2_sudt_script ctx s) \<in> H"
    and run: "deposit_sudt_id (view_ops root) E ctx s v = (Ok j, v')"
  shows "state_ok (blake2b E) A H v' \<and> moved (blake2b E) A nothing nothing v v' \<and>
    vw_map v' (id_key (blake2b E) (script_hash E (build_l2_sudt_script ctx s))) = id_value j \<and>
    (\<forall>g\<in>H. vw_map v' (reg_addr_key (blake2b E) g) = vw_map v (reg_addr_key (blake2b E) g))"
proof -
  let ?sc = "build_l2_sudt_script ctx s" and ?b = "blake2b E"
  let ?h = "script_hash E ?sc"
  obtain r w where g: "get_account_id_by_script_hash (view_ops root) ?b ?h v = (r, w)" by fastforce
  from S h g show ?thesis
  proof (cases rule: account_id_known)
    case absent
    then have "create_account (view_ops root) ?b ?h (v\<lparr> vw_scripts := (vw_scripts v)(?h := Some ?sc) \<rparr>) =
        (Ok j, v')"
      using run g by (auto simp: deposit_sudt_id_def Let_def sbind_Ok_iff view_ops_run)
    from stored_account_state_ok [OF S h this] show ?thesis by blast
  next
    case (present i)
    then have "v' = v" "j = i" using run g by (auto simp: deposit_sudt_id_def Let_def sbind_Ok_iff)
    then show ?thesis using present S by (simp add: moved_refl)
  qed
qed

text \<open>The tokens a deposit credits.\<close>

definition deposited :: "deposit_request \<Rightarrow> registry_address \<Rightarrow> u32 \<Rightarrow> u32 \<Rightarrow> registry_address \<Rightarrow> nat" where
  "deposited request a sudt_id = (\<lambda>i c.
     credit CKB_SUDT_ACCOUNT_ID a (unat (dr_capacity request) * 10 ^ 10) i c +
     (if dr_sudt_script_hash request = CKB_SUDT_SCRIPT_ARGS then 0
      else credit sudt_id a (unat (dr_amount request)) i c))"

lemma sum_deposited:
  "finite A \<Longrightarrow> a \<in> A \<Longrightarrow> (\<Sum>c\<in>A. deposited request a j i c) =
     (if i = CKB_SUDT_ACCOUNT_ID then unat (dr_capacity request) * 10 ^ 10 else 0) +
     (if dr_sudt_script_hash request \<noteq> CKB_SUDT_SCRIPT_ARGS \<and> i = j then unat (dr_amount request) else 0)"
  by (cases "dr_sudt_script_hash request = CKB_SUDT_SCRIPT_ARGS")
    (simp_all add: deposited_def sum.distrib sum_credit)

lemma apply_deposit_view:
  assumes S: "state_ok (blake2b E) A H v" and h: "script_hash E (dr_script request) \<in> H"
    and hs: "script_hash E (build_l2_sudt_script ctx (dr_sudt_script_hash request)) \<in> H"
    and rid: "dr_registry_id request = ETH_REGISTRY_ACCOUNT_ID"
    and ext: "\<And>x. extract_registry_address_from_deposit
        (rc_allowed_eoa_type_hashes (rx_rollup_config ctx)) (dr_registry_id request)
        (sc_code_hash (dr_script request)) (sc_args (dr_script request)) = Ok x \<Longrightarrow> x \<in> A"
    and run: "apply_deposit_request (view_ops root) E ctx request v = (Ok u, v')"
  shows "state_ok (blake2b E) A H v' \<and> (\<exists>a\<in>A. \<exists>j.
    vw_map v' (reg_addr_key (blake2b E) (script_hash E (dr_script request))) = reg_value a \<and>
    moved (blake2b E) A (deposited request a j) nothing v v' \<and>
    (if dr_sudt_script_hash request = CKB_SUDT_SCRIPT_ARGS then dr_amount request = 0
     else j \<noteq> CKB_SUDT_ACCOUNT_ID \<and> vw_map v' (id_key (blake2b E) (script_hash E
       (build_l2_sudt_script ctx (dr_sudt_script_hash request)))) = id_value j))"
proof -
  let ?b = "blake2b E" and ?ckb = "to_layer2 (from_layer1 (dr_capacity request))"
  let ?h = "script_hash E (dr_script request)"
  obtain a v1 v2 where d: "deposit_address (view_ops root) E ctx request v = (Ok a, v1)"
    and m: "mint_sudt (view_ops root) ?b CKB_SUDT_ACCOUNT_ID a ?ckb v1 = (Ok (), v2)"
    and rest: "(if dr_sudt_script_hash request \<noteq> CKB_SUDT_SCRIPT_ARGS then
       sbind (deposit_sudt_id (view_ops root) E ctx (dr_sudt_script_hash request)) (\<lambda>sudt_id.
       if sudt_id = CKB_SUDT_ACCOUNT_ID then fail (GAccount InvalidSUDTOperation)
       else sbind (in_state (mint_sudt (view_ops root) ?b sudt_id a (ucast (dr_amount request)))) (\<lambda>_. ret ()))
     else if dr_amount request \<noteq> 0 then fail (GDeposit DepositFakedCKB)
     else ret ()) v2 = (Ok u, v')"
    using run by (auto simp: apply_deposit_request_def Let_def sbind_Ok_iff)
  have D: "state_ok ?b A H v1" "moved ?b A nothing nothing v v1" "a \<in> A"
    "vw_map v1 (reg_addr_key ?b ?h) = reg_value a"
    using deposit_address_view [OF S h rid ext d] by auto
  note M = mint_moved [OF D(1,3) m]
  have mv: "moved ?b A (credit CKB_SUDT_ACCOUNT_ID a (unat (dr_capacity request) * 10 ^ 10)) nothing v v2"
    using moved_trans [OF D(2) M(2)] by (simp add: unat_from_layer1)
  have ra: "vw_map v2 (reg_addr_key ?b ?h) = reg_value a" using token_frameD(6) [OF M(3) h] D(4) by simp
  show ?thesis
  proof (cases "dr_sudt_script_hash request = CKB_SUDT_SCRIPT_ARGS")
    case True
    then show ?thesis using rest M(1) D(3) ra mv by (auto simp: deposited_def split: if_splits)
  next
    case False
    then obtain j v3 where s: "deposit_sudt_id (view_ops root) E ctx (dr_sudt_script_hash request) v2 = (Ok j, v3)"
      and j: "j \<noteq> CKB_SUDT_ACCOUNT_ID"
      and m': "mint_sudt (view_ops root) ?b j a (ucast (dr_amount request)) v3 = (Ok (), v')"
      using rest by (auto simp: sbind_Ok_iff split: if_splits)
    have I: "state_ok ?b A H v3" "moved ?b A nothing nothing v2 v3"
      "vw_map v3 (id_key ?b (script_hash E (build_l2_sudt_script ctx (dr_sudt_script_hash request)))) = id_value j"
      "vw_map v3 (reg_addr_key ?b ?h) = reg_value a"
      using deposit_sudt_id_view [OF M(1) hs s] h ra by auto
    note M' = mint_moved [OF I(1) D(3) m']
    have "moved ?b A (deposited request a j) nothing v v'"
      using moved_trans [OF moved_trans [OF mv I(2)] M'(2)] False
      by (simp add: deposited_def unat_ucast_up)
    then show ?thesis
      using M'(1) D(3) j False token_frameD(5) [OF M'(3) hs] token_frameD(6) [OF M'(3) h] I(3,4)
      by (auto intro!: bexI [of _ a] exI [of _ j])
  qed
qed


section \<open>Withdrawals\<close>

text \<open>The reference state has nothing to finalise.\<close>

definition view_journal_ops :: "((h256 \<Rightarrow> h256) \<Rightarrow> h256) \<Rightarrow> view finalise_ops" where
  "view_journal_ops root = \<lparr>
     st_get_raw = st_get_raw (view_ops root),
     st_update_raw = st_update_raw (view_ops root),
     st_get_account_count = st_get_account_count (view_ops root),
     st_set_account_count = st_set_account_count (view_ops root),
     st_calculate_root = st_calculate_root (view_ops root),
     cs_insert_script = cs_insert_script (view_ops root),
     cs_get_script = cs_get_script (view_ops root),
     cs_insert_data = cs_insert_data (view_ops root),
     cs_get_data = cs_get_data (view_ops root),
     jd_finalise = ret () \<rparr>"

lemma view_journal_fields [simp]:
  "st_get_raw (view_journal_ops root) = st_get_raw (view_ops root)"
  "st_update_raw (view_journal_ops root) = st_update_raw (view_ops root)"
  "st_get_account_count (view_journal_ops root) = st_get_account_count (view_ops root)"
  "st_calculate_root (view_journal_ops root) = st_calculate_root (view_ops root)"
  "jd_finalise (view_journal_ops root) = ret ()"
  by (simp_all add: view_journal_ops_def)

lemma view_journal_methods [simp]:
  "get_value (view_journal_ops root) = get_value (view_ops root)"
  "get_account_id_by_script_hash (view_journal_ops root) = get_account_id_by_script_hash (view_ops root)"
  "burn_sudt (view_journal_ops root) = burn_sudt (view_ops root)"
  "mint_sudt (view_journal_ops root) = mint_sudt (view_ops root)"
  "get_nonce (view_journal_ops root) = get_nonce (view_ops root)"
  "set_nonce (view_journal_ops root) = set_nonce (view_ops root)"
  by (simp_all add: fun_eq_iff get_value_def get_account_id_by_script_hash_def burn_sudt_def mint_sudt_def
      get_nonce_def set_nonce_def)

lemma view_journal_methods2 [simp]:
  "get_registry_address_by_script_hash (view_journal_ops root) = get_registry_address_by_script_hash (view_ops root)"
  "pay_fee (view_journal_ops root) = pay_fee (view_ops root)"
  by (simp_all add: fun_eq_iff get_registry_address_by_script_hash_def pay_fee_def)

text \<open>The tokens a withdrawal takes from the account, besides the fee.\<close>

definition withdrawn :: "raw_withdrawal_request \<Rightarrow> registry_address \<Rightarrow> u32 \<Rightarrow> u32 \<Rightarrow> registry_address \<Rightarrow> nat" where
  "withdrawn raw a sudt_id = (\<lambda>i c.
     credit CKB_SUDT_ACCOUNT_ID a (unat (rw_capacity raw) * 10 ^ 10) i c +
     (if sudt_id = CKB_SUDT_ACCOUNT_ID then 0 else credit sudt_id a (unat (rw_amount raw)) i c))"

lemma sum_withdrawn:
  "finite A \<Longrightarrow> a \<in> A \<Longrightarrow> (\<Sum>c\<in>A. withdrawn raw a j i c) =
     (if i = CKB_SUDT_ACCOUNT_ID then unat (rw_capacity raw) * 10 ^ 10
      else if i = j then unat (rw_amount raw) else 0)"
  by (cases "j = CKB_SUDT_ACCOUNT_ID") (auto simp: withdrawn_def sum.distrib sum_credit)

lemma sudt_burn_view:
  assumes S: "state_ok b2b A H v" and a: "a \<in> A"
    and run: "(if j \<noteq> CKB_SUDT_ACCOUNT_ID then in_state (burn_sudt (view_ops root) b2b j a (ucast amount))
       else if amount \<noteq> 0 then fail (GWithdrawal WithdrawFakedCKB) else ret ()) v = (Ok u, v')"
  shows "state_ok b2b A H v'" and "token_frame b2b A H j v v'"
    and "moved b2b A nothing (\<lambda>i c. if j = CKB_SUDT_ACCOUNT_ID then 0 else credit j a (unat (amount :: u128)) i c) v v'"
  using run S burn_moved [OF S a, of root j "ucast amount"]
  by (auto simp: moved_refl token_frame_refl unat_ucast_up split: if_splits)

lemma apply_withdrawal_view:
  fixes request :: withdrawal_request
  defines "raw \<equiv> wr_raw request"
  assumes S: "state_ok (blake2b E) A H v" and h: "rw_account_script_hash raw \<in> H"
    and hs: "script_hash E (build_l2_sudt_script ctx (rw_sudt_script_hash raw)) \<in> H"
    and rid: "rw_registry_id raw = ETH_REGISTRY_ACCOUNT_ID" and q: "q \<in> A"
    and run: "apply_withdrawal_request (view_journal_ops root) E ctx q request v = (Ok r, v')"
  shows "state_ok (blake2b E) A H v' \<and>
    r = \<lparr> ams_merkle_root = root (vw_map v'), ams_count = vw_count v' \<rparr> \<and> vw_count v' = vw_count v \<and>
    (\<exists>a\<in>A. \<exists>i j. vw_map v (reg_addr_key (blake2b E) (rw_account_script_hash raw)) = reg_value a \<and>
      vw_map v (id_key (blake2b E) (rw_account_script_hash raw)) = id_value i \<and>
      vw_map v (id_key (blake2b E) (script_hash E (build_l2_sudt_script ctx (rw_sudt_script_hash raw)))) = id_value j \<and>
      unat (to_u32 (vw_map v' (nonce_field i))) = unat (to_u32 (vw_map v (nonce_field i))) + 1 \<and>
      moved (blake2b E) A (credit CKB_SUDT_ACCOUNT_ID q (unat (rw_fee raw)))
        (\<lambda>k c. credit CKB_SUDT_ACCOUNT_ID a (unat (rw_fee raw)) k c + withdrawn raw a j k c) v v' \<and>
      (j = CKB_SUDT_ACCOUNT_ID \<longrightarrow> rw_amount raw = 0))"
proof -
  let ?b = "blake2b E" and ?h = "rw_account_script_hash raw"
  let ?s = "script_hash E (build_l2_sudt_script ctx (rw_sudt_script_hash raw))"
  let ?ckb = "to_layer2 (from_layer1 (rw_capacity raw))"
  obtain a w1 i w2 v1 v2 j w3 v3 n
    where a: "get_registry_address_by_script_hash (view_ops root) ?b ETH_REGISTRY_ACCOUNT_ID ?h v = (Ok (Some a), w1)"
    and i: "get_account_id_by_script_hash (view_ops root) ?b ?h w1 = (Ok (Some i), w2)"
    and f: "pay_fee (view_ops root) ?b a q CKB_SUDT_ACCOUNT_ID (ucast (rw_fee raw)) w2 = (Ok (), v1)"
    and c: "burn_sudt (view_ops root) ?b CKB_SUDT_ACCOUNT_ID a ?ckb v1 = (Ok (), v2)"
    and j: "get_account_id_by_script_hash (view_ops root) ?b ?s v2 = (Ok (Some j), w3)"
    and s: "(if j \<noteq> CKB_SUDT_ACCOUNT_ID then in_state (burn_sudt (view_ops root) ?b j a (ucast (rw_amount raw)))
       else if rw_amount raw \<noteq> 0 then fail (GWithdrawal WithdrawFakedCKB) else ret ()) w3 = (Ok (), v3)"
    and rest: "sbind (in_state (get_nonce (view_ops root) i)) (\<lambda>nonce.
       sbind (lift_o (ok_or (GWithdrawal NonceOverflow) (checked_add nonce 1))) (\<lambda>new_nonce.
       sbind (in_state (set_nonce (view_ops root) i new_nonce)) (\<lambda>_.
       sbind (in_state (ret ())) (\<lambda>_.
       sbind (in_state (st_calculate_root (view_ops root))) (\<lambda>account_root.
       sbind (in_state (st_get_account_count (view_ops root))) (\<lambda>account_count.
         ret \<lparr> ams_merkle_root = account_root, ams_count = account_count \<rparr>)))))) v3 = (Ok r, v')"
    using run rid unfolding apply_withdrawal_request_def Let_def raw_def [symmetric]
      view_journal_methods view_journal_methods2 view_journal_fields
    by (auto simp: sbind_Ok_iff simp del: sm_prim_simps)
  have A: "w1 = v" "a \<in> A" "vw_map v (reg_addr_key ?b ?h) = reg_value a"
    using S h a by (cases rule: registry_address_known; auto)+
  have I: "w2 = v" "vw_map v (id_key ?b ?h) = id_value i"
    using S h i [unfolded A(1)] by (cases rule: account_id_known; auto)+
  note F = pay_fee_view [OF S A(2) q f [unfolded I(1)]]
  note C = burn_moved [OF F(1) A(2) c]
  have J: "w3 = v2" "vw_map v2 (id_key ?b ?s) = id_value j"
    using C(1) hs j by (cases rule: account_id_known; auto)+
  note B = sudt_burn_view [OF C(1) A(2) s [unfolded J(1)]]
  have has: "vw_has v3 k" for k using state_okD(2) [OF B(1)] by simp
  have n: "unat (to_u32 (vw_map v3 (nonce_field i))) + 1 < 2 ^ 32"
    and v': "v' = set_key (nonce_field i) (from_u32 (to_u32 (vw_map v3 (nonce_field i)) + 1)) v3"
    and r: "r = \<lparr> ams_merkle_root = root (vw_map v'), ams_count = vw_count v' \<rparr>"
    using rest has
    by (auto simp: sbind_Ok_iff get_nonce_view set_nonce_view view_ops_run checked_add_Some_iff)
  note N = set_nonce_state_ok [OF B(1), where i = i and
      x = "from_u32 (to_u32 (vw_map v3 (nonce_field i)) + 1)", folded v']
  have nonce3: "vw_map v3 (nonce_field i) = vw_map v (nonce_field i)"
    using token_frameD(4) [OF F(2)] token_frameD(4) [OF C(3)] token_frameD(4) [OF B(2)] by simp
  have cnt: "vw_count v' = vw_count v"
    using token_frameD(8) [OF F(2)] token_frameD(8) [OF C(3)] token_frameD(8) [OF B(2)] v' by simp
  have "moved ?b A nothing nothing v3 v'" using N(2) by (rule moved_same)
  from moved_trans [OF moved_trans [OF moved_trans [OF F(4) [OF refl] C(2)] B(3)] this]
  have mv: "moved ?b A (credit CKB_SUDT_ACCOUNT_ID q (unat (rw_fee raw)))
      (\<lambda>k c. credit CKB_SUDT_ACCOUNT_ID a (unat (rw_fee raw)) k c + withdrawn raw a j k c) v v'"
    by (rule moved_cong) (auto simp: fun_eq_iff withdrawn_def unat_from_layer1 unat_ucast_up)
  have j': "vw_map v (id_key ?b ?s) = id_value j"
    using J(2) token_frameD(5) [OF F(2) hs] token_frameD(5) [OF C(3) hs] by simp
  have nn: "unat (to_u32 (vw_map v' (nonce_field i))) = unat (to_u32 (vw_map v (nonce_field i))) + 1"
    using n by (simp add: v' nonce3 unat_add_no_overflow)
  have "j = CKB_SUDT_ACCOUNT_ID \<longrightarrow> rw_amount raw = 0" using s by (auto split: if_splits)
  then show ?thesis using N(1) r cnt A(2,3) I(2) j' nn mv by blast
qed


text \<open>A withdrawal whose account can pay for it goes through.\<close>

lemma apply_withdrawal_runs:
  fixes request :: withdrawal_request
  defines "raw \<equiv> wr_raw request"
  assumes S: "state_ok (blake2b E) A H v" and h: "rw_account_script_hash raw \<in> H"
    and hs: "script_hash E (build_l2_sudt_script ctx (rw_sudt_script_hash raw)) \<in> H"
    and rid: "rw_registry_id raw = ETH_REGISTRY_ACCOUNT_ID" and q: "q \<in> A"
    and a: "a \<in> A" "eth_address a" "vw_map v (reg_addr_key (blake2b E) (rw_account_script_hash raw)) = reg_value a"
    and i: "vw_map v (id_key (blake2b E) (rw_account_script_hash raw)) = id_value i"
    and j: "vw_map v (id_key (blake2b E) (script_hash E (build_l2_sudt_script ctx (rw_sudt_script_hash raw)))) =
      id_value j"
    and ckb: "unat (rw_capacity raw) * 10 ^ 10 + unat (rw_fee raw) \<le>
      unat (vw_map v (bal_key (blake2b E) CKB_SUDT_ACCOUNT_ID a))"
    and sudt: "if j = CKB_SUDT_ACCOUNT_ID then rw_amount raw = 0
      else unat (rw_amount raw) \<le> unat (vw_map v (bal_key (blake2b E) j a))"
    and nonce: "unat (to_u32 (vw_map v (nonce_field i))) + 1 < 2 ^ 32"
  shows "\<exists>r v'. apply_withdrawal_request (view_journal_ops root) E ctx q request v = (Ok r, v')"
proof -
  let ?b = "blake2b E" and ?h = "rw_account_script_hash raw"
  let ?s = "script_hash E (build_l2_sudt_script ctx (rw_sudt_script_hash raw))"
  let ?ckb = "to_layer2 (from_layer1 (rw_capacity raw))"
  have has: "vw_has v k" for k using state_okD(2) [OF S] by simp
  have ra: "get_registry_address_by_script_hash (view_ops root) ?b (rw_registry_id raw) ?h v = (Ok (Some a), v)"
    using a rid has by (simp add: get_registry_address_by_script_hash_view)
  have ia: "get_account_id_by_script_hash (view_ops root) ?b ?h v = (Ok (Some i), v)"
    using i has by (simp add: get_account_id_view)
  obtain r1 v1 where f: "pay_fee (view_ops root) ?b a q CKB_SUDT_ACCOUNT_ID (ucast (rw_fee raw)) v = (r1, v1)"
    by fastforce
  note F = pay_fee_view [OF S a(1) q f]
  have r1: "r1 = Ok ()" using F(3) ckb by (simp add: word_le_nat_alt unat_ucast_up)
  have "unat (vw_map v1 (bal_key ?b CKB_SUDT_ACCOUNT_ID a)) + unat (rw_fee raw) \<ge>
      unat (vw_map v (bal_key ?b CKB_SUDT_ACCOUNT_ID a))"
    using movedD [OF F(4) [OF r1] a(1), of CKB_SUDT_ACCOUNT_ID] by (simp add: credit_def unat_ucast_up split: if_splits)
  then have le: "?ckb \<le> vw_map v1 (bal_key ?b CKB_SUDT_ACCOUNT_ID a)"
    using ckb by (simp add: word_le_nat_alt unat_from_layer1)
  obtain r2 v2 where c: "burn_sudt (view_ops root) ?b CKB_SUDT_ACCOUNT_ID a ?ckb v1 = (r2, v2)" by fastforce
  note C = burn_state_ok [OF F(1) a(1) c]
  have r2: "r2 = Ok ()" using C(3) [OF le] by simp
  have has2: "vw_has v2 k" for k using state_okD(2) [OF C(1)] by simp
  have "vw_map v2 (id_key ?b ?s) = id_value j"
    using token_frameD(5) [OF F(2) hs] token_frameD(5) [OF C(2) hs] j by simp
  then have ja: "get_account_id_by_script_hash (view_ops root) ?b ?s v2 = (Ok (Some j), v2)"
    using has2 by (simp add: get_account_id_view)
  obtain v3 where b3: "(if j \<noteq> CKB_SUDT_ACCOUNT_ID then in_state (burn_sudt (view_ops root) ?b j a (ucast (rw_amount raw)))
      else if rw_amount raw \<noteq> 0 then fail (GWithdrawal WithdrawFakedCKB) else ret ()) v2 = (Ok (), v3)"
  proof (cases "j = CKB_SUDT_ACCOUNT_ID")
    case False
    have "vw_map v2 (bal_key ?b j a) = vw_map v (bal_key ?b j a)"
      using token_frameD(1) [OF F(2) False a(1)] token_frameD(1) [OF C(2) False a(1)] by simp
    then have "ucast (rw_amount raw) \<le> vw_map v2 (bal_key ?b j a)"
      using sudt False by (simp add: word_le_nat_alt unat_ucast_up)
    moreover obtain r3 v3 where b: "burn_sudt (view_ops root) ?b j a (ucast (rw_amount raw)) v2 = (r3, v3)"
      by fastforce
    ultimately have "r3 = Ok ()" using burn_state_ok(3) [OF C(1) a(1) b] by simp
    then show thesis using that [of v3] b False by simp
  qed (use sudt that in simp)
  note B = sudt_burn_view [OF C(1) a(1) b3]
  have has3: "vw_has v3 k" for k using state_okD(2) [OF B(1)] by simp
  have "vw_map v3 (nonce_field i) = vw_map v (nonce_field i)"
    using token_frameD(4) [OF F(2)] token_frameD(4) [OF C(2)] token_frameD(4) [OF B(2)] by simp
  then have "checked_add (to_u32 (vw_map v3 (nonce_field i))) 1 = Some (to_u32 (vw_map v3 (nonce_field i)) + 1)"
    using nonce by (simp add: checked_add_def)
  then show ?thesis
    unfolding apply_withdrawal_request_def Let_def raw_def [symmetric]
      view_journal_methods view_journal_methods2 view_journal_fields
    using ra ia f r1 c r2 ja b3 has3
    by (simp add: sbind_run map_err_def get_nonce_view set_nonce_view view_ops_run
        del: sbind_prim_simps split del: if_split)
qed

end
