(* ===== verification/Gw_Sample.thy ===== *)
theory Gw_Sample
  imports Gw_Rollup_State Gw_Block_State
begin

text \<open>
  Concrete parameters on which the hypotheses of the properties hold: a hash whose keys do not
  collide, serialisations, and a sound empty state.
\<close>

section \<open>A hash without collisions on the keys in use\<close>

text \<open>Keep the first five bytes, which are the account and the type of a key, and add up the rest.\<close>

definition tag_hash :: hasher where
  "tag_hash bs = h256_of_bytes (take 5 (bs @ replicate 5 0) @
     to_le_bytes 4 (of_nat (sum_list (map unat (drop 5 bs))) :: u32) @ replicate 23 0)"

lemma tag_hash_bytes:
  "as_slice (tag_hash bs) = take 5 (bs @ replicate 5 0) @
     to_le_bytes 4 (of_nat (sum_list (map unat (drop 5 bs))) :: u32) @ replicate 23 0"
  by (simp add: tag_hash_def as_slice_of_bytes)

lemma tag_hash_key:
  assumes "length p = 4"
  shows "as_slice (tag_hash (p @ t # rest)) =
    p @ [t] @ to_le_bytes 4 (of_nat (sum_list (map unat rest)) :: u32) @ replicate 23 0"
  using assms by (simp add: tag_hash_bytes numeral_eq_Suc)

definition sample_script_hash :: h256 where "sample_script_hash = tag_hash [52]"
definition sample_sudt_hash :: h256 where "sample_sudt_hash = tag_hash [64]"

abbreviation sample_H :: "h256 set" where "sample_H \<equiv> {sample_script_hash, sample_sudt_hash}"
abbreviation sample_A :: "registry_address set" where "sample_A \<equiv> {sample_address}"

lemma to_le_bytes_0: "to_le_bytes n (0 :: 'a::len word) = replicate n 0"
  by (rule nth_equalityI) simp_all

lemma sample_slices:
  "as_slice sample_script_hash = 52 # replicate 31 0" "as_slice sample_sudt_hash = 64 # replicate 31 0"
  by (simp_all add: sample_script_hash_def sample_sudt_hash_def tag_hash_bytes to_le_bytes_0
      flip: replicate_add)

lemma sample_sums:
  "sum_list (map unat (as_slice sample_script_hash)) = 52"
  "sum_list (map unat (as_slice sample_sudt_hash)) = 64"
  "sum_list (map unat (ra_encoding sample_address)) = 162"
proof -
  have "to_le_bytes 4 (2 :: u32) = [2, 0, 0, 0]" "to_le_bytes 4 (20 :: u32) = [20, 0, 0, 0]"
    by (simp_all add: to_le_bytes_def upt_rec)
  then show "sum_list (map unat (ra_encoding sample_address)) = 162"
    by (simp add: ra_encoding_def sample_address_def sum_list_replicate)
qed (simp_all add: sample_slices sum_list_replicate)

lemma sample_distinct: "sample_script_hash \<noteq> sample_sudt_hash" "sample_script_hash \<noteq> 0" "sample_sudt_hash \<noteq> 0"
proof -
  have "hd (as_slice 0) = 0" by (simp add: as_slice_def to_le_bytes_0)
  moreover have "hd (as_slice sample_script_hash) = 52" "hd (as_slice sample_sudt_hash) = 64"
    by (simp_all add: sample_slices)
  ultimately show "sample_script_hash \<noteq> sample_sudt_hash" "sample_script_hash \<noteq> 0" "sample_sudt_hash \<noteq> 0"
    by auto
qed

text \<open>The bytes of each key: account, type and sum.\<close>

lemma sample_key_bytes:
  "as_slice (bal_key tag_hash i sample_address) = to_le_bytes 4 i @ [0] @ to_le_bytes 4 (163 :: u32) @ replicate 23 0"
  "as_slice (sup_key tag_hash i) = to_le_bytes 4 i @ [0] @ to_le_bytes 4 (8160 :: u32) @ replicate 23 0"
  "as_slice (script_field i) = to_le_bytes 4 i @ [2] @ replicate 27 0"
  "as_slice (nonce_field i) = to_le_bytes 4 i @ [1] @ replicate 27 0"
  "as_slice (id_key tag_hash sample_script_hash) =
     to_le_bytes 4 (0 :: u32) @ [3] @ to_le_bytes 4 (52 :: u32) @ replicate 23 0"
  "as_slice (id_key tag_hash sample_sudt_hash) =
     to_le_bytes 4 (0 :: u32) @ [3] @ to_le_bytes 4 (64 :: u32) @ replicate 23 0"
  "as_slice (reg_addr_key tag_hash sample_script_hash) =
     to_le_bytes 4 (2 :: u32) @ [0] @ to_le_bytes 4 (371 :: u32) @ replicate 23 0"
  "as_slice (reg_addr_key tag_hash sample_sudt_hash) =
     to_le_bytes 4 (2 :: u32) @ [0] @ to_le_bytes 4 (383 :: u32) @ replicate 23 0"
  "as_slice (reg_hash_key tag_hash sample_address) =
     to_le_bytes 4 (2 :: u32) @ [0] @ to_le_bytes 4 (482 :: u32) @ replicate 23 0"
proof -
  have one: "sum_list (map unat (to_le_bytes 4 (1 :: u32))) = 1"
    by (simp add: to_le_bytes_def upt_rec)
  show "as_slice (bal_key tag_hash i sample_address) = to_le_bytes 4 i @ [0] @ to_le_bytes 4 (163 :: u32) @ replicate 23 0"
    "as_slice (sup_key tag_hash i) = to_le_bytes 4 i @ [0] @ to_le_bytes 4 (8160 :: u32) @ replicate 23 0"
    by (simp_all add: bal_key_def sup_key_def build_account_key_def tag_hash_key one sample_sums
        GW_ACCOUNT_KV_TYPE_def SUDT_KEY_FLAG_BALANCE_def SUDT_TOTAL_SUPPLY_KEY_def sum_list_replicate
        del: of_nat_add)
  show "as_slice (script_field i) = to_le_bytes 4 i @ [2] @ replicate 27 0"
    "as_slice (nonce_field i) = to_le_bytes 4 i @ [1] @ replicate 27 0"
    by (simp_all add: script_field_def nonce_field_def field_key_bytes GW_ACCOUNT_SCRIPT_HASH_TYPE_def
        GW_ACCOUNT_NONCE_TYPE_def)
  show "as_slice (id_key tag_hash sample_script_hash) =
     to_le_bytes 4 (0 :: u32) @ [3] @ to_le_bytes 4 (52 :: u32) @ replicate 23 0"
    "as_slice (id_key tag_hash sample_sudt_hash) =
     to_le_bytes 4 (0 :: u32) @ [3] @ to_le_bytes 4 (64 :: u32) @ replicate 23 0"
    by (simp_all add: id_key_def build_script_hash_to_account_id_key_def GW_NON_ACCOUNT_PLACEHOLDER_def
        GW_SCRIPT_HASH_TO_ID_TYPE_def tag_hash_key [of "replicate 4 0"] sample_sums to_le_bytes_0)
  show "as_slice (reg_addr_key tag_hash sample_script_hash) =
     to_le_bytes 4 (2 :: u32) @ [0] @ to_le_bytes 4 (371 :: u32) @ replicate 23 0"
    "as_slice (reg_addr_key tag_hash sample_sudt_hash) =
     to_le_bytes 4 (2 :: u32) @ [0] @ to_le_bytes 4 (383 :: u32) @ replicate 23 0"
    "as_slice (reg_hash_key tag_hash sample_address) =
     to_le_bytes 4 (2 :: u32) @ [0] @ to_le_bytes 4 (482 :: u32) @ replicate 23 0"
    by (simp_all add: reg_addr_key_def reg_hash_key_def build_account_key_def script_hash_key_eq
        tag_hash_key sample_sums GW_ACCOUNT_KV_TYPE_def REGISTRY_KEY_PREFIX_def
        REGISTRY_KEY_FLAG_SCRIPT_HASH_TO_NATIVE_def REGISTRY_KEY_FLAG_NATIVE_TO_SCRIPT_HASH_def
        ETH_REGISTRY_ACCOUNT_ID_def del: of_nat_add)
qed

lemma le4_eq: "to_le_bytes 4 (i :: u32) = to_le_bytes 4 j \<longleftrightarrow> i = j"
  by (simp add: to_le_bytes_inject)

lemma slice_neq: "as_slice a \<noteq> as_slice b \<Longrightarrow> a \<noteq> b"
  by blast

lemma sample_keys_differ [simp]:
  "bal_key tag_hash i sample_address \<noteq> sup_key tag_hash i'"
  "bal_key tag_hash i sample_address \<noteq> script_field j"
  "bal_key tag_hash i sample_address \<noteq> nonce_field j"
  "bal_key tag_hash i sample_address \<noteq> id_key tag_hash sample_script_hash"
  "bal_key tag_hash i sample_address \<noteq> id_key tag_hash sample_sudt_hash"
  "bal_key tag_hash i sample_address \<noteq> reg_addr_key tag_hash sample_script_hash"
  "bal_key tag_hash i sample_address \<noteq> reg_addr_key tag_hash sample_sudt_hash"
  "bal_key tag_hash i sample_address \<noteq> reg_hash_key tag_hash sample_address"
  "sup_key tag_hash i \<noteq> bal_key tag_hash i' sample_address"
  "sup_key tag_hash i \<noteq> script_field j"
  "sup_key tag_hash i \<noteq> nonce_field j"
  "sup_key tag_hash i \<noteq> id_key tag_hash sample_script_hash"
  "sup_key tag_hash i \<noteq> id_key tag_hash sample_sudt_hash"
  "sup_key tag_hash i \<noteq> reg_addr_key tag_hash sample_script_hash"
  "sup_key tag_hash i \<noteq> reg_addr_key tag_hash sample_sudt_hash"
  "sup_key tag_hash i \<noteq> reg_hash_key tag_hash sample_address"
  "script_field j \<noteq> bal_key tag_hash i sample_address"
  "script_field j \<noteq> sup_key tag_hash i"
  "script_field j \<noteq> id_key tag_hash sample_script_hash"
  "script_field j \<noteq> id_key tag_hash sample_sudt_hash"
  "script_field j \<noteq> reg_addr_key tag_hash sample_script_hash"
  "script_field j \<noteq> reg_addr_key tag_hash sample_sudt_hash"
  "script_field j \<noteq> reg_hash_key tag_hash sample_address"
  "nonce_field j \<noteq> bal_key tag_hash i sample_address"
  "nonce_field j \<noteq> sup_key tag_hash i"
  "nonce_field j \<noteq> id_key tag_hash sample_script_hash"
  "nonce_field j \<noteq> id_key tag_hash sample_sudt_hash"
  "nonce_field j \<noteq> reg_addr_key tag_hash sample_script_hash"
  "nonce_field j \<noteq> reg_addr_key tag_hash sample_sudt_hash"
  "nonce_field j \<noteq> reg_hash_key tag_hash sample_address"
  "id_key tag_hash sample_script_hash \<noteq> bal_key tag_hash i sample_address"
  "id_key tag_hash sample_script_hash \<noteq> sup_key tag_hash i"
  "id_key tag_hash sample_script_hash \<noteq> script_field j"
  "id_key tag_hash sample_script_hash \<noteq> nonce_field j"
  "id_key tag_hash sample_script_hash \<noteq> id_key tag_hash sample_sudt_hash"
  "id_key tag_hash sample_script_hash \<noteq> reg_addr_key tag_hash sample_script_hash"
  "id_key tag_hash sample_script_hash \<noteq> reg_addr_key tag_hash sample_sudt_hash"
  "id_key tag_hash sample_script_hash \<noteq> reg_hash_key tag_hash sample_address"
  "id_key tag_hash sample_sudt_hash \<noteq> bal_key tag_hash i sample_address"
  "id_key tag_hash sample_sudt_hash \<noteq> sup_key tag_hash i"
  "id_key tag_hash sample_sudt_hash \<noteq> script_field j"
  "id_key tag_hash sample_sudt_hash \<noteq> nonce_field j"
  "id_key tag_hash sample_sudt_hash \<noteq> id_key tag_hash sample_script_hash"
  "id_key tag_hash sample_sudt_hash \<noteq> reg_addr_key tag_hash sample_script_hash"
  "id_key tag_hash sample_sudt_hash \<noteq> reg_addr_key tag_hash sample_sudt_hash"
  "id_key tag_hash sample_sudt_hash \<noteq> reg_hash_key tag_hash sample_address"
  "reg_addr_key tag_hash sample_script_hash \<noteq> bal_key tag_hash i sample_address"
  "reg_addr_key tag_hash sample_script_hash \<noteq> sup_key tag_hash i"
  "reg_addr_key tag_hash sample_script_hash \<noteq> script_field j"
  "reg_addr_key tag_hash sample_script_hash \<noteq> nonce_field j"
  "reg_addr_key tag_hash sample_script_hash \<noteq> id_key tag_hash sample_script_hash"
  "reg_addr_key tag_hash sample_script_hash \<noteq> id_key tag_hash sample_sudt_hash"
  "reg_addr_key tag_hash sample_script_hash \<noteq> reg_addr_key tag_hash sample_sudt_hash"
  "reg_addr_key tag_hash sample_script_hash \<noteq> reg_hash_key tag_hash sample_address"
  "reg_addr_key tag_hash sample_sudt_hash \<noteq> bal_key tag_hash i sample_address"
  "reg_addr_key tag_hash sample_sudt_hash \<noteq> sup_key tag_hash i"
  "reg_addr_key tag_hash sample_sudt_hash \<noteq> script_field j"
  "reg_addr_key tag_hash sample_sudt_hash \<noteq> nonce_field j"
  "reg_addr_key tag_hash sample_sudt_hash \<noteq> id_key tag_hash sample_script_hash"
  "reg_addr_key tag_hash sample_sudt_hash \<noteq> id_key tag_hash sample_sudt_hash"
  "reg_addr_key tag_hash sample_sudt_hash \<noteq> reg_addr_key tag_hash sample_script_hash"
  "reg_addr_key tag_hash sample_sudt_hash \<noteq> reg_hash_key tag_hash sample_address"
  "reg_hash_key tag_hash sample_address \<noteq> bal_key tag_hash i sample_address"
  "reg_hash_key tag_hash sample_address \<noteq> sup_key tag_hash i"
  "reg_hash_key tag_hash sample_address \<noteq> script_field j"
  "reg_hash_key tag_hash sample_address \<noteq> nonce_field j"
  "reg_hash_key tag_hash sample_address \<noteq> id_key tag_hash sample_script_hash"
  "reg_hash_key tag_hash sample_address \<noteq> id_key tag_hash sample_sudt_hash"
  "reg_hash_key tag_hash sample_address \<noteq> reg_addr_key tag_hash sample_script_hash"
  "reg_hash_key tag_hash sample_address \<noteq> reg_addr_key tag_hash sample_sudt_hash"
  by (rule slice_neq, simp add: sample_key_bytes le4_eq del: as_slice_inject)+

lemma sample_no_collision: "no_collision tag_hash sample_A sample_H"
proof -
  have "k = k'" if "in_use sample_A sample_H k" "in_use sample_A sample_H k'"
    "raw_key tag_hash k = raw_key tag_hash k'" for k k'
  proof -
    have "as_slice (raw_key tag_hash k) = as_slice (raw_key tag_hash k')" using that(3) by simp
    then show ?thesis
      using that(1,2) by (cases k; cases k') (auto simp: sample_key_bytes le4_eq simp del: as_slice_inject)
  qed
  moreover have "ra_fits sample_address" by (simp add: ra_fits_def sample_address_def ra_len_def)
  ultimately show ?thesis by (simp add: no_collision_def)
qed


section \<open>Serialisations, a configuration and an empty state\<close>

text \<open>A script is identified by the length of its arguments.\<close>

definition sample_externs :: externs where
  "sample_externs = \<lparr>
     blake2b = tag_hash, script_as_slice = (\<lambda>s. [of_nat (length (sc_args s))]),
     raw_l2block_as_slice = (\<lambda>b. [1, ucast (rb_number b)]), raw_l2transaction_as_slice = (\<lambda>_. []),
     l2transaction_as_slice = (\<lambda>_. []), raw_withdrawal_request_as_slice = (\<lambda>_. []),
     withdrawal_request_as_slice = (\<lambda>_. []), rollup_config_as_slice = (\<lambda>_. []),
     build_merkle_root = (\<lambda>_ _. 0) \<rparr>"

lemma sample_externs_hash [simp]:
  "blake2b sample_externs = tag_hash"
  "length (sc_args s) = 52 \<Longrightarrow> script_hash sample_externs s = sample_script_hash"
  "length (sc_args s) = 64 \<Longrightarrow> script_hash sample_externs s = sample_sudt_hash"
  by (simp_all add: sample_externs_def script_hash_def sample_script_hash_def sample_sudt_hash_def)

definition sample_config :: rollup_config where
  "sample_config = \<lparr>
     rc_l1_sudt_script_type_hash = 1, rc_custodian_script_type_hash = 2,
     rc_deposit_script_type_hash = 3, rc_withdrawal_script_type_hash = 4,
     rc_challenge_script_type_hash = 5, rc_stake_script_type_hash = 6,
     rc_l2_sudt_validator_script_type_hash = 7, rc_burn_lock_hash = 8,
     rc_required_staking_capacity = 100, rc_challenge_maturity_blocks = 10,
     rc_finality_blocks = 20, rc_reward_burn_rate = 50, rc_chain_id = 71400,
     rc_allowed_eoa_type_hashes = [\<lparr> ath_type = 1, ath_hash = 9 \<rparr>],
     rc_allowed_contract_type_hashes = [\<lparr> ath_type = 1, ath_hash = 10 \<rparr>, \<lparr> ath_type = 2, ath_hash = 7 \<rparr>] \<rparr>"

abbreviation sample_view :: "(h256 \<Rightarrow> h256, fkv) history_state state_db \<Rightarrow> view" where
  "sample_view \<equiv> block_state_view (\<lambda>t. t) fkv_abs plain_script"

abbreviation sample_good :: "(h256 \<Rightarrow> h256, fkv) history_state state_db \<Rightarrow> bool" where
  "sample_good \<equiv> block_state_good (\<lambda>_. True) fkv_abs (\<lambda>_. True) plain_script"

lemma empty_state_ok: "state_ok tag_hash sample_A sample_H (sample_view empty_block_state)"
proof -
  note nc = sample_no_collision
  have "account_keys_ok tag_hash sample_H (sample_view empty_block_state)"
    using table_keys_differ(1-3) [OF nc]
    by (auto simp: account_keys_ok_def inj_on_def empty_block_state_view)
  moreover have "registry_keys_ok tag_hash sample_H sample_A (sample_view empty_block_state)"
    using table_keys_differ(6-8) [OF nc]
    by (auto simp: registry_keys_ok_def inj_on_def empty_block_state_view)
  ultimately show ?thesis
    using nc by (simp add: state_ok_def holdings_def tot_supply_def accounts_ok_def registry_ok_def
        scripts_ok_def empty_block_state_view)
qed

lemma sample_address_eth [simp]: "eth_address sample_address"
  by (simp add: eth_address_def sample_address_def ETH_REGISTRY_ACCOUNT_ID_def)

end
