(* ===== verification/Gw_Block_Ops.thy ===== *)
theory Gw_Block_Ops
  imports Gw_StateExt Gw_Sample
begin

text \<open>
  Deposits, withdrawals and fees on the state of a block: \<open>StateExt\<close> over \<open>StateDB\<close> over
  \<open>HistoryState\<close>. The contract of the journal gives each operation its meaning on the plain map
  the block state represents, where the accounting lemmas of \<open>Gw_StateExt\<close> apply.
\<close>

section \<open>The contract of the journal\<close>

locale journal_contract = code_state_contract T view good root
  for T :: "('s, 'x) finalise_ops_scheme" and view good root +
  assumes sim_finalised_root [sim_intros]:
    "simulates good view (sbind (jd_finalise T) (\<lambda>_. st_calculate_root T))
       (sbind (ret ()) (\<lambda>_. st_calculate_root (view_ops root)))"

lemma map_err_sbind:
  "sbind (map_err g m) (\<lambda>_. sbind (map_err g n) f) = sbind (map_err g (sbind m (\<lambda>_. n))) f"
  by (rule ext) (simp add: sbind_run map_err_def split: prod.splits outcome.splits)

context journal_contract
begin

lemma sim_pay_fee [sim_intros]:
  "simulates good view (pay_fee T b2b p q i n) (pay_fee (view_ops root) b2b p q i n)"
  unfolding pay_fee_def by (intro sim_intros)

lemma sim_create_account_from_script [sim_intros]:
  "simulates good view (create_account_from_script T E s) (create_account_from_script (view_ops root) E s)"
  unfolding create_account_from_script_def by (intro sim_intros)

lemma sim_deposit_address [sim_intros]:
  "simulates good view (deposit_address T E ctx r) (deposit_address (view_ops root) E ctx r)"
  unfolding deposit_address_def by (intro sim_intros)

lemma sim_deposit_sudt_id [sim_intros]:
  "simulates good view (deposit_sudt_id T E ctx s) (deposit_sudt_id (view_ops root) E ctx s)"
  unfolding deposit_sudt_id_def by (intro sim_intros)

lemma sim_apply_deposit [sim_intros]:
  "simulates good view (apply_deposit_request T E ctx r) (apply_deposit_request (view_ops root) E ctx r)"
  unfolding apply_deposit_request_def by (intro sim_intros)

lemma sim_apply_withdrawal [sim_intros]:
  "simulates good view (apply_withdrawal_request T E ctx q r)
     (apply_withdrawal_request (view_journal_ops root) E ctx q r)"
  unfolding apply_withdrawal_request_def map_err_sbind [of _ "jd_finalise _"]
    map_err_sbind [of _ "ret ()"]
    view_journal_methods view_journal_methods2 view_journal_fields
  by (intro sim_intros)

end

section \<open>The block state satisfies it\<close>

definition block_journal_ops ::
  "'t smt_ops \<Rightarrow> ('k, 'x) rocks_ops_scheme \<Rightarrow> script codec \<Rightarrow> hash_iter \<Rightarrow>
     ('t, 'k) history_state state_db finalise_ops" where
  "block_journal_ops S K sc it = sdb_journal_ops (history_ops S (tx_history_ops K sc)) it"

lemma block_journal_fields:
  "st_get_raw (block_journal_ops S K sc it) = st_get_raw (block_state_ops S K sc)"
  "st_update_raw (block_journal_ops S K sc it) = st_update_raw (block_state_ops S K sc)"
  "st_get_account_count (block_journal_ops S K sc it) = st_get_account_count (block_state_ops S K sc)"
  "st_set_account_count (block_journal_ops S K sc it) = st_set_account_count (block_state_ops S K sc)"
  "cs_insert_script (block_journal_ops S K sc it) = cs_insert_script (block_state_ops S K sc)"
  "cs_get_script (block_journal_ops S K sc it) = cs_get_script (block_state_ops S K sc)"
  "cs_insert_data (block_journal_ops S K sc it) = cs_insert_data (block_state_ops S K sc)"
  "cs_get_data (block_journal_ops S K sc it) = cs_get_data (block_state_ops S K sc)"
  by (simp_all add: block_journal_ops_def sdb_journal_ops_def block_state_ops_def sdb_ops_def)

locale block_journal = block_state S sem tgood root K absf good sc
  for S :: "'t smt_ops" and sem tgood root
    and K :: "('k, 'x) rocks_ops_scheme" and absf good sc +
  fixes it :: hash_iter
  assumes it: "hash_iter_ok it"
begin

lemma root_view:
  "history_good tgood (tx_good good absf sc) h \<Longrightarrow>
     smt_root S (hi_tree h) = root (vw_map (history_store_view sem absf sc h))"
  by (simp add: history_good_def history_store_view_def history_view_def tree.root_sem)

lemma finalised_root:
  "simulates (block_state_good tgood absf good sc) (block_state_view sem absf sc)
     (sbind (jd_finalise (block_journal_ops S K sc it)) (\<lambda>_. st_calculate_root (block_journal_ops S K sc it)))
     (sbind (ret ()) (\<lambda>_. st_calculate_root (view_ops root)))"
proof (rule simulatesI)
  fix db r db'
  let ?h = "history_ops S (tx_history_ops K sc)"
  assume g: "block_state_good tgood absf good sc db"
    and run: "sbind (jd_finalise (block_journal_ops S K sc it))
      (\<lambda>_. st_calculate_root (block_journal_ops S K sc it)) db = (r, db')"
  obtain d where d: "finalise ?h it db = (Ok (), d)" "block_state_good tgood absf good sc d"
    "\<not> is_dirty d" "block_state_view sem absf sc d = block_state_view sem absf sc db"
    "history_store_view sem absf sc (sd_state d) = block_state_view sem absf sc db"
    using block_finalise [OF g it] by blast
  have run': "on_inner (st_calculate_root ?h) d = (r, db')"
    using run d(1,3)
    by (simp add: block_journal_ops_def sdb_journal_ops_def sdb_calculate_root_def sbind_run)
  have gh: "history_good tgood (tx_good good absf sc) (sd_state d)"
    using d(2) by (simp add: block_state_good_def)
  show "block_state_good tgood absf good sc db' \<and>
      sbind (ret ()) (\<lambda>_. st_calculate_root (view_ops root)) (block_state_view sem absf sc db) =
        (r, block_state_view sem absf sc db')"
    using run' d(2,4) root_view [OF gh] d(5)
    by (auto simp: on_inner_def history_ops_def view_ops_run)
qed

end


sublocale block_journal \<subseteq> bj: journal_contract "block_journal_ops S K sc it"
    "block_state_view sem absf sc" "block_state_good tgood absf good sc" root
  by unfold_locales (unfold block_journal_fields, (rule bs.sim_get_raw bs.sim_update_raw
    bs.sim_get_account_count bs.sim_set_account_count bs.sim_insert_script bs.sim_get_script
    bs.sim_insert_data bs.sim_get_data finalised_root)+)

interpretation fbj: block_journal "map_tree_ops root" "\<lambda>t. t" "\<lambda>_. True" root
    fkv_ops "\<lambda>s c. fmlookup (s c)" "\<lambda>_. True" plain_script
    "\<lparr> it_state = rev, it_scripts = rev, it_data = rev \<rparr>"
  for root
  by unfold_locales (simp add: hash_iter_ok_def)

lemma block_journalI:
  "smt_contract S sem tgood root \<Longrightarrow> tx_store K absf good sc \<Longrightarrow> hash_iter_ok it \<Longrightarrow>
     block_journal S sem tgood root K absf good sc it"
  by (simp add: block_journal_def block_journal_axioms_def block_stateI)


section \<open>What each operation does to the state of a block\<close>

context block_journal
begin

lemma run_journal:
  assumes "simulates (block_state_good tgood absf good sc) (block_state_view sem absf sc) m m'"
    and "block_state_good tgood absf good sc db" and "m db = (r, db')"
  shows "m' (block_state_view sem absf sc db) = (r, block_state_view sem absf sc db')"
  by (rule run_on_view(2) [OF assms])

lemmas block_deposit = run_journal [OF bj.sim_apply_deposit]
lemmas block_withdrawal = run_journal [OF bj.sim_apply_withdrawal]
lemmas block_pay_fee = run_journal [OF bj.sim_pay_fee]

end

text \<open>
  C20. A deposit that succeeds mints exactly what it brings. The recipient is the registered
  address of the deposit's script, it is credited the capacity in layer-2 units and the sUDT
  amount, no other balance changes, and the supply of every token grows by what was credited.
  A deposit of the native token carries no sUDT amount, and an sUDT deposit never credits the
  native token's ledger. The state stays sound.
\<close>

theorem deposit_mints_exactly:
  assumes "smt_contract S sem tgood root" and "tx_store K absf good sc" and "hash_iter_ok it"
    and "block_state_good tgood absf good sc db"
    and S: "state_ok (blake2b E) A H (block_state_view sem absf sc db)"
    and "script_hash E (dr_script request) \<in> H"
    and "script_hash E (build_l2_sudt_script ctx (dr_sudt_script_hash request)) \<in> H"
    and "dr_registry_id request = ETH_REGISTRY_ACCOUNT_ID"
    and "\<And>x. extract_registry_address_from_deposit
        (rc_allowed_eoa_type_hashes (rx_rollup_config ctx)) (dr_registry_id request)
        (sc_code_hash (dr_script request)) (sc_args (dr_script request)) = Ok x \<Longrightarrow> x \<in> A"
    and "apply_deposit_request (block_journal_ops S K sc it) E ctx request db = (Ok (), db')"
  shows "let v = block_state_view sem absf sc db; v' = block_state_view sem absf sc db';
      sudt = dr_sudt_script_hash request \<noteq> CKB_SUDT_SCRIPT_ARGS in
    state_ok (blake2b E) A H v' \<and> (\<exists>a\<in>A. \<exists>j.
      vw_map v' (reg_addr_key (blake2b E) (script_hash E (dr_script request))) = reg_value a \<and>
      moved (blake2b E) A (deposited request a j) nothing v v' \<and>
      (\<forall>i. tot_supply (blake2b E) i v' = tot_supply (blake2b E) i v +
        (if i = CKB_SUDT_ACCOUNT_ID then unat (dr_capacity request) * 10 ^ 10 else 0) +
        (if sudt \<and> i = j then unat (dr_amount request) else 0)) \<and>
      (if sudt then j \<noteq> CKB_SUDT_ACCOUNT_ID \<and> vw_map v' (id_key (blake2b E) (script_hash E
         (build_l2_sudt_script ctx (dr_sudt_script_hash request)))) = id_value j
       else dr_amount request = 0))"
proof -
  let ?v = "block_state_view sem absf sc db" and ?v' = "block_state_view sem absf sc db'"
  have "apply_deposit_request (view_ops root) E ctx request ?v = (Ok (), ?v')"
    by (rule block_journal.block_deposit [OF block_journalI [OF assms(1-3)] assms(4,10)])
  note D = apply_deposit_view [OF assms(5-9) this]
  then obtain a j where a: "a \<in> A" "moved (blake2b E) A (deposited request a j) nothing ?v ?v'"
    "vw_map ?v' (reg_addr_key (blake2b E) (script_hash E (dr_script request))) = reg_value a"
    "if dr_sudt_script_hash request = CKB_SUDT_SCRIPT_ARGS then dr_amount request = 0
     else j \<noteq> CKB_SUDT_ACCOUNT_ID \<and> vw_map ?v' (id_key (blake2b E) (script_hash E
       (build_l2_sudt_script ctx (dr_sudt_script_hash request)))) = id_value j"
    and S': "state_ok (blake2b E) A H ?v'"
    by blast
  have sup: "tot_supply (blake2b E) i ?v' = tot_supply (blake2b E) i ?v +
      (if i = CKB_SUDT_ACCOUNT_ID then unat (dr_capacity request) * 10 ^ 10 else 0) +
      (if dr_sudt_script_hash request \<noteq> CKB_SUDT_SCRIPT_ARGS \<and> i = j then unat (dr_amount request) else 0)"
    for i using moved_supply [OF S S' a(2), of i] sum_deposited [OF state_okD(6) [OF S] a(1)] by simp
  show ?thesis unfolding Let_def using S' a sup
    by (intro conjI bexI [of _ a] exI [of _ j]) auto
qed

text \<open>
  C19. A withdrawal that succeeds burns exactly what it takes out. The withdrawing account pays
  the fee to the block producer and loses the capacity and the sUDT amount, no other balance
  changes, and only the withdrawn tokens leave the supply. The account's nonce grows by one, and
  the receipt carries the root and count of the state it leaves. The state stays sound.
\<close>

theorem withdrawal_burns_exactly:
  fixes request :: withdrawal_request
  assumes "smt_contract S sem tgood root" and "tx_store K absf good sc" and "hash_iter_ok it"
    and "block_state_good tgood absf good sc db"
    and S: "state_ok (blake2b E) A H (block_state_view sem absf sc db)"
    and "rw_account_script_hash (wr_raw request) \<in> H"
    and "script_hash E (build_l2_sudt_script ctx (rw_sudt_script_hash (wr_raw request))) \<in> H"
    and "rw_registry_id (wr_raw request) = ETH_REGISTRY_ACCOUNT_ID" and "q \<in> A"
    and "apply_withdrawal_request (block_journal_ops S K sc it) E ctx q request db = (Ok receipt, db')"
  shows "let v = block_state_view sem absf sc db; v' = block_state_view sem absf sc db';
      raw = wr_raw request in
    state_ok (blake2b E) A H v' \<and>
    receipt = \<lparr> ams_merkle_root = root (vw_map v'), ams_count = vw_count v \<rparr> \<and>
    (\<exists>a\<in>A. \<exists>i j. vw_map v (reg_addr_key (blake2b E) (rw_account_script_hash raw)) = reg_value a \<and>
      vw_map v (id_key (blake2b E) (rw_account_script_hash raw)) = id_value i \<and>
      vw_map v (id_key (blake2b E) (script_hash E
        (build_l2_sudt_script ctx (rw_sudt_script_hash raw)))) = id_value j \<and>
      unat (to_u32 (vw_map v' (nonce_field i))) = unat (to_u32 (vw_map v (nonce_field i))) + 1 \<and>
      moved (blake2b E) A (credit CKB_SUDT_ACCOUNT_ID q (unat (rw_fee raw)))
        (\<lambda>k c. credit CKB_SUDT_ACCOUNT_ID a (unat (rw_fee raw)) k c + withdrawn raw a j k c) v v' \<and>
      (\<forall>k. tot_supply (blake2b E) k v' +
        (if k = CKB_SUDT_ACCOUNT_ID then unat (rw_capacity raw) * 10 ^ 10
         else if k = j then unat (rw_amount raw) else 0) = tot_supply (blake2b E) k v) \<and>
      (j = CKB_SUDT_ACCOUNT_ID \<longrightarrow> rw_amount raw = 0))"
proof -
  let ?v = "block_state_view sem absf sc db" and ?v' = "block_state_view sem absf sc db'"
  let ?raw = "wr_raw request"
  have "apply_withdrawal_request (view_journal_ops root) E ctx q request ?v = (Ok receipt, ?v')"
    by (rule block_journal.block_withdrawal [OF block_journalI [OF assms(1-3)] assms(4,10)])
  note W = apply_withdrawal_view [OF assms(5-9) this]
  then obtain a i j where a: "a \<in> A"
    "moved (blake2b E) A (credit CKB_SUDT_ACCOUNT_ID q (unat (rw_fee ?raw)))
       (\<lambda>k c. credit CKB_SUDT_ACCOUNT_ID a (unat (rw_fee ?raw)) k c + withdrawn ?raw a j k c) ?v ?v'"
    and rest: "vw_map ?v (reg_addr_key (blake2b E) (rw_account_script_hash ?raw)) = reg_value a"
      "vw_map ?v (id_key (blake2b E) (rw_account_script_hash ?raw)) = id_value i"
      "vw_map ?v (id_key (blake2b E) (script_hash E
        (build_l2_sudt_script ctx (rw_sudt_script_hash ?raw)))) = id_value j"
      "unat (to_u32 (vw_map ?v' (nonce_field i))) = unat (to_u32 (vw_map ?v (nonce_field i))) + 1"
      "j = CKB_SUDT_ACCOUNT_ID \<longrightarrow> rw_amount ?raw = 0"
    and S': "state_ok (blake2b E) A H ?v'" by blast
  note sc = sum_credit [OF state_okD(6) [OF S]]
  have "tot_supply (blake2b E) k ?v' +
      (if k = CKB_SUDT_ACCOUNT_ID then unat (rw_capacity ?raw) * 10 ^ 10
       else if k = j then unat (rw_amount ?raw) else 0) = tot_supply (blake2b E) k ?v" for k
    using moved_supply [OF S S' a(2), of k] sc [OF assms(9)] sc [OF a(1)]
      sum_withdrawn [OF state_okD(6) [OF S] a(1)]
    by (simp add: sum.distrib)
  moreover have "receipt = \<lparr> ams_merkle_root = root (vw_map ?v'), ams_count = vw_count ?v \<rparr>"
    using W by simp
  ultimately show ?thesis unfolding Let_def using a rest S' by blast
qed


section \<open>A concrete rollup\<close>

definition sample_context :: rollup_context where
  "sample_context = \<lparr> rx_rollup_script_hash = 11, rx_rollup_config = sample_config,
     rx_fork_config = \<lparr> fc_increase_max_l2_tx_cycles_to_500m = None,
       fc_upgrade_global_state_version_to_v2 = None \<rparr> \<rparr>"

definition sample_script :: script where
  "sample_script = \<lparr> sc_code_hash = 9, sc_hash_type = 1, sc_args = as_slice 11 @ replicate 20 7 \<rparr>"

definition sample_deposit :: deposit_request where
  "sample_deposit = \<lparr> dr_capacity = 500, dr_amount = 0, dr_sudt_script_hash = 0,
     dr_script = sample_script, dr_registry_id = 2 \<rparr>"

definition sample_withdrawal :: withdrawal_request where
  "sample_withdrawal = \<lparr> wr_raw = \<lparr> rw_nonce = 0, rw_chain_id = 71400, rw_capacity = 300, rw_amount = 0,
     rw_sudt_script_hash = 0, rw_account_script_hash = sample_script_hash, rw_registry_id = 2,
     rw_owner_lock_hash = 1, rw_fee = 10 \<rparr>, wr_signature = [] \<rparr>"

lemma sample_hashes [simp]:
  "script_hash sample_externs sample_script = sample_script_hash"
  "script_hash sample_externs (build_l2_sudt_script ctx s) = sample_sudt_hash"
  by (simp_all add: sample_script_def build_l2_sudt_script_def)

lemma sample_extract [simp]:
  "extract_registry_address_from_deposit (rc_allowed_eoa_type_hashes (rx_rollup_config sample_context))
     (dr_registry_id sample_deposit) (sc_code_hash sample_script) (sc_args sample_script) =
     Ok sample_address"
  by (simp add: extract_registry_address_from_deposit_def sample_context_def sample_config_def
      sample_deposit_def sample_script_def find_eoa_type_by_hash_def allowed_eoa_type_try_from_def
      extract_eth_address_from_eoa_def EOA_SCRIPT_ARGS_LEN_def registry_address_new_def
      sample_address_def ETH_REGISTRY_ACCOUNT_ID_def)

text \<open>A deposit to the empty rollup.\<close>

lemma sample_deposit_runs:
  obtains v where "apply_deposit_request (view_ops root) sample_externs sample_context sample_deposit
      (sample_view empty_block_state) = (Ok (), v)"
    and "state_ok tag_hash sample_A sample_H v"
    and "vw_map v (id_key tag_hash sample_script_hash) = id_value 0"
    and "vw_map v (id_key tag_hash sample_sudt_hash) = 0" and "vw_count v = 1"
    and "vw_map v (reg_addr_key tag_hash sample_script_hash) = reg_value sample_address"
    and "unat (vw_map v (bal_key tag_hash CKB_SUDT_ACCOUNT_ID sample_address)) = 500 * 10 ^ 10"
    and "vw_map v (nonce_field 0) = 0" and "vw_map v (script_field 0) = sample_script_hash"
    and "vw_scripts v sample_script_hash = Some sample_script"
proof -
  let ?v0 = "sample_view empty_block_state" and ?h = sample_script_hash and ?a = sample_address
  let ?H = sample_H and ?A = sample_A
  note S0 = empty_state_ok and nc = sample_no_collision
  have in_H: "?h \<in> ?H" "sample_sudt_hash \<in> ?H" and in_A: "?a \<in> ?A" by simp_all
  have z: "vw_map ?v0 k = 0" "vw_count ?v0 = 0" for k by (simp_all add: empty_block_state_view)
  let ?v1 = "(set_key (id_key tag_hash ?h) (id_value 0) (set_key (script_field 0) ?h
      (set_key (nonce_field 0) 0 (?v0\<lparr> vw_scripts := (vw_scripts ?v0)(?h := Some sample_script) \<rparr>))))
      \<lparr> vw_count := 1 \<rparr>"
  let ?v2 = "set_key (reg_hash_key tag_hash ?a) ?h (set_key (reg_addr_key tag_hash ?h) (reg_value ?a) ?v1)"
  have c: "create_account (view_ops root) tag_hash ?h
      (?v0\<lparr> vw_scripts := (vw_scripts ?v0)(?h := Some sample_script) \<rparr>) = (Ok 0, ?v1)"
    by (simp add: create_account_view empty_block_state_view Let_def checked_add_def)
  note S1 = stored_account_state_ok(1) [OF S0 in_H(1) c]
  have m: "mapping_registry_address_to_script_hash (view_ops root) tag_hash ?a ?h ?v1 = (Ok (), ?v2)"
    by (simp add: mapping_registry_view [OF state_okD(4) [OF S1] in_H(1) in_A] sample_distinct z)
  note M = mapping_state_ok [OF S1 in_H(1) in_A m]
  have d: "deposit_address (view_ops root) sample_externs sample_context sample_deposit ?v0 = (Ok ?a, ?v2)"
    using c m z
    by (simp add: deposit_address_def sbind_run map_err_def get_account_id_view empty_block_state_view
        view_ops_run sample_extract [unfolded sample_deposit_def, simplified] sample_deposit_def)
  have room: "tot_supply tag_hash CKB_SUDT_ACCOUNT_ID ?v2 + unat (to_layer2 (from_layer1 500)) < 2 ^ 256"
    by (simp add: tot_supply_def z unat_from_layer1)
  obtain v3 where m3: "mint_sudt (view_ops root) tag_hash CKB_SUDT_ACCOUNT_ID ?a
      (to_layer2 (from_layer1 500)) ?v2 = (Ok (), v3)"
    and S3: "state_ok tag_hash ?A ?H v3" and F: "token_frame tag_hash ?A ?H CKB_SUDT_ACCOUNT_ID ?v2 v3"
    and b: "\<And>c. c \<in> ?A \<Longrightarrow> unat (vw_map v3 (bal_key tag_hash CKB_SUDT_ACCOUNT_ID c)) =
      (if c = ?a then unat (vw_map ?v2 (bal_key tag_hash CKB_SUDT_ACCOUNT_ID ?a)) +
         unat (to_layer2 (from_layer1 500))
       else unat (vw_map ?v2 (bal_key tag_hash CKB_SUDT_ACCOUNT_ID c)))"
    using mint_state_ok [OF M(1) in_A room] by metis
  note f = token_frameD [OF F]
  show thesis
  proof (rule that [of v3])
    show "apply_deposit_request (view_ops root) sample_externs sample_context sample_deposit ?v0 = (Ok (), v3)"
      using d m3
      by (simp add: apply_deposit_request_def sbind_run map_err_def sample_deposit_def
          CKB_SUDT_SCRIPT_ARGS_def)
    show "unat (vw_map v3 (bal_key tag_hash CKB_SUDT_ACCOUNT_ID ?a)) = 500 * 10 ^ 10"
      using b [OF in_A] by (simp add: z unat_from_layer1)
  qed (use S3 f(5) [OF in_H(1)] f(5) [OF in_H(2)] f(6) [OF in_H(1)] f(8,10) f(3,4) [of 0]
      in \<open>simp_all add: z\<close>)
qed

text \<open>Every good block state runs as its view does.\<close>

abbreviation sample_ops :: "((h256 \<Rightarrow> h256) \<Rightarrow> h256) \<Rightarrow> (h256 \<Rightarrow> h256, fkv) history_state state_db finalise_ops" where
  "sample_ops root \<equiv> block_journal_ops (map_tree_ops root) fkv_ops plain_script
     \<lparr> it_state = rev, it_scripts = rev, it_data = rev \<rparr>"

lemma sample_run:
  assumes "simulates sample_good sample_view m m'" and "sample_good db" and "m' (sample_view db) = (r, v')"
  obtains db' where "m db = (r, db')" and "sample_good db'" and "sample_view db' = v'"
  using simulatesD [OF assms(1,2)] assms(3) by (metis prod.inject surj_pair)


theorem deposit_mints_exactly_witness:
  "\<exists>db'. apply_deposit_request (sample_ops (\<lambda>m. m 1)) sample_externs sample_context sample_deposit
      empty_block_state = (Ok (), db') \<and>
    tot_supply tag_hash CKB_SUDT_ACCOUNT_ID (sample_view db') = 500 * 10 ^ 10"
proof -
  obtain v where "apply_deposit_request (view_ops (\<lambda>m. m 1)) sample_externs sample_context sample_deposit
      (sample_view empty_block_state) = (Ok (), v)"
    by (rule sample_deposit_runs)
  from sample_run [OF fbj.bj.sim_apply_deposit empty_block_state_good this]
  obtain db' where run: "apply_deposit_request (sample_ops (\<lambda>m. m 1)) sample_externs sample_context
      sample_deposit empty_block_state = (Ok (), db')" by metis
  have dep: "dr_script sample_deposit = sample_script" "dr_registry_id sample_deposit = ETH_REGISTRY_ACCOUNT_ID"
    "dr_capacity sample_deposit = 500" "dr_sudt_script_hash sample_deposit = CKB_SUDT_SCRIPT_ARGS"
    by (simp_all add: sample_deposit_def ETH_REGISTRY_ACCOUNT_ID_def CKB_SUDT_SCRIPT_ARGS_def)
  have "x \<in> sample_A" if "extract_registry_address_from_deposit
      (rc_allowed_eoa_type_hashes (rx_rollup_config sample_context)) (dr_registry_id sample_deposit)
      (sc_code_hash (dr_script sample_deposit)) (sc_args (dr_script sample_deposit)) = Ok x" for x
    using that by (simp add: dep(1))
  from deposit_mints_exactly [OF mtree.smt_contract_axioms ftx.tx_store_axioms fbj.it
      empty_block_state_good _ _ _ dep(2) this run, of sample_H]
  have "tot_supply tag_hash CKB_SUDT_ACCOUNT_ID (sample_view db') =
      tot_supply tag_hash CKB_SUDT_ACCOUNT_ID (sample_view empty_block_state) + 500 * 10 ^ 10"
    using empty_state_ok by (simp add: dep Let_def)
  then show ?thesis using run by (simp add: tot_supply_def empty_block_state_view)
qed

text \<open>The rollup after that deposit and the creation of the native token's account.\<close>

definition sample_rollup :: "(h256 \<Rightarrow> h256, fkv) history_state state_db" where
  "sample_rollup = snd (sbind
     (apply_deposit_request (sample_ops (\<lambda>m. m 1)) sample_externs sample_context sample_deposit)
     (\<lambda>_. create_account_from_script (sample_ops (\<lambda>m. m 1)) sample_externs
        (build_l2_sudt_script sample_context 0)) empty_block_state)"

lemma sample_rollup_state:
  shows "sample_good sample_rollup"
  and "state_ok tag_hash sample_A sample_H (sample_view sample_rollup)"
  and "vw_map (sample_view sample_rollup) (id_key tag_hash sample_script_hash) = id_value 0"
  and "vw_map (sample_view sample_rollup) (id_key tag_hash sample_sudt_hash) = id_value CKB_SUDT_ACCOUNT_ID"
  and "vw_map (sample_view sample_rollup) (reg_addr_key tag_hash sample_script_hash) = reg_value sample_address"
  and "unat (vw_map (sample_view sample_rollup) (bal_key tag_hash CKB_SUDT_ACCOUNT_ID sample_address)) = 500 * 10 ^ 10"
  and "vw_map (sample_view sample_rollup) (nonce_field 0) = 0"
  and "vw_count (sample_view sample_rollup) = 2"
  and "vw_map (sample_view sample_rollup) (script_field 0) = sample_script_hash"
  and "vw_map (sample_view sample_rollup) (script_field 1) = sample_sudt_hash"
  and "vw_scripts (sample_view sample_rollup) sample_script_hash = Some sample_script"
  and "vw_scripts (sample_view sample_rollup) sample_sudt_hash = Some (build_l2_sudt_script sample_context 0)"
proof -
  let ?s = "build_l2_sudt_script sample_context 0" and ?r = "\<lambda>m :: h256 \<Rightarrow> h256. m 1"
  obtain v where d: "apply_deposit_request (view_ops ?r) sample_externs sample_context sample_deposit
      (sample_view empty_block_state) = (Ok (), v)"
    and S: "state_ok tag_hash sample_A sample_H v"
    and v: "vw_map v (id_key tag_hash sample_script_hash) = id_value 0"
      "vw_map v (id_key tag_hash sample_sudt_hash) = 0" "vw_count v = 1"
      "vw_map v (reg_addr_key tag_hash sample_script_hash) = reg_value sample_address"
      "unat (vw_map v (bal_key tag_hash CKB_SUDT_ACCOUNT_ID sample_address)) = 500 * 10 ^ 10"
      "vw_map v (nonce_field 0) = 0" "vw_map v (script_field 0) = sample_script_hash"
      "vw_scripts v sample_script_hash = Some sample_script"
    by (rule sample_deposit_runs)
  let ?v1 = "v\<lparr> vw_scripts := (vw_scripts v)(sample_sudt_hash := Some ?s) \<rparr>"
  let ?v2 = "(set_key (id_key tag_hash sample_sudt_hash) (id_value 1) (set_key (script_field 1) sample_sudt_hash
      (set_key (nonce_field 1) 0 ?v1)))\<lparr> vw_count := 2 \<rparr>"
  have c: "create_account (view_ops ?r) tag_hash sample_sudt_hash ?v1 = (Ok 1, ?v2)"
    using state_okD(2) [OF S] v(2,3) by (simp add: create_account_view Let_def checked_add_def)
  have "create_account_from_script (view_ops ?r) sample_externs ?s v = (Ok 1, ?v2)"
    using c by (simp add: create_account_from_script_def sbind_run map_err_def view_ops_run
        build_l2_sudt_script_def Let_def)
  then have "sbind (apply_deposit_request (view_ops ?r) sample_externs sample_context sample_deposit)
      (\<lambda>_. create_account_from_script (view_ops ?r) sample_externs ?s) (sample_view empty_block_state) = (Ok 1, ?v2)"
    using d by (simp add: sbind_run)
  from sample_run [OF simulates_sbind [OF fbj.bj.sim_apply_deposit fbj.bj.sim_create_account_from_script]
      empty_block_state_good this]
  obtain db' where "sample_rollup = db'" and g: "sample_good db'" "sample_view db' = ?v2"
    unfolding sample_rollup_def by (metis snd_conv)
  then have e: "sample_view sample_rollup = ?v2" "sample_good sample_rollup" by simp_all
  show "sample_good sample_rollup" by (rule e)
  show "state_ok tag_hash sample_A sample_H (sample_view sample_rollup)"
    using stored_account_state_ok(1) [OF S _ c] by (simp add: e)
  show "vw_map (sample_view sample_rollup) (id_key tag_hash sample_script_hash) = id_value 0"
    "vw_map (sample_view sample_rollup) (id_key tag_hash sample_sudt_hash) = id_value CKB_SUDT_ACCOUNT_ID"
    "vw_map (sample_view sample_rollup) (reg_addr_key tag_hash sample_script_hash) = reg_value sample_address"
    "unat (vw_map (sample_view sample_rollup) (bal_key tag_hash CKB_SUDT_ACCOUNT_ID sample_address)) = 500 * 10 ^ 10"
    "vw_map (sample_view sample_rollup) (nonce_field 0) = 0"
    "vw_count (sample_view sample_rollup) = 2"
    "vw_map (sample_view sample_rollup) (script_field 0) = sample_script_hash"
    "vw_map (sample_view sample_rollup) (script_field 1) = sample_sudt_hash"
    "vw_scripts (sample_view sample_rollup) sample_script_hash = Some sample_script"
    "vw_scripts (sample_view sample_rollup) sample_sudt_hash = Some (build_l2_sudt_script sample_context 0)"
    using v sample_distinct by (simp_all add: e(1) CKB_SUDT_ACCOUNT_ID_def)
qed


lemma sample_rollup_withdrawal:
  "\<exists>r v'. apply_withdrawal_request (view_journal_ops root) sample_externs sample_context sample_address
     sample_withdrawal (sample_view sample_rollup) = (Ok r, v')"
  by (rule apply_withdrawal_runs [where A = sample_A and H = sample_H and a = sample_address and i = 0
        and j = CKB_SUDT_ACCOUNT_ID])
    (simp_all add: sample_rollup_state sample_withdrawal_def ETH_REGISTRY_ACCOUNT_ID_def to_u32_0)

theorem withdrawal_burns_exactly_witness:
  "\<exists>receipt db'. apply_withdrawal_request (sample_ops (\<lambda>m. m 1)) sample_externs sample_context
      sample_address sample_withdrawal sample_rollup = (Ok receipt, db') \<and>
    tot_supply tag_hash CKB_SUDT_ACCOUNT_ID (sample_view db') + 300 * 10 ^ 10 =
      tot_supply tag_hash CKB_SUDT_ACCOUNT_ID (sample_view sample_rollup)"
proof -
  obtain r v' where "apply_withdrawal_request (view_journal_ops (\<lambda>m. m 1)) sample_externs sample_context
      sample_address sample_withdrawal (sample_view sample_rollup) = (Ok r, v')"
    using sample_rollup_withdrawal by blast
  from sample_run [OF fbj.bj.sim_apply_withdrawal sample_rollup_state(1) this]
  obtain db' where run: "apply_withdrawal_request (sample_ops (\<lambda>m. m 1)) sample_externs sample_context
      sample_address sample_withdrawal sample_rollup = (Ok r, db')" by metis
  have w: "rw_account_script_hash (wr_raw sample_withdrawal) = sample_script_hash"
    "rw_registry_id (wr_raw sample_withdrawal) = ETH_REGISTRY_ACCOUNT_ID"
    "rw_capacity (wr_raw sample_withdrawal) = 300"
    by (simp_all add: sample_withdrawal_def ETH_REGISTRY_ACCOUNT_ID_def)
  obtain j where "\<forall>k. tot_supply tag_hash k (sample_view db') +
      (if k = CKB_SUDT_ACCOUNT_ID then unat (rw_capacity (wr_raw sample_withdrawal)) * 10 ^ 10
       else if k = j then unat (rw_amount (wr_raw sample_withdrawal)) else 0) =
      tot_supply tag_hash k (sample_view sample_rollup)"
    using withdrawal_burns_exactly [OF mtree.smt_contract_axioms ftx.tx_store_axioms fbj.it
        sample_rollup_state(1) _ _ _ w(2) _ run, of sample_A sample_H] sample_rollup_state(2)
    by (auto simp: Let_def w(1))
  from spec [OF this, of CKB_SUDT_ACCOUNT_ID] show ?thesis using run by (simp add: w(3))
qed

text \<open>
  C27. Paying a fee never creates or destroys tokens. The fee moves from the payer to the block
  producer exactly when the payer's balance covers it; otherwise the call returns the overflow
  error and no balance changes. In both cases the supply of every token is what it was.
\<close>

theorem pay_fee_conserves:
  assumes "smt_contract S sem tgood root" and "tx_store K absf good sc" and "hash_iter_ok it"
    and "block_state_good tgood absf good sc db"
    and S: "state_ok b2b A H (block_state_view sem absf sc db)" and "p \<in> A" and "q \<in> A"
    and "pay_fee (block_journal_ops S K sc it) b2b p q i n db = (r, db')"
  shows "let v = block_state_view sem absf sc db; v' = block_state_view sem absf sc db' in
    state_ok b2b A H v' \<and> (\<forall>j. tot_supply b2b j v' = tot_supply b2b j v) \<and>
    (if n \<le> vw_map v (bal_key b2b i p)
     then r = Ok () \<and> moved b2b A (credit i q (unat n)) (credit i p (unat n)) v v'
     else r = Err (GState AmountOverflow) \<and> v' = v)"
proof -
  let ?v = "block_state_view sem absf sc db" and ?v' = "block_state_view sem absf sc db'"
  have run: "pay_fee (view_ops root) b2b p q i n ?v = (r, ?v')"
    by (rule block_journal.block_pay_fee [OF block_journalI [OF assms(1-3)] assms(4,8)])
  note F = pay_fee_view [OF assms(5-7) run]
  have "tot_supply b2b j ?v' = tot_supply b2b j ?v" for j
  proof (cases "n \<le> vw_map ?v (bal_key b2b i p)")
    case True
    then have "moved b2b A (credit i q (unat n)) (credit i p (unat n)) ?v ?v'" using F(3,4) by simp
    from moved_supply [OF S F(1) this, of j] show ?thesis
      by (simp add: sum_credit [OF state_okD(6) [OF S]] assms(6,7))
  qed (use F(3,5) in simp)
  then show ?thesis unfolding Let_def using F by simp
qed

theorem pay_fee_conserves_witness:
  "\<exists>db'. pay_fee (sample_ops (\<lambda>m. m 1)) tag_hash sample_address sample_address CKB_SUDT_ACCOUNT_ID 7
      sample_rollup = (Ok (), db') \<and>
    tot_supply tag_hash CKB_SUDT_ACCOUNT_ID (sample_view db') =
      tot_supply tag_hash CKB_SUDT_ACCOUNT_ID (sample_view sample_rollup)"
proof -
  obtain r db' where run: "pay_fee (sample_ops (\<lambda>m. m 1)) tag_hash sample_address sample_address
      CKB_SUDT_ACCOUNT_ID 7 sample_rollup = (r, db')" by fastforce
  from pay_fee_conserves [OF mtree.smt_contract_axioms ftx.tx_store_axioms fbj.it
      sample_rollup_state(1) sample_rollup_state(2) _ _ run]
  show ?thesis
    using run sample_rollup_state(6) by (simp add: Let_def word_le_nat_alt)
qed

end
