(* ===== verification/Gw_Verify.thy ===== *)
theory Gw_Verify
  imports Gw_Block_Ops
begin

text \<open>
  The checks a request passes before it enters a block: \<open>WithdrawalVerifier\<close> and
  \<open>TransactionVerifier\<close> (\<open>crates/generator/src/verification\<close>), the layer-1 cell a withdrawal
  becomes and the parsers of its lock arguments, and the backends of \<open>backend_manage.rs\<close>.

  Size of serialised requests and occupied capacity of cells come from generated code and from
  the CKB library: they are parameters.
\<close>

section \<open>Requests and cells\<close>

record withdrawal_request_extra =
  we_request :: withdrawal_request
  we_owner_lock :: script

record cell_output =
  co_capacity :: u64
  co_lock :: script
  co_type :: "script option"

text \<open>A molecule struct is the concatenation of its fields.\<close>

definition withdrawal_lock_args_as_slice :: "withdrawal_lock_args \<Rightarrow> bytes" where
  "withdrawal_lock_args_as_slice w =
     as_slice (wl_withdrawal_block_hash w) @ to_le_bytes 8 (wl_withdrawal_finalized_timepoint w) @
     as_slice (wl_account_script_hash w) @ as_slice (wl_owner_lock_hash w)"

definition withdrawal_lock_args_new_unchecked :: "bytes \<Rightarrow> withdrawal_lock_args" where
  "withdrawal_lock_args_new_unchecked bs = \<lparr>
     wl_withdrawal_block_hash = h256_of_bytes (byte_range 0 32 bs),
     wl_withdrawal_finalized_timepoint = from_le_bytes (byte_range 32 40 bs),
     wl_account_script_hash = h256_of_bytes (byte_range 40 72 bs),
     wl_owner_lock_hash = h256_of_bytes (byte_range 72 104 bs) \<rparr>"

definition WITHDRAWAL_LOCK_ARGS_TOTAL_SIZE :: nat where
  "WITHDRAWAL_LOCK_ARGS_TOTAL_SIZE = 104"

datatype withdrawal_cell_error = MinCapacity u128 u64 | CellOwnerLock h256

fun withdrawal_cell_error_into :: "withdrawal_cell_error \<Rightarrow> generator_error" where
  "withdrawal_cell_error_into (MinCapacity least req) = GWithdrawal (InsufficientCapacity least req)"
| "withdrawal_cell_error_into (CellOwnerLock h) = GWithdrawal (OwnerLock h)"

text \<open>
  \<open>ve_occupied\<close> is \<open>CellOutput::occupied_capacity\<close>, with \<open>None\<close> for its overflow error;
  \<open>ve_extra_size\<close> is the length of a serialised request, \<open>ve_script_of_slice\<close> the molecule
  verification and reading of a script.
\<close>

record verify_externs =
  ve_occupied :: "cell_output \<Rightarrow> nat \<Rightarrow> u64 option"
  ve_extra_size :: "withdrawal_request_extra \<Rightarrow> nat"
  ve_script_of_slice :: "bytes \<Rightarrow> script option"
  ve_readers :: tx_readers

section \<open>The withdrawal cell\<close>

definition withdrawal_lock_bytes ::
  "externs \<Rightarrow> rollup_context \<Rightarrow> withdrawal_request_extra \<Rightarrow> h256 \<Rightarrow> timepoint \<Rightarrow> bytes" where
  "withdrawal_lock_bytes E ctx req block_hash finalized_timepoint = (
     let raw = wr_raw (we_request req);
         owner_lock = we_owner_lock req in
     as_slice (rx_rollup_script_hash ctx) @
     withdrawal_lock_args_as_slice \<lparr>
       wl_withdrawal_block_hash = block_hash,
       wl_withdrawal_finalized_timepoint = full_value finalized_timepoint,
       wl_account_script_hash = rw_account_script_hash raw,
       wl_owner_lock_hash = rw_owner_lock_hash raw \<rparr> @
     to_be_bytes 4 (of_nat (length (script_as_slice E owner_lock)) :: u32) @
     script_as_slice E owner_lock)"

definition build_withdrawal_cell_output ::
  "verify_externs \<Rightarrow> externs \<Rightarrow> rollup_context \<Rightarrow> withdrawal_request_extra \<Rightarrow> h256 \<Rightarrow> timepoint \<Rightarrow>
     script option \<Rightarrow> (withdrawal_cell_error, cell_output \<times> bytes) outcome" where
  "build_withdrawal_cell_output V E ctx req block_hash finalized_timepoint opt_asset_script = (
     let raw = wr_raw (we_request req);
         withdrawal_capacity = rw_capacity raw;
         owner_lock_hash = rw_owner_lock_hash raw in
     if owner_lock_hash \<noteq> script_hash E (we_owner_lock req) then Err (CellOwnerLock owner_lock_hash)
     else
       let lock = \<lparr> sc_code_hash = rc_withdrawal_script_type_hash (rx_rollup_config ctx),
                    sc_hash_type = script_hash_type_to_byte Type,
                    sc_args = withdrawal_lock_bytes E ctx req block_hash finalized_timepoint \<rparr>;
           data = (case opt_asset_script of Some _ \<Rightarrow> to_le_bytes 16 (rw_amount raw) | None \<Rightarrow> []);
           output = \<lparr> co_capacity = withdrawal_capacity, co_lock = lock, co_type = opt_asset_script \<rparr> in
       case ve_occupied V output (length data) of
         Some min_capacity \<Rightarrow>
           if min_capacity > withdrawal_capacity
           then Err (MinCapacity (ucast min_capacity) withdrawal_capacity)
           else Ok (output, data)
       | None \<Rightarrow> Err (MinCapacity (2 ^ 64) withdrawal_capacity))"

section \<open>Parsing the lock arguments\<close>

record parsed_withdrawal_lock_args =
  pw_rollup_type_hash :: h256
  pw_lock_args :: withdrawal_lock_args
  pw_owner_lock :: script

datatype lock_args_error = InvalidArgsLen | InvalidOwnerLockLen | InvalidOwnerLock | InvalidOwnerLockHash

definition parse_lock_args ::
  "verify_externs \<Rightarrow> externs \<Rightarrow> bytes \<Rightarrow> (lock_args_error, parsed_withdrawal_lock_args) outcome" where
  "parse_lock_args V E args = (
     let lock_args_start = 32;
         lock_args_end = lock_args_start + WITHDRAWAL_LOCK_ARGS_TOTAL_SIZE;
         args_len = length args in
     if args_len < lock_args_end then Err InvalidArgsLen
     else
       let rollup_type_hash = h256_of_bytes (byte_range 0 32 args);
           lock_args = withdrawal_lock_args_new_unchecked (byte_range lock_args_start lock_args_end args);
           owner_lock_start = lock_args_end + 4 in
       if args_len \<le> owner_lock_start then Err InvalidArgsLen
       else
         let owner_lock_len = unat (from_be_bytes (byte_range lock_args_end owner_lock_start args) :: u32);
             owner_lock_end = owner_lock_start + owner_lock_len in
         if owner_lock_end \<noteq> args_len then Err InvalidOwnerLockLen
         else case ve_script_of_slice V (byte_range owner_lock_start owner_lock_end args) of
             None \<Rightarrow> Err InvalidOwnerLock
           | Some owner_lock \<Rightarrow>
               if script_hash E owner_lock \<noteq> wl_owner_lock_hash lock_args then Err InvalidOwnerLockHash
               else Ok \<lparr> pw_rollup_type_hash = rollup_type_hash, pw_lock_args = lock_args,
                         pw_owner_lock = owner_lock \<rparr>)"

section \<open>Limits of the fork configuration\<close>

definition MAX_TX_SIZE :: nat where "MAX_TX_SIZE = 50000"
definition MAX_WITHDRAWAL_SIZE :: nat where "MAX_WITHDRAWAL_SIZE = 50000"
definition MAX_WRITE_DATA_BYTES :: nat where "MAX_WRITE_DATA_BYTES = 25 * 1024"
definition MAX_TOTAL_READ_DATA_BYTES :: nat where "MAX_TOTAL_READ_DATA_BYTES = 1024 * 1024 * 2"

definition max_tx_size :: "fork_config \<Rightarrow> u64 \<Rightarrow> nat" where
  "max_tx_size f block_number = MAX_TX_SIZE"

definition max_withdrawal_size :: "fork_config \<Rightarrow> u64 \<Rightarrow> nat" where
  "max_withdrawal_size f block_number = MAX_WITHDRAWAL_SIZE"

definition max_write_data_bytes :: "fork_config \<Rightarrow> u64 \<Rightarrow> nat" where
  "max_write_data_bytes f block_number = MAX_WRITE_DATA_BYTES"

definition max_total_read_data_bytes :: "fork_config \<Rightarrow> u64 \<Rightarrow> nat" where
  "max_total_read_data_bytes f block_number = MAX_TOTAL_READ_DATA_BYTES"

section \<open>\<open>WithdrawalVerifier\<close>\<close>

definition check_withdrawal_sudt ::
  "('s, 'x) state_ops_scheme \<Rightarrow> hasher \<Rightarrow> registry_address \<Rightarrow> u128 \<Rightarrow> u32 \<Rightarrow>
     ('s, generator_error, unit) sm" where
  "check_withdrawal_sudt T b2b registry_address amount sudt_id = (
     if sudt_id \<noteq> CKB_SUDT_ACCOUNT_ID then
       if amount = 0 then fail (GWithdrawal NonPositiveSUDTAmount)
       else
         sbind (in_state (get_sudt_balance T b2b sudt_id registry_address)) (\<lambda>balance.
         if ucast amount > balance then fail (GWithdrawal Overdraft) else ret ())
     else if amount \<noteq> 0 then fail (GWithdrawal WithdrawFakedCKB)
     else ret ())"

definition withdrawal_verify ::
  "('s, 'x) state_ops_scheme \<Rightarrow> verify_externs \<Rightarrow> externs \<Rightarrow> rollup_context \<Rightarrow> fork_config \<Rightarrow>
     withdrawal_request_extra \<Rightarrow> script option \<Rightarrow> u64 \<Rightarrow> ('s, generator_error, unit) sm" where
  "withdrawal_verify T V E ctx f withdrawal asset_script block_number = (
     let b2b = blake2b E; max_withdrawal_size = max_withdrawal_size f block_number in
     if ve_extra_size V withdrawal > max_withdrawal_size
     then fail (GWithdrawal (ExceededMaxWithdrawalSize max_withdrawal_size (ve_extra_size V withdrawal)))
     else
       let raw = wr_raw (we_request withdrawal);
           account_script_hash = rw_account_script_hash raw;
           amount = rw_amount raw;
           fee = rw_fee raw in
       sbind (in_state (get_registry_address_by_script_hash T b2b (rw_registry_id raw) account_script_hash)) (\<lambda>a.
       sbind (lift_o (ok_or (GAccount UnknownAccount) a)) (\<lambda>registry_address.
       sbind (lift_o (omap_err withdrawal_cell_error_into
                (build_withdrawal_cell_output V E ctx withdrawal h256_one (BlockNumber 1) asset_script))) (\<lambda>_.
       sbind (in_state (get_account_id_by_script_hash T b2b account_script_hash)) (\<lambda>i.
       sbind (lift_o (ok_or (GAccount UnknownAccount) i)) (\<lambda>aid.
       sbind (in_state (get_nonce T aid)) (\<lambda>expected_nonce.
       if rw_nonce raw \<noteq> expected_nonce
       then fail (GWithdrawal (WithdrawalNonce expected_nonce (rw_nonce raw)))
       else
       sbind (in_state (get_sudt_balance T b2b CKB_SUDT_ACCOUNT_ID registry_address)) (\<lambda>ckb_balance.
       if saturating_add (to_layer2 (from_layer1 (rw_capacity raw))) (ucast fee) > ckb_balance
       then fail (GWithdrawal Overdraft)
       else
       sbind (in_state (get_account_id_by_script_hash T b2b
                (script_hash E (build_l2_sudt_script ctx (rw_sudt_script_hash raw))))) (\<lambda>s.
       sbind (lift_o (ok_or (GAccount UnknownSUDT) s)) (\<lambda>sudt_id.
         check_withdrawal_sudt T b2b registry_address amount sudt_id))))))))))"

section \<open>\<open>TransactionVerifier\<close>\<close>

datatype transaction_validate_error =
    TvTransaction transaction_error | TvState common_error | TvAccount account_error
  | TvUnlock lock_algorithm_error

fun transaction_validate_error_into :: "transaction_validate_error \<Rightarrow> generator_error" where
  "transaction_validate_error_into (TvTransaction e) = GTransaction e"
| "transaction_validate_error_into (TvState e) = GState e"
| "transaction_validate_error_into (TvAccount e) = GAccount e"
| "transaction_validate_error_into (TvUnlock e) = GUnlock e"

text \<open>The errors an \<open>anyhow::Error\<close> of the generator can hold, as a downcast sees them.\<close>

datatype any_error = AnyTransaction transaction_error | AnyState common_error

definition get_tx_type ::
  "('s, 'x) code_state_ops_scheme \<Rightarrow> rollup_context \<Rightarrow> raw_l2transaction \<Rightarrow>
     ('s, any_error, allowed_contract_type) sm" where
  "get_tx_type T ctx raw_tx =
     sbind (map_err AnyState (get_script_hash T (rtx_to_id raw_tx))) (\<lambda>receiver_script_hash.
     sbind (map_err AnyState (cs_get_script T receiver_script_hash)) (\<lambda>s.
     sbind (lift_o (ok_or (AnyTransaction TxScriptHashNotFound) s)) (\<lambda>receiver_script.
     case List.find (\<lambda>type_hash. ath_hash type_hash = sc_code_hash receiver_script)
            (rc_allowed_contract_type_hashes (rx_rollup_config ctx)) of
       None \<Rightarrow> fail (AnyTransaction (TxBackendNotFound receiver_script_hash))
     | Some type_hash \<Rightarrow>
         ret (case allowed_contract_type_try_from (ath_type type_hash) of
                Ok t \<Rightarrow> t | _ \<Rightarrow> ContractUnknown))))"

text \<open>\<open>downcast::<TransactionError>().expect(..)\<close>.\<close>

definition downcast_tx :: "('s, any_error, 'a) sm \<Rightarrow> ('s, transaction_validate_error, 'a) sm" where
  "downcast_tx m = (\<lambda>s. case m s of
     (Ok x, s') \<Rightarrow> (Ok x, s')
   | (Err (AnyTransaction e), s') \<Rightarrow> (Err (TvTransaction e), s')
   | (_, s') \<Rightarrow> (Panic, s'))"

definition check_intrinsic_gas ::
  "raw_l2transaction \<Rightarrow> u32 option \<Rightarrow> (transaction_validate_error, unit) outcome" where
  "check_intrinsic_gas raw_tx polyjuice_creator_id =
     obind (ok_or (TvTransaction (TxIntrinsicGas ''parser'')) (poly_from_raw_l2_tx raw_tx)) (\<lambda>p.
     obind (ok_or (TvTransaction (TxIntrinsicGas ''intrinsic gas'')) (intrinsic_gas raw_tx)) (\<lambda>gas.
     if poly_gas p < gas then Err (TvTransaction (TxIntrinsicGas ''gas < intrinsic_gas''))
     else if poly_is_native_transfer p then
       if polyjuice_creator_id = None then Err (TvTransaction TxPolyjuiceCreatorIdNotFound)
       else if Some (rtx_to_id raw_tx) \<noteq> polyjuice_creator_id
       then Err (TvTransaction (TxNativeTransferInvalidToId (rtx_to_id raw_tx)))
       else Ok ()
     else Ok ()))"

definition transaction_verify ::
  "('s, 'x) code_state_ops_scheme \<Rightarrow> verify_externs \<Rightarrow> externs \<Rightarrow> rollup_context \<Rightarrow> fork_config \<Rightarrow>
     u32 option \<Rightarrow> l2transaction \<Rightarrow> u64 \<Rightarrow> ('s, transaction_validate_error, unit) sm" where
  "transaction_verify T V E ctx f polyjuice_creator_id tx block_number = (
     let b2b = blake2b E; raw_tx = tx_raw tx; sender_id = rtx_from_id raw_tx;
         max_tx_size = max_tx_size f block_number;
         tx_size = length (l2transaction_as_slice E tx) in
     if tx_size > max_tx_size then fail (TvTransaction (TxExceededMaxTxSize max_tx_size tx_size))
     else
     sbind (map_err TvState (get_nonce T sender_id)) (\<lambda>account_nonce.
     if rtx_nonce raw_tx \<noteq> account_nonce
     then fail (TvTransaction (TxNonce sender_id account_nonce (rtx_nonce raw_tx)))
     else
     sbind (map_err TvState (get_script_hash T sender_id)) (\<lambda>sender_script_hash.
     sbind (map_err TvState (get_registry_address_by_script_hash T b2b ETH_REGISTRY_ACCOUNT_ID
              sender_script_hash)) (\<lambda>a.
     sbind (lift_o (ok_or (TvAccount RegistryAddressNotFound) a)) (\<lambda>sender_address.
     sbind (map_err TvState (get_sudt_balance T b2b CKB_SUDT_ACCOUNT_ID sender_address)) (\<lambda>balance.
     sbind (downcast_tx (get_tx_type T ctx raw_tx)) (\<lambda>tx_type.
     sbind (lift_o (ok_or (TvAccount UnknownScript) (typed_from_tx raw_tx tx_type))) (\<lambda>typed_tx.
     sbind (lift_o (ok_or (TvTransaction TxNoCost) (typed_cost (ve_readers V) typed_tx))) (\<lambda>tx_cost.
     if balance < tx_cost then fail (TvTransaction TxInsufficientBalance)
     else case typed_tx of
         TyPolyjuice raw \<Rightarrow> lift_o (check_intrinsic_gas raw polyjuice_creator_id)
       | _ \<Rightarrow> ret ())))))))))"


section \<open>Backends\<close>

datatype backend_type = BeMeta | BeSudt | BePolyjuice | BeEthAddrReg | BeUnknown

record backend =
  be_validator :: bytes
  be_generator :: bytes
  be_validator_script_type_hash :: h256
  be_backend_type :: backend_type
  be_checksum :: "h256 \<times> h256"

definition backend_new :: "hasher \<Rightarrow> backend_type \<Rightarrow> h256 \<Rightarrow> bytes \<Rightarrow> bytes \<Rightarrow> backend" where
  "backend_new b2b backend_type validator_script_type_hash validator generator = \<lparr>
     be_validator = validator, be_generator = generator,
     be_validator_script_type_hash = validator_script_type_hash,
     be_backend_type = backend_type,
     be_checksum = (b2b validator, b2b generator) \<rparr>"

record sudt_proxy_config =
  sp_permit_sudt_transfer_from_dangerous_contract :: bool
  sp_address_list :: "bytes list"

record backend_config =
  bcf_validator_path :: string
  bcf_generator_path :: string
  bcf_validator_script_type_hash :: h256
  bcf_backend_type :: backend_type

record backend_fork_config =
  bf_fork_height :: u64
  bf_backends :: "backend_config list"
  bf_sudt_proxy :: sudt_proxy_config

record block_consensus =
  bc_sudt_proxy :: sudt_proxy_config
  bc_backends :: "(h256, backend) fmap"

record backend_manage =
  bm_backend_forks :: "(u64 \<times> block_consensus) list"

datatype backend_error = ForkHeightNotIncreasing u64 u64 | LoadFailed string

text \<open>\<open>read\<close> is \<open>fs::read\<close>, \<open>None\<close> on an I/O error.\<close>

fun register_backends ::
  "(string \<Rightarrow> bytes option) \<Rightarrow> hasher \<Rightarrow> backend_config list \<Rightarrow> (h256, backend) fmap \<Rightarrow>
     (backend_error, (h256, backend) fmap) outcome" where
  "register_backends read b2b [] backends = Ok backends"
| "register_backends read b2b (config # configs) backends =
     obind (ok_or (LoadFailed (bcf_validator_path config)) (read (bcf_validator_path config))) (\<lambda>validator.
     obind (ok_or (LoadFailed (bcf_generator_path config)) (read (bcf_generator_path config))) (\<lambda>generator.
     let backend = backend_new b2b (bcf_backend_type config) (bcf_validator_script_type_hash config)
                     validator generator in
     register_backends read b2b configs
       (fmupd (be_validator_script_type_hash backend) backend backends)))"

definition register_backend_fork ::
  "(string \<Rightarrow> bytes option) \<Rightarrow> hasher \<Rightarrow> backend_fork_config \<Rightarrow> backend_manage \<Rightarrow>
     (backend_error, backend_manage) outcome" where
  "register_backend_fork read b2b config bm = (
     let forks = bm_backend_forks bm;
         add = (\<lambda>inherited.
           obind (register_backends read b2b (bf_backends config) inherited) (\<lambda>backends.
             Ok (bm\<lparr> bm_backend_forks := forks @
               [(bf_fork_height config, \<lparr> bc_sudt_proxy = bf_sudt_proxy config, bc_backends = backends \<rparr>)] \<rparr>)))
     in if forks = [] then add fmempty
        else case last forks of (height, consensus) \<Rightarrow>
          if bf_fork_height config \<le> height
          then Err (ForkHeightNotIncreasing (bf_fork_height config) height)
          else add (bc_backends consensus))"

definition backend_manage_from_config ::
  "(string \<Rightarrow> bytes option) \<Rightarrow> hasher \<Rightarrow> backend_fork_config list \<Rightarrow>
     (backend_error, backend_manage) outcome" where
  "backend_manage_from_config read b2b configs =
     foldl (\<lambda>r config. obind r (register_backend_fork read b2b config))
       (Ok \<lparr> bm_backend_forks = [] \<rparr>) configs"

definition get_block_consensus_at_height ::
  "u64 \<Rightarrow> backend_manage \<Rightarrow> (u64 \<times> block_consensus) option" where
  "get_block_consensus_at_height block_number bm =
     List.find (\<lambda>(height, _). block_number \<ge> height) (rev (bm_backend_forks bm))"


definition get_backend :: "u64 \<Rightarrow> h256 \<Rightarrow> backend_manage \<Rightarrow> backend option" where
  "get_backend block_number code_hash bm =
     Option.bind (get_block_consensus_at_height block_number bm)
       (\<lambda>(_, consensus). fmlookup (bc_backends consensus) code_hash)"

section \<open>Lemmas: reads on the view\<close>

lemma get_sudt_balance_view:
  assumes "ra_fits a" and "vw_has v (bal_key b2b i a)"
  shows "get_sudt_balance (view_ops root) b2b i a v = (Ok (vw_map v (bal_key b2b i a)), v)"
  using assms get_value_view [of "to_le_bytes 4 SUDT_KEY_FLAG_BALANCE @ ra_encoding a" v b2b i root]
    length_to_le_bytes [of 4 SUDT_KEY_FLAG_BALANCE]
  by (cases "to_le_bytes 4 SUDT_KEY_FLAG_BALANCE") (simp_all add: get_sudt_balance_def build_sudt_key_eq h256_ext_eqs sbind_run bal_key_def)

context state_contract
begin

lemma sim_withdrawal_verify:
  "simulates good view (withdrawal_verify T V E ctx f w s n) (withdrawal_verify (view_ops root) V E ctx f w s n)"
  unfolding withdrawal_verify_def check_withdrawal_sudt_def by (intro sim_intros)

end

lemma simulates_downcast [sim_intros]:
  "simulates good view m m' \<Longrightarrow> simulates good view (downcast_tx m) (downcast_tx m')"
  by (fastforce simp: simulates_def downcast_tx_def split: prod.splits outcome.splits any_error.splits)

lemma simulates_case_typed [sim_intros]:
  assumes "\<And>r. simulates good view (f r) (f' r)" and "simulates good view g g'"
  shows "simulates good view (case t of TyPolyjuice r \<Rightarrow> f r | _ \<Rightarrow> g) (case t of TyPolyjuice r \<Rightarrow> f' r | _ \<Rightarrow> g')"
  using assms by (cases t) simp_all

context code_state_contract
begin

lemma sim_get_tx_type [sim_intros]:
  "simulates good view (get_tx_type T ctx r) (get_tx_type (view_ops root) ctx r)"
  unfolding get_tx_type_def by (intro sim_intros)

lemma sim_transaction_verify:
  "simulates good view (transaction_verify T V E ctx f c tx n) (transaction_verify (view_ops root) V E ctx f c tx n)"
  unfolding transaction_verify_def by (intro sim_intros)

end


section \<open>A verified withdrawal applies\<close>

lemma withdrawal_verify_view:
  fixes w :: withdrawal_request_extra
  defines "raw \<equiv> wr_raw (we_request w)"
  assumes S: "state_ok (blake2b E) A H v" and h: "rw_account_script_hash raw \<in> H"
    and hs: "script_hash E (build_l2_sudt_script ctx (rw_sudt_script_hash raw)) \<in> H"
    and rid: "rw_registry_id raw = ETH_REGISTRY_ACCOUNT_ID"
    and run: "withdrawal_verify (view_ops root) V E ctx f w s n v = (Ok u, v')"
  shows "v' = v \<and> (\<exists>a\<in>A. \<exists>i j. eth_address a \<and>
    vw_map v (reg_addr_key (blake2b E) (rw_account_script_hash raw)) = reg_value a \<and>
    vw_map v (id_key (blake2b E) (rw_account_script_hash raw)) = id_value i \<and>
    vw_map v (id_key (blake2b E) (script_hash E (build_l2_sudt_script ctx (rw_sudt_script_hash raw)))) = id_value j \<and>
    to_u32 (vw_map v (nonce_field i)) = rw_nonce raw \<and>
    unat (rw_capacity raw) * 10 ^ 10 + unat (rw_fee raw) \<le>
      unat (vw_map v (bal_key (blake2b E) CKB_SUDT_ACCOUNT_ID a)) \<and>
    (if j = CKB_SUDT_ACCOUNT_ID then rw_amount raw = 0
     else rw_amount raw \<noteq> 0 \<and> unat (rw_amount raw) \<le> unat (vw_map v (bal_key (blake2b E) j a))))"
proof -
  let ?b = "blake2b E" and ?h = "rw_account_script_hash raw"
  let ?s = "script_hash E (build_l2_sudt_script ctx (rw_sudt_script_hash raw))"
  have has: "vw_has v k" for k using state_okD(2) [OF S] by simp
  obtain a w1 i w2 where
    ra: "get_registry_address_by_script_hash (view_ops root) ?b ETH_REGISTRY_ACCOUNT_ID ?h v = (Ok (Some a), w1)"
    and ia: "get_account_id_by_script_hash (view_ops root) ?b ?h w1 = (Ok (Some i), w2)"
    using run rid unfolding withdrawal_verify_def Let_def raw_def [symmetric]
    by (auto simp: sbind_Ok_iff split: if_splits)
  have A: "w1 = v" "a \<in> A" "eth_address a" "vw_map v (reg_addr_key ?b ?h) = reg_value a"
    using S h ra by (cases rule: registry_address_known; auto)+
  have I: "w2 = v" "vw_map v (id_key ?b ?h) = id_value i"
    using S h ia [unfolded A(1)] by (cases rule: account_id_known; auto)+
  have bal: "get_sudt_balance (view_ops root) ?b k a v = (Ok (vw_map v (bal_key ?b k a)), v)" for k
    by (rule get_sudt_balance_view) (use state_okD(7) [OF S A(2)] has in auto)
  have nonce: "get_nonce (view_ops root) k v = (Ok (to_u32 (vw_map v (nonce_field k))), v)" for k
    by (rule get_nonce_view [OF has])
  obtain j w3 where ja: "get_account_id_by_script_hash (view_ops root) ?b ?s v = (Ok (Some j), w3)"
    and n: "to_u32 (vw_map v (nonce_field i)) = rw_nonce raw"
    and c: "\<not> vw_map v (bal_key ?b CKB_SUDT_ACCOUNT_ID a) <
      saturating_add (to_layer2 (from_layer1 (rw_capacity raw))) (ucast (rw_fee raw))"
    and rest: "check_withdrawal_sudt (view_ops root) ?b a (rw_amount raw) j w3 = (Ok u, v')"
    using run rid ra ia A(1) I(1) bal nonce unfolding withdrawal_verify_def Let_def raw_def [symmetric]
    by (auto simp: sbind_Ok_iff split: if_splits)
  have J: "w3 = v" "vw_map v (id_key ?b ?s) = id_value j"
    using S hs ja by (cases rule: account_id_known; auto)+
  have v': "v' = v" and sudt: "if j = CKB_SUDT_ACCOUNT_ID then rw_amount raw = 0
      else rw_amount raw \<noteq> 0 \<and> unat (rw_amount raw) \<le> unat (vw_map v (bal_key ?b j a))"
    using rest bal [of j]
    by (auto simp: check_withdrawal_sudt_def J(1) sbind_Ok_iff word_le_nat_alt word_less_nat_alt unat_ucast_up split: if_splits)
  have "unat (rw_capacity raw) * 10 ^ 10 + unat (rw_fee raw) < 2 ^ 256"
    using unat_less [of "rw_capacity raw"] unat_less [of "rw_fee raw"] by simp
  then have "unat (rw_capacity raw) * 10 ^ 10 + unat (rw_fee raw) \<le>
      unat (vw_map v (bal_key ?b CKB_SUDT_ACCOUNT_ID a))"
    using c by (simp add: word_less_nat_alt unat_saturating_add unat_from_layer1 unat_ucast_up)
  then show ?thesis using v' A I(2) J(2) n sudt by blast
qed

context block_journal
begin

lemma block_withdrawal_verify:
  assumes "block_state_good tgood absf good sc db"
    and "withdrawal_verify (block_journal_ops S K sc it) V E ctx f w s n db = (r, db')"
  shows "block_state_good tgood absf good sc db' \<and>
    withdrawal_verify (view_ops root) V E ctx f w s n (block_state_view sem absf sc db) =
      (r, block_state_view sem absf sc db')"
  by (rule simulatesD [OF bj.sim_withdrawal_verify assms])

lemma block_transaction_verify:
  assumes "block_state_good tgood absf good sc db"
    and "transaction_verify (block_journal_ops S K sc it) V E ctx f c tx n db = (r, db')"
  shows "block_state_good tgood absf good sc db' \<and>
    transaction_verify (view_ops root) V E ctx f c tx n (block_state_view sem absf sc db) =
      (r, block_state_view sem absf sc db')"
  by (rule simulatesD [OF bj.sim_transaction_verify assms])

end

text \<open>
  C21. A withdrawal that the verifier accepts can be applied. On a sound block state,
  verification reads only, and if it accepts the request then applying the request to the state
  succeeds for any block producer, whatever the amounts, unless the account's nonce is at its
  maximum: the balance checks of the two functions agree, fee included.
\<close>

theorem verified_withdrawal_applies:
  fixes w :: withdrawal_request_extra
  assumes "smt_contract S sem tgood root" and "tx_store K absf good sc" and "hash_iter_ok it"
    and g: "block_state_good tgood absf good sc db"
    and S: "state_ok (blake2b E) A H (block_state_view sem absf sc db)"
    and "rw_account_script_hash (wr_raw (we_request w)) \<in> H"
    and "script_hash E (build_l2_sudt_script ctx (rw_sudt_script_hash (wr_raw (we_request w)))) \<in> H"
    and "rw_registry_id (wr_raw (we_request w)) = ETH_REGISTRY_ACCOUNT_ID" and "q \<in> A"
    and "withdrawal_verify (block_journal_ops S K sc it) V E ctx f w asset_script number db = (Ok (), db1)"
    and nonce: "unat (rw_nonce (wr_raw (we_request w))) + 1 < 2 ^ 32"
  shows "block_state_view sem absf sc db1 = block_state_view sem absf sc db \<and>
    (\<exists>receipt db2. apply_withdrawal_request (block_journal_ops S K sc it) E ctx q (we_request w) db1 =
      (Ok receipt, db2))"
proof -
  let ?v = "block_state_view sem absf sc db" and ?raw = "wr_raw (we_request w)"
  note bj = block_journalI [OF assms(1-3)]
  have run: "withdrawal_verify (view_ops root) V E ctx f w asset_script number ?v =
      (Ok (), block_state_view sem absf sc db1)" and g1: "block_state_good tgood absf good sc db1"
    using block_journal.block_withdrawal_verify [OF bj g assms(10)] by simp_all
  obtain a i j where a: "a \<in> A" "eth_address a"
    "vw_map ?v (reg_addr_key (blake2b E) (rw_account_script_hash ?raw)) = reg_value a"
    "vw_map ?v (id_key (blake2b E) (rw_account_script_hash ?raw)) = id_value i"
    "vw_map ?v (id_key (blake2b E) (script_hash E
      (build_l2_sudt_script ctx (rw_sudt_script_hash ?raw)))) = id_value j"
    "to_u32 (vw_map ?v (nonce_field i)) = rw_nonce ?raw"
    "unat (rw_capacity ?raw) * 10 ^ 10 + unat (rw_fee ?raw) \<le>
      unat (vw_map ?v (bal_key (blake2b E) CKB_SUDT_ACCOUNT_ID a))"
    "if j = CKB_SUDT_ACCOUNT_ID then rw_amount ?raw = 0
     else rw_amount ?raw \<noteq> 0 \<and> unat (rw_amount ?raw) \<le> unat (vw_map ?v (bal_key (blake2b E) j a))"
    and same: "block_state_view sem absf sc db1 = ?v"
    using withdrawal_verify_view [OF assms(5-8) run] by blast
  have "unat (to_u32 (vw_map ?v (nonce_field i))) + 1 < 2 ^ 32"
    using nonce a(6) by simp
  then have "\<exists>r v'. apply_withdrawal_request (view_journal_ops root) E ctx q (we_request w) ?v = (Ok r, v')"
    using apply_withdrawal_runs [OF assms(5-9) a(1-5) a(7)] a(8) by (simp split: if_splits)
  then show ?thesis
    using block_journal.block_withdrawal [OF bj g1] same by (metis prod.inject surj_pair)
qed


definition sample_verify_externs :: verify_externs where
  "sample_verify_externs = \<lparr> ve_occupied = (\<lambda>_ _. Some 61), ve_extra_size = (\<lambda>_. 400),
     ve_script_of_slice = (\<lambda>bs. if bs = [1] then Some \<lparr> sc_code_hash = 4, sc_hash_type = 1, sc_args = [5] \<rparr> else None),
     ve_readers = \<lparr> read_eth_addr_reg_args = (\<lambda>_. None), read_meta_contract_args = (\<lambda>_. None), 
       read_sudt_args = (\<lambda>_. Some (SUDTTransfer [] 5 \<lparr> fee_registry_id = 2, fee_amount = 3 \<rparr>)) \<rparr> \<rparr>"

definition sample_extra :: withdrawal_request_extra where
  "sample_extra = \<lparr> we_request = sample_withdrawal\<lparr> wr_raw := (wr_raw sample_withdrawal)\<lparr>
       rw_owner_lock_hash := tag_hash [1] \<rparr> \<rparr>,
     we_owner_lock = \<lparr> sc_code_hash = 4, sc_hash_type = 1, sc_args = [5] \<rparr> \<rparr>"

lemma sample_extra_fields:
  "rw_account_script_hash (wr_raw (we_request sample_extra)) = sample_script_hash"
  "rw_registry_id (wr_raw (we_request sample_extra)) = ETH_REGISTRY_ACCOUNT_ID"
  "rw_nonce (wr_raw (we_request sample_extra)) = 0"
  "rw_amount (wr_raw (we_request sample_extra)) = 0"
  "rw_capacity (wr_raw (we_request sample_extra)) = 300"
  "rw_fee (wr_raw (we_request sample_extra)) = 10"
  by (simp_all add: sample_extra_def sample_withdrawal_def ETH_REGISTRY_ACCOUNT_ID_def)

lemma sample_extra_cell:
  "\<exists>c. build_withdrawal_cell_output sample_verify_externs sample_externs sample_context sample_extra
     h t None = Ok c"
  by (simp add: build_withdrawal_cell_output_def sample_extra_def sample_verify_externs_def
      sample_withdrawal_def Let_def script_hash_def sample_externs_def)

lemma sample_rollup_verify:
  "withdrawal_verify (view_ops root) sample_verify_externs sample_externs sample_context f sample_extra None n
     (sample_view sample_rollup) = (Ok (), sample_view sample_rollup)"
proof -
  let ?v = "sample_view sample_rollup"
  note S = sample_rollup_state
  have has: "vw_has ?v k" for k using state_okD(2) [OF S(2)] by simp
  obtain c where c: "build_withdrawal_cell_output sample_verify_externs sample_externs sample_context sample_extra
      h256_one (BlockNumber 1) None = Ok c"
    using sample_extra_cell by blast
  have bal: "get_sudt_balance (view_ops root) tag_hash CKB_SUDT_ACCOUNT_ID sample_address ?v =
      (Ok (vw_map ?v (bal_key tag_hash CKB_SUDT_ACCOUNT_ID sample_address)), ?v)"
    by (rule get_sudt_balance_view) (use state_okD(7) [OF S(2)] has in auto)
  have "unat (saturating_add (to_layer2 (from_layer1 300)) (10 :: u256)) = 300 * 10 ^ 10 + 10"
    by (simp add: unat_saturating_add unat_from_layer1)
  then have "\<not> vw_map ?v (bal_key tag_hash CKB_SUDT_ACCOUNT_ID sample_address) <
      saturating_add (to_layer2 (from_layer1 300)) 10"
    using S(6) by (simp add: word_less_nat_alt)
  moreover have "ve_extra_size sample_verify_externs sample_extra = 400"
    by (simp add: sample_verify_externs_def)
  ultimately show ?thesis
    using c bal has S
    by (simp add: withdrawal_verify_def Let_def check_withdrawal_sudt_def sbind_run map_err_def
        sample_extra_fields get_registry_address_by_script_hash_view get_account_id_view get_nonce_view
        to_u32_0 max_withdrawal_size_def MAX_WITHDRAWAL_SIZE_def)
qed

theorem verified_withdrawal_applies_witness:
  "\<exists>db1 receipt db2. withdrawal_verify (sample_ops (\<lambda>m. m 1)) sample_verify_externs sample_externs
      sample_context (rx_fork_config sample_context) sample_extra None 1 sample_rollup = (Ok (), db1) \<and>
    apply_withdrawal_request (sample_ops (\<lambda>m. m 1)) sample_externs sample_context sample_address
      (we_request sample_extra) db1 = (Ok receipt, db2)"
proof -
  from sample_run [OF fbj.bj.sim_withdrawal_verify sample_rollup_state(1) sample_rollup_verify]
  obtain db1 where run: "withdrawal_verify (sample_ops (\<lambda>m. m 1)) sample_verify_externs sample_externs
      sample_context (rx_fork_config sample_context) sample_extra None 1 sample_rollup = (Ok (), db1)" by metis
  show ?thesis
    using verified_withdrawal_applies [OF mtree.smt_contract_axioms ftx.tx_store_axioms fbj.it
        sample_rollup_state(1) _ _ _ sample_extra_fields(2) _ run, of sample_A sample_H sample_address]
      run sample_rollup_state(2)
    by (auto simp: sample_extra_fields)
qed

section \<open>The lock arguments round trip\<close>

lemma lock_args_round_trip:
  "withdrawal_lock_args_new_unchecked (withdrawal_lock_args_as_slice w) = w"
  "length (withdrawal_lock_args_as_slice w) = 104"
  by (simp_all add: withdrawal_lock_args_new_unchecked_def withdrawal_lock_args_as_slice_def
      byte_range_def from_to_le_bytes)

text \<open>
  C29. The lock arguments of a withdrawal cell survive the trip to layer 1. Parsing the arguments
  of the cell built for a request gives back the rollup, the block, the finalisation timepoint,
  the account, and the owner lock whose hash the request names, provided the molecule reader
  reads back the scripts that were written.
\<close>

theorem withdrawal_cell_parses_back:
  assumes "build_withdrawal_cell_output V E ctx req block_hash t asset = Ok (output, data)"
    and "ve_script_of_slice V (script_as_slice E (we_owner_lock req)) = Some (we_owner_lock req)"
    and "script_as_slice E (we_owner_lock req) \<noteq> []"
    and "length (script_as_slice E (we_owner_lock req)) < 2 ^ 32"
  shows "parse_lock_args V E (sc_args (co_lock output)) = Ok \<lparr>
      pw_rollup_type_hash = rx_rollup_script_hash ctx,
      pw_lock_args = \<lparr> wl_withdrawal_block_hash = block_hash,
        wl_withdrawal_finalized_timepoint = full_value t,
        wl_account_script_hash = rw_account_script_hash (wr_raw (we_request req)),
        wl_owner_lock_hash = script_hash E (we_owner_lock req) \<rparr>,
      pw_owner_lock = we_owner_lock req \<rparr> \<and>
    co_capacity output = rw_capacity (wr_raw (we_request req)) \<and>
    (\<exists>least. ve_occupied V output (length data) = Some least \<and> least \<le> co_capacity output)"
proof -
  let ?o = "script_as_slice E (we_owner_lock req)" and ?raw = "wr_raw (we_request req)"
  let ?w = "\<lparr> wl_withdrawal_block_hash = block_hash, wl_withdrawal_finalized_timepoint = full_value t,
      wl_account_script_hash = rw_account_script_hash ?raw, wl_owner_lock_hash = rw_owner_lock_hash ?raw \<rparr>"
  have h: "rw_owner_lock_hash ?raw = script_hash E (we_owner_lock req)"
    and args: "sc_args (co_lock output) = withdrawal_lock_bytes E ctx req block_hash t"
    and cap: "co_capacity output = rw_capacity ?raw"
    and occ: "\<exists>least. ve_occupied V output (length data) = Some least \<and> least \<le> co_capacity output"
    using assms(1)
    by (auto simp: build_withdrawal_cell_output_def Let_def split: if_splits option.splits)
  let ?n = "to_be_bytes 4 (of_nat (length ?o) :: u32)"
  let ?args = "as_slice (rx_rollup_script_hash ctx) @ withdrawal_lock_args_as_slice ?w @ ?n @ ?o"
  have a: "sc_args (co_lock output) = ?args" by (simp add: args withdrawal_lock_bytes_def Let_def)
  have r: "byte_range 0 32 ?args = as_slice (rx_rollup_script_hash ctx)"
    "byte_range 32 136 ?args = withdrawal_lock_args_as_slice ?w" "byte_range 136 140 ?args = ?n"
    "byte_range 140 (140 + length ?o) ?args = ?o"
    by (simp_all add: byte_range_def lock_args_round_trip)
  have n: "unat (from_be_bytes ?n :: u32) = length ?o"
    using assms(4) by (simp add: from_to_be_bytes unat_of_nat_small)
  have "parse_lock_args V E ?args = Ok \<lparr> pw_rollup_type_hash = rx_rollup_script_hash ctx,
      pw_lock_args = ?w, pw_owner_lock = we_owner_lock req \<rparr>"
    using assms(2,3) r n
    by (simp add: parse_lock_args_def Let_def WITHDRAWAL_LOCK_ARGS_TOTAL_SIZE_def lock_args_round_trip h)
  then show ?thesis using a cap occ h by simp
qed

theorem withdrawal_cell_parses_back_witness:
  "\<exists>output data. build_withdrawal_cell_output sample_verify_externs sample_externs sample_context
      sample_extra 8 (BlockNumber 3) None = Ok (output, data) \<and>
    (case parse_lock_args sample_verify_externs sample_externs (sc_args (co_lock output)) of
       Ok p \<Rightarrow> pw_owner_lock p = we_owner_lock sample_extra \<and>
         wl_withdrawal_finalized_timepoint (pw_lock_args p) = 3 | _ \<Rightarrow> False)"
proof -
  obtain cell data where b: "build_withdrawal_cell_output sample_verify_externs sample_externs
      sample_context sample_extra 8 (BlockNumber 3) None = Ok (cell, data)"
    using sample_extra_cell by (metis surj_pair)
  have "script_as_slice sample_externs (we_owner_lock sample_extra) = [1]"
    by (simp add: sample_externs_def sample_extra_def)
  then show ?thesis
    using withdrawal_cell_parses_back [OF b] b
    by (simp add: sample_verify_externs_def sample_extra_def)
qed


section \<open>Verified transactions\<close>

lemma get_tx_type_view:
  assumes "vw_has v = (\<lambda>_. True)"
  obtains (ok) t where "get_tx_type (view_ops root) ctx raw v = (Ok t, v)"
  | (err) e where "get_tx_type (view_ops root) ctx raw v = (Err (AnyTransaction e), v)"
proof -
  have "(\<exists>t. get_tx_type (view_ops root) ctx raw v = (Ok t, v)) \<or>
      (\<exists>e. get_tx_type (view_ops root) ctx raw v = (Err (AnyTransaction e), v))"
    using assms
    by (auto simp: get_tx_type_def sbind_run map_err_def get_script_hash_view view_ops_run ok_or_def
        split: option.splits)
  then show thesis using ok err by blast
qed

lemma check_intrinsic_gas_no_panic: "check_intrinsic_gas raw c \<noteq> Panic"
  by (auto simp: check_intrinsic_gas_def ok_or_def split: option.splits)

definition verified_transaction ::
  "hasher \<Rightarrow> registry_address set \<Rightarrow> tx_readers \<Rightarrow> raw_l2transaction \<Rightarrow> view \<Rightarrow> bool" where
  "verified_transaction b2b A readers raw v \<longleftrightarrow> (\<exists>a\<in>A. \<exists>t typed cost.
     vw_map v (reg_addr_key b2b (vw_map v (script_field (rtx_from_id raw)))) = reg_value a \<and>
     to_u32 (vw_map v (nonce_field (rtx_from_id raw))) = rtx_nonce raw \<and>
     typed_from_tx raw t = Some typed \<and> typed_cost readers typed = Some cost \<and>
     cost \<le> vw_map v (bal_key b2b CKB_SUDT_ACCOUNT_ID a) \<and>
     (typed = TyPolyjuice raw \<longrightarrow> (\<exists>p gas. poly_from_raw_l2_tx raw = Some p \<and>
        intrinsic_gas raw = Some gas \<and> gas \<le> poly_gas p)))"

lemma verified_transactionI:
  assumes "a \<in> A" and "vw_map v (reg_addr_key b2b (vw_map v (script_field (rtx_from_id raw)))) = reg_value a"
    and "to_u32 (vw_map v (nonce_field (rtx_from_id raw))) = rtx_nonce raw"
    and "typed_from_tx raw t = Some typed" and "typed_cost readers typed = Some cost"
    and "\<not> vw_map v (bal_key b2b CKB_SUDT_ACCOUNT_ID a) < cost"
    and "typed = TyPolyjuice raw \<Longrightarrow> \<exists>p gas. poly_from_raw_l2_tx raw = Some p \<and>
        intrinsic_gas raw = Some gas \<and> gas \<le> poly_gas p"
  shows "verified_transaction b2b A readers raw v"
  using assms unfolding verified_transaction_def by (meson linorder_not_less)

lemma check_intrinsic_gas_Ok:
  "check_intrinsic_gas raw c = Ok u \<Longrightarrow>
     \<exists>p gas. poly_from_raw_l2_tx raw = Some p \<and> intrinsic_gas raw = Some gas \<and> gas \<le> poly_gas p"
  by (auto simp: check_intrinsic_gas_def split: if_splits)

lemma transaction_verify_view:
  assumes S: "state_ok (blake2b E) A H v" and id: "rtx_from_id (tx_raw tx) < vw_count v"
    and run: "transaction_verify (view_ops root) V E ctx f c tx n v = (r, v')"
  shows "v' = v \<and> r \<noteq> Panic \<and> (r = Ok () \<longrightarrow> verified_transaction (blake2b E) A (ve_readers V) (tx_raw tx) v)"
proof -
  let ?raw = "tx_raw tx" and ?b = "blake2b E"
  let ?h = "vw_map v (script_field (rtx_from_id ?raw))"
  have has: "vw_has v k" for k using state_okD(2) [OF S] by simp
  have h: "?h \<in> H" using state_okD(3) [OF S] id by (simp add: accounts_ok_def)
  have nonce: "get_nonce (view_ops root) k v = (Ok (to_u32 (vw_map v (nonce_field k))), v)" for k
    by (rule get_nonce_view [OF has])
  have sh: "get_script_hash (view_ops root) k v = (Ok (vw_map v (script_field k)), v)" for k
    by (rule get_script_hash_view [OF has])
  show ?thesis
  proof (cases "vw_map v (reg_addr_key ?b ?h) = 0")
    case True
    then show ?thesis
      using run has
      by (auto simp: transaction_verify_def Let_def sbind_run map_err_def nonce sh
          get_registry_address_by_script_hash_view split: if_splits)
  next
    case False
    then obtain a where a: "a \<in> A" "eth_address a" "vw_map v (reg_addr_key ?b ?h) = reg_value a"
      using state_okD(4) [OF S] h by (fastforce simp: registry_ok_def)
    then have ra: "get_registry_address_by_script_hash (view_ops root) ?b ETH_REGISTRY_ACCOUNT_ID ?h v =
        (Ok (Some a), v)"
      using has by (simp add: get_registry_address_by_script_hash_view)
    have bal: "get_sudt_balance (view_ops root) ?b k a v = (Ok (vw_map v (bal_key ?b k a)), v)" for k
      by (rule get_sudt_balance_view) (use state_okD(7) [OF S a(1)] has in auto)
    from state_okD(2) [OF S] show ?thesis
    proof (cases rule: get_tx_type_view [where root = root and ctx = ctx and raw = ?raw])
      case (err e)
      then show ?thesis
        using run
        by (auto simp: transaction_verify_def Let_def sbind_run map_err_def nonce sh ra bal downcast_tx_def
            split: if_splits)
    next
      case (ok t)
      let ?checks = "length (l2transaction_as_slice E tx) \<le> max_tx_size f n \<and>
          to_u32 (vw_map v (nonce_field (rtx_from_id ?raw))) = rtx_nonce ?raw"
      have "(r, v') = (if ?checks then case typed_from_tx ?raw t of None \<Rightarrow> (Err (TvAccount UnknownScript), v)
          | Some typed \<Rightarrow> (case typed_cost (ve_readers V) typed of None \<Rightarrow> (Err (TvTransaction TxNoCost), v)
            | Some cost \<Rightarrow> if vw_map v (bal_key ?b CKB_SUDT_ACCOUNT_ID a) < cost
                then (Err (TvTransaction TxInsufficientBalance), v)
                else (case typed of TyPolyjuice raw \<Rightarrow> check_intrinsic_gas raw c | _ \<Rightarrow> Ok (), v))
          else (r, v'))" and early: "\<not> ?checks \<Longrightarrow> v' = v \<and> r \<noteq> Panic \<and> r \<noteq> Ok ()"
        using run ok
        by (auto simp: transaction_verify_def Let_def sbind_run map_err_def nonce sh ra bal downcast_tx_def
            split: if_splits option.splits typed_raw_transaction.splits)
      note res = this(1)
      show ?thesis
      proof (cases "?checks \<and> r = Ok ()")
        case False
        then show ?thesis
          using res early check_intrinsic_gas_no_panic [of _ c]
          by (auto split: option.splits if_splits typed_raw_transaction.splits)
      next
        case True
        with res obtain typed cost where ty: "typed_from_tx ?raw t = Some typed"
          "typed_cost (ve_readers V) typed = Some cost" "\<not> vw_map v (bal_key ?b CKB_SUDT_ACCOUNT_ID a) < cost"
          and p: "(case typed of TyPolyjuice raw \<Rightarrow> check_intrinsic_gas raw c | _ \<Rightarrow> Ok ()) = Ok ()" and "v' = v"
          by (auto split: option.splits if_splits)
        moreover have "verified_transaction ?b A (ve_readers V) ?raw v"
          by (rule verified_transactionI [OF a(1,3) _ ty]) (use True p check_intrinsic_gas_Ok in auto)
        ultimately show ?thesis using True by simp
      qed
    qed
  qed
qed



definition sample_tx :: l2transaction where
  "sample_tx = \<lparr> tx_raw = \<lparr> rtx_chain_id = 71400, rtx_from_id = 0, rtx_to_id = 1, rtx_nonce = 0,
     rtx_args = [] \<rparr>, tx_signature = [] \<rparr>"

lemma sample_tx_type:
  "get_tx_type (view_ops root) sample_context (tx_raw sample_tx) (sample_view sample_rollup) =
     (Ok ContractSudt, sample_view sample_rollup)"
  using state_okD(2) [OF sample_rollup_state(2)] sample_rollup_state(10,12)
  by (simp add: get_tx_type_def sbind_run map_err_def sample_tx_def get_script_hash_view view_ops_run
      build_l2_sudt_script_def sample_context_def sample_config_def allowed_contract_type_try_from_def)

lemma sample_tx_verify:
  "transaction_verify (view_ops root) sample_verify_externs sample_externs sample_context f None
     sample_tx n (sample_view sample_rollup) = (Ok (), sample_view sample_rollup)"
proof -
  let ?v = "sample_view sample_rollup"
  note S = sample_rollup_state
  have has: "vw_has ?v k" for k using state_okD(2) [OF S(2)] by simp
  have bal: "get_sudt_balance (view_ops root) tag_hash CKB_SUDT_ACCOUNT_ID sample_address ?v =
      (Ok (vw_map ?v (bal_key tag_hash CKB_SUDT_ACCOUNT_ID sample_address)), ?v)"
    by (rule get_sudt_balance_view) (use state_okD(7) [OF S(2)] has in auto)
  have ra: "get_registry_address_by_script_hash (view_ops root) tag_hash ETH_REGISTRY_ACCOUNT_ID
      sample_script_hash ?v = (Ok (Some sample_address), ?v)"
    using S(5) has by (simp add: get_registry_address_by_script_hash_view)
  have cost: "typed_cost (ve_readers sample_verify_externs) (TySimpleUDT (tx_raw sample_tx)) = Some 8"
    by (simp add: simple_udt_cost_def sample_verify_externs_def sample_tx_def CKB_SUDT_ACCOUNT_ID_def
        checked_add_def)
  have "\<not> vw_map ?v (bal_key tag_hash CKB_SUDT_ACCOUNT_ID sample_address) < 8"
    using S(6) by (simp add: word_less_nat_alt)
  moreover have "rtx_from_id (tx_raw sample_tx) = 0" "rtx_nonce (tx_raw sample_tx) = 0"
    "l2transaction_as_slice sample_externs sample_tx = []"
    by (simp_all add: sample_tx_def sample_externs_def)
  ultimately show ?thesis
    using cost bal ra S(7,9) has sample_tx_type [of root]
    by (simp add: transaction_verify_def Let_def sbind_run map_err_def get_nonce_view
        get_script_hash_view to_u32_0 max_tx_size_def MAX_TX_SIZE_def downcast_tx_def)
qed


section \<open>Forks of the backends\<close>

definition forks_sorted :: "backend_manage \<Rightarrow> bool" where
  "forks_sorted bm \<longleftrightarrow> sorted_wrt (<) (map fst (bm_backend_forks bm))"

lemma register_backend_fork_Ok:
  assumes "register_backend_fork read b2b config bm = Ok bm'"
  obtains consensus where "bm_backend_forks bm' = bm_backend_forks bm @ [(bf_fork_height config, consensus)]"
    and "bm_backend_forks bm \<noteq> [] \<Longrightarrow> fst (last (bm_backend_forks bm)) < bf_fork_height config"
  using assms
  by (auto simp: register_backend_fork_def Let_def split: if_splits prod.splits)

lemma register_backend_fork_sorted:
  assumes "forks_sorted bm" and "register_backend_fork read b2b config bm = Ok bm'"
  shows "forks_sorted bm' \<and> (\<forall>x\<in>set (bm_backend_forks bm). fst x < bf_fork_height config)"
proof -
  obtain c where c: "bm_backend_forks bm' = bm_backend_forks bm @ [(bf_fork_height config, c)]"
    and l: "bm_backend_forks bm \<noteq> [] \<Longrightarrow> fst (last (bm_backend_forks bm)) < bf_fork_height config"
    using register_backend_fork_Ok [OF assms(2)] by blast
  have "fst x < bf_fork_height config" if "x \<in> set (bm_backend_forks bm)" for x
  proof -
    have "bm_backend_forks bm \<noteq> []" using that by auto
    then obtain ys z where yz: "bm_backend_forks bm = ys @ [z]" by (metis rev_exhaust)
    then have "fst x \<le> fst z"
      using that assms(1) by (auto simp: forks_sorted_def sorted_wrt_append intro: less_imp_le)
    then show ?thesis using l yz by auto
  qed
  then show ?thesis using assms(1) c by (simp add: forks_sorted_def sorted_wrt_append)
qed

text \<open>
  C31. Registering a backend fork never changes the past. Starting from any list of forks that
  registration can produce, a successful registration keeps the fork heights strictly
  increasing; the consensus and backends in force at every block below the new height are what
  they were, and from the new height on the new consensus is in force.
\<close>

theorem fork_registration_is_forward_only:
  assumes "backend_manage_from_config read b2b configs = Ok bm"
    and "register_backend_fork read b2b config bm = Ok bm'"
  shows "sorted_wrt (<) (map fst (bm_backend_forks bm')) \<and>
    (\<forall>n < bf_fork_height config.
       get_block_consensus_at_height n bm' = get_block_consensus_at_height n bm \<and>
       get_backend n code_hash bm' = get_backend n code_hash bm) \<and>
    (\<exists>consensus. \<forall>n \<ge> bf_fork_height config.
       get_block_consensus_at_height n bm' = Some (bf_fork_height config, consensus))"
proof -
  have sorted: "backend_manage_from_config read b2b configs = Ok bm \<Longrightarrow> forks_sorted bm" for configs bm
  proof (induction configs arbitrary: bm rule: rev_induct)
    case Nil
    then show ?case by (auto simp: backend_manage_from_config_def forks_sorted_def)
  next
    case (snoc c cs)
    then obtain m where "backend_manage_from_config read b2b cs = Ok m" "register_backend_fork read b2b c m = Ok bm"
      by (auto simp: backend_manage_from_config_def)
    then show ?case using snoc.IH register_backend_fork_sorted by blast
  qed
  obtain c where c: "bm_backend_forks bm' = bm_backend_forks bm @ [(bf_fork_height config, c)]"
    using register_backend_fork_Ok [OF assms(2)] by blast
  have "get_block_consensus_at_height n bm' = get_block_consensus_at_height n bm"
    if "n < bf_fork_height config" for n
    using that by (auto simp: get_block_consensus_at_height_def c)
  moreover have "get_block_consensus_at_height n bm' = Some (bf_fork_height config, c)"
    if "n \<ge> bf_fork_height config" for n
    using that by (simp add: get_block_consensus_at_height_def c)
  ultimately show ?thesis
    using register_backend_fork_sorted [OF sorted [OF assms(1)] assms(2)]
    by (auto simp: forks_sorted_def get_backend_def)
qed

theorem fork_registration_is_forward_only_witness:
  "let proxy = \<lparr> sp_permit_sudt_transfer_from_dangerous_contract = False, sp_address_list = [] \<rparr>;
       config = (\<lambda>h k. \<lparr> bf_fork_height = h, bf_backends = [\<lparr> bcf_validator_path = ''v'',
         bcf_generator_path = ''g'', bcf_validator_script_type_hash = k, bcf_backend_type = BeSudt \<rparr>],
         bf_sudt_proxy = proxy \<rparr>);
       read = (\<lambda>_. Some [1])
   in \<exists>bm bm'. backend_manage_from_config read len_hash [config 1 42] = Ok bm \<and>
     register_backend_fork read len_hash (config 5 41) bm = Ok bm' \<and>
     get_block_consensus_at_height 4 bm' = get_block_consensus_at_height 4 bm"
proof -
  let ?proxy = "\<lparr> sp_permit_sudt_transfer_from_dangerous_contract = False, sp_address_list = [] \<rparr>"
  let ?config = "\<lambda>h k. \<lparr> bf_fork_height = h, bf_backends = [\<lparr> bcf_validator_path = ''v'',
         bcf_generator_path = ''g'', bcf_validator_script_type_hash = k, bcf_backend_type = BeSudt \<rparr>],
         bf_sudt_proxy = ?proxy \<rparr>"
  obtain bm where bm: "backend_manage_from_config (\<lambda>_. Some [1]) len_hash [?config 1 42] = Ok bm"
    and l: "map fst (bm_backend_forks bm) = [1]"
    by (simp add: backend_manage_from_config_def register_backend_fork_def Let_def)
  then obtain c where "bm_backend_forks bm = [(1, c)]" by auto
  then obtain bm' where r: "register_backend_fork (\<lambda>_. Some [1]) len_hash (?config 5 41) bm = Ok bm'"
    by (simp add: register_backend_fork_def Let_def word_le_nat_alt)
  from fork_registration_is_forward_only [OF bm r] bm r show ?thesis by (auto simp: Let_def)
qed

end
