(* ===== verification/Gw_Execute.thy ===== *)
theory Gw_Execute
  imports Gw_Verify
begin

text \<open>
  Execution of transactions and blocks (\<open>crates/generator/src/generator.rs\<close>): the run of a
  backend, what happens to the state when it fails, signature checks, and the application of a
  whole block.

  The RISC-V machine is the library ckb-vm with the system calls of the generator; it is a
  parameter (\<open>'s vm\<close>) that returns what the run did: whether the program loaded, how it ended,
  the cycles it took, the run context, the cycles pool and the state database it left. The lock
  algorithms are the dictionaries of the trait \<open>LockAlgorithm\<close>.

  Assertions that only debug builds have are left out.
\<close>

section \<open>The machine\<close>

record run_context =
  rn_cycle_meter :: cycle_meter
  rn_return_data :: bytes
  rn_exit_code :: "8 word"
  rn_debug_log_buf :: bytes

definition is_success :: "run_context \<Rightarrow> bool" where
  "is_success c \<longleftrightarrow> rn_exit_code c = 0"

record block_info =
  bi_block_producer :: bytes
  bi_number :: u64
  bi_timestamp :: u64

datatype vm_result = VmExit "8 word" | VmCyclesExceeded | VmError string

record 's vm_outcome =
  vo_load_error :: "string option"
  vo_result :: vm_result
  vo_execution_cycles :: u64
  vo_context :: run_context
  vo_pool :: "cycles_pool option"
  vo_state :: 's

type_synonym 's vm =
  "block_info \<Rightarrow> block_consensus \<Rightarrow> raw_l2transaction \<Rightarrow> u64 \<Rightarrow> backend \<Rightarrow> cycles_pool option \<Rightarrow> 's \<Rightarrow>
     's vm_outcome"

text \<open>\<open>std::str::from_utf8\<close> accepts exactly the well-formed sequences of Unicode.\<close>

definition utf8_tail :: "byte \<Rightarrow> bool" where
  "utf8_tail b \<longleftrightarrow> 0x80 \<le> b \<and> b \<le> 0xBF"

function utf8_valid :: "bytes \<Rightarrow> bool" where
  "utf8_valid bs = (case bs of
      [] \<Rightarrow> True
    | b # r \<Rightarrow>
        if b \<le> 0x7F then utf8_valid r
        else if 0xC2 \<le> b \<and> b \<le> 0xDF then
          (case r of c # s \<Rightarrow> utf8_tail c \<and> utf8_valid s | _ \<Rightarrow> False)
        else if 0xE0 \<le> b \<and> b \<le> 0xEF then
          (case r of c # d # s \<Rightarrow>
             (if b = 0xE0 then 0xA0 \<le> c \<and> c \<le> 0xBF
              else if b = 0xED then 0x80 \<le> c \<and> c \<le> 0x9F else utf8_tail c) \<and>
             utf8_tail d \<and> utf8_valid s | _ \<Rightarrow> False)
        else if 0xF0 \<le> b \<and> b \<le> 0xF4 then
          (case r of c # d # e # s \<Rightarrow>
             (if b = 0xF0 then 0x90 \<le> c \<and> c \<le> 0xBF
              else if b = 0xF4 then 0x80 \<le> c \<and> c \<le> 0x8F else utf8_tail c) \<and>
             utf8_tail d \<and> utf8_tail e \<and> utf8_valid s | _ \<Rightarrow> False)
        else False)"
  by pat_completeness auto

termination by (relation "measure length") auto

declare utf8_valid.simps [simp del]

definition INVALID_CYCLES_EXIT_CODE :: "8 word" where "INVALID_CYCLES_EXIT_CODE = - 1"

text \<open>\<open>machine_run\<close>: the outcome, and the pool and state it leaves.\<close>

definition machine_run ::
  "'s vm \<Rightarrow> bool \<Rightarrow> block_info \<Rightarrow> block_consensus \<Rightarrow> raw_l2transaction \<Rightarrow> u64 \<Rightarrow> backend \<Rightarrow>
     (('s \<times> cycles_pool option), transaction_error, run_context) sm" where
  "machine_run vm verbose info consensus raw_tx max_cycles backend = (\<lambda>(state, org_pool).
     let out = vm info consensus raw_tx max_cycles backend org_pool state;
         s = vo_state out;
         execution_cycles = vo_execution_cycles out;
         finish = (\<lambda>pool.
           let ended = (\<lambda>exit_code used_cycles.
             if (verbose \<or> exit_code \<noteq> 0) \<and> \<not> utf8_valid (rn_debug_log_buf (vo_context out))
             then (Err (TxUtf8Error ''debug log''), (s, pool))
             else (Ok ((vo_context out)\<lparr> rn_cycle_meter := (rn_cycle_meter (vo_context out))\<lparr>
                          cm_execution := used_cycles \<rparr>, rn_exit_code := exit_code \<rparr>), (s, pool)))
           in case vo_result out of
                VmExit exit_code \<Rightarrow> ended exit_code execution_cycles
              | VmCyclesExceeded \<Rightarrow> ended INVALID_CYCLES_EXIT_CODE max_cycles
              | VmError e \<Rightarrow> (Err (TxVM e), (s, org_pool)))
     in case vo_load_error out of
          Some e \<Rightarrow> (Err (TxVM e), (s, vo_pool out))
        | None \<Rightarrow>
            (case vo_pool out of
               None \<Rightarrow> finish None
             | Some pool \<Rightarrow>
                 (case consume_cycles execution_cycles pool of
                    (Some _, pool') \<Rightarrow> finish (Some pool')
                  | (None, pool') \<Rightarrow>
                      let cycles = \<lparr> cm_execution = execution_cycles,
                                     cm_virtual = cm_virtual (rn_cycle_meter (vo_context out)) \<rparr>;
                          limit = cp_limit pool' in
                      if cm_total cycles > limit
                      then (case org_pool of
                              None \<Rightarrow> (Panic, (s, Some pool'))
                            | Some org \<Rightarrow> (Err (TxExceededMaxBlockCycles cycles limit), (s, Some org)))
                      else (Err (TxInsufficientPoolCycles cycles limit), (s, Some pool')))))"

section \<open>The generator\<close>

record lock_algorithm =
  la_verify_tx :: "rollup_context \<Rightarrow> registry_address \<Rightarrow> script \<Rightarrow> script \<Rightarrow> l2transaction \<Rightarrow>
    (lock_algorithm_error, unit) outcome"
  la_verify_withdrawal :: "rollup_context \<Rightarrow> script \<Rightarrow> withdrawal_request_extra \<Rightarrow> registry_address \<Rightarrow>
    (lock_algorithm_error, unit) outcome"

type_synonym account_lock_manage = "(h256, lock_algorithm) fmap"

definition register_lock_algorithm :: "h256 \<Rightarrow> lock_algorithm \<Rightarrow> account_lock_manage \<Rightarrow> account_lock_manage" where
  "register_lock_algorithm code_hash lock_algo locks = fmupd code_hash lock_algo locks"

definition get_lock_algorithm :: "h256 \<Rightarrow> account_lock_manage \<Rightarrow> lock_algorithm option" where
  "get_lock_algorithm code_hash locks = fmlookup locks code_hash"

record generator =
  gn_backend_manage :: backend_manage
  gn_account_lock_manage :: account_lock_manage
  gn_rollup_context :: rollup_context
  gn_verbose_log :: bool

definition check_withdrawal_signature ::
  "('s, 'x) code_state_ops_scheme \<Rightarrow> hasher \<Rightarrow> generator \<Rightarrow> withdrawal_request_extra \<Rightarrow>
     ('s, generator_error, unit) sm" where
  "check_withdrawal_signature T b2b G withdrawal = (
     let raw = wr_raw (we_request withdrawal); account_script_hash = rw_account_script_hash raw in
     sbind (in_state (cs_get_script T account_script_hash)) (\<lambda>s.
     sbind (lift_o (ok_or (GState MissingKey) s)) (\<lambda>account_script.
     sbind (lift_o (ok_or (GUnlock UnknownAccountLock)
              (get_lock_algorithm (sc_code_hash account_script) (gn_account_lock_manage G)))) (\<lambda>lock_algo.
     sbind (in_state (get_registry_address_by_script_hash T b2b (rw_registry_id raw)
              account_script_hash)) (\<lambda>a.
     sbind (lift_o (ok_or (GAccount RegistryAddressNotFound) a)) (\<lambda>address.
     sbind (lift_o (omap_err GUnlock (la_verify_withdrawal lock_algo (gn_rollup_context G) account_script
              withdrawal address))) (\<lambda>_. ret ())))))))"

definition check_transaction_signature ::
  "('s, 'x) code_state_ops_scheme \<Rightarrow> hasher \<Rightarrow> generator \<Rightarrow> l2transaction \<Rightarrow>
     ('s, transaction_validate_error, unit) sm" where
  "check_transaction_signature T b2b G tx = (
     let sender_id = rtx_from_id (tx_raw tx); receiver_id = rtx_to_id (tx_raw tx) in
     sbind (map_err TvState (get_script_hash T sender_id)) (\<lambda>sh.
     if h256_is_zero sh then fail (TvAccount (ScriptNotFound sender_id))
     else
     sbind (map_err TvState (cs_get_script T sh)) (\<lambda>s.
     sbind (lift_o (or_panic s)) (\<lambda>script.
     sbind (map_err TvState (get_script_hash T receiver_id)) (\<lambda>receiver_script_hash.
     if h256_is_zero receiver_script_hash then fail (TvAccount (ScriptNotFound receiver_id))
     else
     sbind (map_err TvState (cs_get_script T receiver_script_hash)) (\<lambda>rs.
     sbind (lift_o (or_panic rs)) (\<lambda>receiver_script.
     sbind (lift_o (ok_or (TvUnlock UnknownAccountLock)
              (get_lock_algorithm (sc_code_hash script) (gn_account_lock_manage G)))) (\<lambda>lock_algo.
     sbind (map_err TvState (get_registry_address_by_script_hash T b2b ETH_REGISTRY_ACCOUNT_ID sh)) (\<lambda>a.
     sbind (lift_o (ok_or (TvAccount RegistryAddressNotFound) a)) (\<lambda>sender_address.
     sbind (lift_o (omap_err TvUnlock (la_verify_tx lock_algo (gn_rollup_context G) sender_address script
              receiver_script tx))) (\<lambda>_. ret ())))))))))))"

definition load_backend_and_block_consensus ::
  "('s, 'x) code_state_ops_scheme \<Rightarrow> generator \<Rightarrow> u64 \<Rightarrow> h256 \<Rightarrow>
     ('s, common_error, (backend \<times> block_consensus) option) sm" where
  "load_backend_and_block_consensus T G block_number sh =
     sbind (cs_get_script T sh) (\<lambda>s. ret (Option.bind s (\<lambda>script.
       if sc_hash_type script = script_hash_type_to_byte Type then
         Option.bind (get_block_consensus_at_height block_number (gn_backend_manage G))
           (\<lambda>(_, consensus). map_option (\<lambda>backend. (backend, consensus))
              (fmlookup (bc_backends consensus) (sc_code_hash script)))
       else None)))"


section \<open>Failed transactions\<close>

text \<open>The system log of a failed Polyjuice transaction: the one it left, or one that charges all gas.\<close>

definition ERROR_EVM_INTERNAL :: u32 where "ERROR_EVM_INTERNAL = - 1"

definition failed_system_log ::
  "log_item option \<Rightarrow> raw_l2transaction \<Rightarrow> (any_error, log_item) outcome" where
  "failed_system_log last_log raw_tx = (
     let generate = obind (ok_or (AnyTransaction TxNoCost) (poly_from_raw_l2_tx raw_tx)) (\<lambda>p.
           Ok (generate_polyjuice_system_log (rtx_to_id raw_tx) (poly_gas p) (poly_gas p)
             (replicate 20 0) ERROR_EVM_INTERNAL))
     in case last_log of
          Some l \<Rightarrow> if li_service_flag l = GW_LOG_POLYJUICE_SYSTEM then Ok l else generate
        | None \<Rightarrow> generate)"

definition failed_tx_fee ::
  "tx_readers \<Rightarrow> log_item option \<Rightarrow> raw_l2transaction \<Rightarrow> typed_raw_transaction \<Rightarrow>
     ('s state_db, any_error, u256 option) sm" where
  "failed_tx_fee R last_log raw_tx typed_tx = (
     case typed_tx of
       TyEthAddrReg tx \<Rightarrow> ret (eth_addr_reg_consumed R tx)
     | TyMeta tx \<Rightarrow> ret (meta_consumed R tx)
     | TySimpleUDT tx \<Rightarrow> ret (simple_udt_consumed R tx)
     | TyPolyjuice tx \<Rightarrow>
         sbind (lift_o (failed_system_log last_log raw_tx)) (\<lambda>system_log.
         sbind (lift_o (ok_or (AnyTransaction TxNoCost) (poly_from_raw_l2_tx tx))) (\<lambda>parser.
         sbind (lift_o (read_polyjuice_gas_used system_log)) (\<lambda>g.
         let gas_used = (case g of Some gas_used \<Rightarrow> gas_used | None \<Rightarrow> poly_gas parser) in
         sbind (modify (append_log system_log)) (\<lambda>_.
           ret (checked_mul (ucast gas_used) (ucast (poly_gas_price parser))))))))"

definition raise_total_supply ::
  "('s, 'x) state_ops_scheme \<Rightarrow> hasher \<Rightarrow> u256 \<Rightarrow> ('s, any_error, unit) sm" where
  "raise_total_supply T b2b tx_fee = (
     let raw_key = build_account_key b2b CKB_SUDT_ACCOUNT_ID SUDT_TOTAL_SUPPLY_KEY in
     sbind (map_err AnyState (st_get_raw T raw_key)) (\<lambda>v.
     sbind (lift_o (ok_or (AnyTransaction TxInsufficientBalance) (checked_add (to_u256 v) tx_fee))) (\<lambda>total_supply.
       map_err AnyState (st_update_raw T raw_key (from_u256 total_supply)))))"

definition charge_failed_transaction ::
  "('s state_db, 'x) code_state_ops_scheme \<Rightarrow> tx_readers \<Rightarrow> hasher \<Rightarrow> generator \<Rightarrow> u32 \<Rightarrow> block_info \<Rightarrow>
     raw_l2transaction \<Rightarrow> 8 word \<Rightarrow> log_item option \<Rightarrow> ('s state_db, any_error, unit) sm" where
  "charge_failed_transaction T R b2b G nonce_before info raw_tx exit_code last_log = (
     let sender_id = rtx_from_id raw_tx in
     sbind (map_err AnyState (get_script_hash T sender_id)) (\<lambda>sh.
     sbind (map_err AnyState (get_registry_address_by_script_hash T b2b ETH_REGISTRY_ACCOUNT_ID sh)) (\<lambda>a.
     sbind (lift_o (ok_or (AnyTransaction TxScriptHashNotFound) a)) (\<lambda>payer.
     let block_producer = (case from_slice (bi_block_producer info) of
           Some p \<Rightarrow> p | None \<Rightarrow> \<lparr> ra_registry_id = 0, ra_address = [] \<rparr>) in
     sbind (get_tx_type T (gn_rollup_context G) raw_tx) (\<lambda>tx_type.
     sbind (lift_o (ok_or (AnyTransaction (TxUnknownTxType exit_code)) (typed_from_tx raw_tx tx_type))) (\<lambda>typed_tx.
     sbind (failed_tx_fee R last_log raw_tx typed_tx) (\<lambda>fee.
     sbind (lift_o (ok_or (AnyTransaction TxNoCost) fee)) (\<lambda>tx_fee.
     sbind (map_err (\<lambda>_. AnyTransaction TxInsufficientBalance)
              (pay_fee T b2b payer block_producer CKB_SUDT_ACCOUNT_ID tx_fee)) (\<lambda>_.
     sbind (raise_total_supply T b2b tx_fee) (\<lambda>_.
     sbind (lift_o (ok_or (AnyTransaction TxNonceOverflow) (checked_add nonce_before 1))) (\<lambda>nonce.
       map_err AnyState (set_nonce T sender_id nonce))))))))))))"

definition handle_failed_transaction ::
  "('s state_db, 'x) code_state_ops_scheme \<Rightarrow> tx_readers \<Rightarrow> hasher \<Rightarrow> generator \<Rightarrow> nat \<Rightarrow> u32 \<Rightarrow>
     block_info \<Rightarrow> raw_l2transaction \<Rightarrow> 8 word \<Rightarrow> ('s state_db, any_error, unit) sm" where
  "handle_failed_transaction T R b2b G origin_snapshot nonce_before info raw_tx exit_code = (\<lambda>db.
     let logs = sd_dirty_logs db;
         last_log = (if logs = [] then None else Some (last logs)) in
     sbind (map_err AnyState (revert origin_snapshot)) (\<lambda>_.
       charge_failed_transaction T R b2b G nonce_before info raw_tx exit_code last_log) db)"

section \<open>Execution of a transaction\<close>

record run_result =
  rr_return_data :: bytes
  rr_logs :: "log_item list"
  rr_exit_code :: "8 word"
  rr_cycles :: cycle_meter
  rr_read_data_hashes :: "h256 fset"
  rr_write_data_hashes :: "h256 fset"
  rr_debug_log_buf :: bytes

definition on_state_db :: "('d, 'e, 'a) sm \<Rightarrow> ('d \<times> 'p, 'e, 'a) sm" where
  "on_state_db m = (\<lambda>(db, p). case m db of (r, db') \<Rightarrow> (r, (db', p)))"

text \<open>The two size limits on the data a transaction touched; a hash map is searched in any order.\<close>

definition check_data_limits ::
  "hash_iter \<Rightarrow> fork_config \<Rightarrow> u64 \<Rightarrow> state_tracker \<Rightarrow> (any_error, unit) outcome" where
  "check_data_limits it f block_number tracker = (
     case List.find (\<lambda>(_, data). length data > max_write_data_bytes f block_number)
            (it_data it (fm_rows (tk_write_data tracker))) of
       Some (_, data) \<Rightarrow>
         Err (AnyTransaction (TxExceededMaxWriteData (max_write_data_bytes f block_number) (length data)))
     | None \<Rightarrow>
         let read_data_bytes = sum_list (map (\<lambda>(_, data). length data) (fm_rows (tk_read_data tracker))) in
         if read_data_bytes > max_total_read_data_bytes f block_number
         then Err (AnyTransaction (TxExceededMaxTotalReadData
                (max_total_read_data_bytes f block_number) read_data_bytes))
         else Ok ())"

text \<open>\<open>machine_run(..).map_err(revert)\<close>.\<close>

definition run_or_revert ::
  "nat \<Rightarrow> (('s state_db \<times> 'p), transaction_error, 'a) sm \<Rightarrow> (('s state_db \<times> 'p), any_error, 'a) sm" where
  "run_or_revert snap m = (\<lambda>s. case m s of
     (Ok x, s') \<Rightarrow> (Ok x, s')
   | (Err e, s') \<Rightarrow> (case on_state_db (revert snap) s' of
        (Ok _, s'') \<Rightarrow> (Err (AnyTransaction e), s'') | (_, s'') \<Rightarrow> (Panic, s''))
   | (Panic, s') \<Rightarrow> (Panic, s'))"

definition settle_run ::
  "('s state_db, 'x) code_state_ops_scheme \<Rightarrow> tx_readers \<Rightarrow> hasher \<Rightarrow> generator \<Rightarrow> nat \<Rightarrow> u32 \<Rightarrow>
     block_info \<Rightarrow> raw_l2transaction \<Rightarrow> run_context \<Rightarrow> ('s state_db, any_error, unit) sm" where
  "settle_run T R b2b G snap nonce_before info raw_tx run_ctx = (
     if is_success run_ctx
     then sbind (map_err AnyState (get_nonce T (rtx_from_id raw_tx))) (\<lambda>nonce_after.
       if nonce_after \<le> nonce_before then fail (AnyTransaction TxBackendMustIncreaseNonce) else ret ())
     else handle_failed_transaction T R b2b G snap nonce_before info raw_tx (rn_exit_code run_ctx))"

definition collect_result ::
  "hash_iter \<Rightarrow> fork_config \<Rightarrow> u64 \<Rightarrow> run_context \<Rightarrow> ('s state_db, any_error, run_result) sm" where
  "collect_result it f block_number run_ctx = (
     sbind (\<lambda>db. case take_state_tracker db of (t, db') \<Rightarrow> (or_panic t, db')) (\<lambda>tracker.
     sbind (lift_o (check_data_limits it f block_number tracker)) (\<lambda>_ db. (Ok \<lparr>
       rr_return_data = rn_return_data run_ctx, rr_logs = sd_dirty_logs db,
       rr_exit_code = rn_exit_code run_ctx, rr_cycles = rn_cycle_meter run_ctx,
       rr_read_data_hashes = fmdom (tk_read_data tracker),
       rr_write_data_hashes = fmdom (tk_write_data tracker),
       rr_debug_log_buf = rn_debug_log_buf run_ctx \<rparr>, db))))"

text \<open>The part of \<open>execute_transaction\<close> after the backend is loaded.\<close>

definition execute_loaded ::
  "('s state_db, 'x) code_state_ops_scheme \<Rightarrow> hash_iter \<Rightarrow> 's state_db vm \<Rightarrow> tx_readers \<Rightarrow> hasher \<Rightarrow>
     generator \<Rightarrow> block_info \<Rightarrow> raw_l2transaction \<Rightarrow> u64 option \<Rightarrow> backend \<times> block_consensus \<Rightarrow>
     (('s state_db \<times> cycles_pool option), any_error, run_result) sm" where
  "execute_loaded T it vm R b2b G info raw_tx override_max_cycles loaded = (
     let block_number = bi_number info; f = rx_fork_config (gn_rollup_context G);
         max_cycles = (case override_max_cycles of
           Some c \<Rightarrow> c | None \<Rightarrow> max_l2_tx_cycles f block_number) in
     sbind (on_state_db (\<lambda>db. case snapshot db of (snap, db') \<Rightarrow> (Ok snap, db'))) (\<lambda>snap.
     sbind (on_state_db (map_err AnyState (get_nonce T (rtx_from_id raw_tx)))) (\<lambda>nonce_before.
     sbind (on_state_db (modify (set_state_tracker tracker_default))) (\<lambda>_.
     sbind (run_or_revert snap
              (machine_run vm (gn_verbose_log G) info (snd loaded) raw_tx max_cycles (fst loaded))) (\<lambda>run_ctx.
     sbind (on_state_db (settle_run T R b2b G snap nonce_before info raw_tx run_ctx)) (\<lambda>_.
       on_state_db (collect_result it f block_number run_ctx)))))))"

definition execute_transaction ::
  "('s state_db, 'x) code_state_ops_scheme \<Rightarrow> hash_iter \<Rightarrow> 's state_db vm \<Rightarrow> tx_readers \<Rightarrow> hasher \<Rightarrow>
     generator \<Rightarrow> block_info \<Rightarrow> raw_l2transaction \<Rightarrow> u64 option \<Rightarrow>
     (('s state_db \<times> cycles_pool option), any_error, run_result) sm" where
  "execute_transaction T it vm R b2b G info raw_tx override_max_cycles =
     sbind (on_state_db (map_err AnyState (get_script_hash T (rtx_to_id raw_tx)))) (\<lambda>sh.
     sbind (on_state_db (map_err AnyState (load_backend_and_block_consensus T G (bi_number info) sh))) (\<lambda>found.
     sbind (lift_o (ok_or (AnyTransaction (TxBackendNotFound sh)) found))
       (execute_loaded T it vm R b2b G info raw_tx override_max_cycles)))"


section \<open>Application of a block\<close>

definition build_challenge_target :: "h256 \<Rightarrow> challenge_target_type \<Rightarrow> u32 \<Rightarrow> challenge_target" where
  "build_challenge_target block_hash target_type target_index = \<lparr>
     ct_block_hash = block_hash, ct_target_index = target_index,
     ct_target_type = challenge_target_type_to_u8 target_type \<rparr>"

definition get_block_info :: "raw_l2block \<Rightarrow> block_info" where
  "get_block_info l2block = \<lparr>
     bi_block_producer = rb_block_producer l2block, bi_number = rb_number l2block,
     bi_timestamp = rb_timestamp l2block \<rparr>"

record tx_receipt =
  tr_tx_witness_hash :: h256
  tr_post_state :: account_merkle_state
  tr_read_data_hashes :: "h256 fset"
  tr_logs :: "log_item list"
  tr_exit_code :: byte

definition build_receipt :: "h256 \<Rightarrow> run_result \<Rightarrow> account_merkle_state \<Rightarrow> tx_receipt" where
  "build_receipt tx_witness_hash result post_state = \<lparr>
     tr_tx_witness_hash = tx_witness_hash, tr_post_state = post_state,
     tr_read_data_hashes = rr_read_data_hashes result, tr_logs = rr_logs result,
     tr_exit_code = rr_exit_code result \<rparr>"

record apply_block_args =
  ab_l2block :: l2block
  ab_deposit_requests :: "deposit_request list"
  ab_withdrawals :: "withdrawal_request_extra list"

text \<open>\<open>ApplyBlockResult\<close>: the success value, and the two ways to stop as errors of the monad.\<close>

record apply_block_success =
  as_withdrawal_receipts :: "account_merkle_state list"
  as_prev_txs_state :: account_merkle_state
  as_tx_receipts :: "tx_receipt list"
  as_offchain_used_cycles :: u64

datatype block_any_error = BaGenerator generator_error | BaState common_error | BaBlock block_error

datatype apply_block_stop = AbChallenge challenge_target generator_error | AbError block_any_error

text \<open>\<open>expect\<close> and \<open>assert_eq!\<close>.\<close>

definition expect :: "('s, 'e, 'a) sm \<Rightarrow> ('s, 'f, 'a) sm" where
  "expect m = (\<lambda>s. case m s of (Ok x, s') \<Rightarrow> (Ok x, s') | (_, s') \<Rightarrow> (Panic, s'))"

definition assert_that :: "bool \<Rightarrow> ('s, 'e, unit) sm" where
  "assert_that b = (if b then ret () else panic)"

definition with_no_pool :: "(('d \<times> cycles_pool option), 'e, 'a) sm \<Rightarrow> ('d, 'e, 'a) sm" where
  "with_no_pool m = (\<lambda>db. case m (db, None) of (r, (db', _)) \<Rightarrow> (r, db'))"

definition assert_merkle_state ::
  "('s, 'x) state_ops_scheme \<Rightarrow> account_merkle_state \<Rightarrow> ('s, apply_block_stop, unit) sm" where
  "assert_merkle_state T m =
     sbind (expect (st_calculate_root T)) (\<lambda>root.
     sbind (assert_that (root = ams_merkle_root m)) (\<lambda>_.
     sbind (expect (st_get_account_count T)) (\<lambda>n.
       assert_that (n = ams_count m))))"

definition check_withdrawal_checkpoint ::
  "('s, 'x) state_ops_scheme \<Rightarrow> hasher \<Rightarrow> h256 list \<Rightarrow> nat \<Rightarrow> ('s, apply_block_stop, unit) sm" where
  "check_withdrawal_checkpoint T b2b checkpoints wth_idx =
     sbind (expect (calculate_state_checkpoint T b2b)) (\<lambda>expected_checkpoint.
     if wth_idx < length checkpoints
     then assert_that (checkpoints ! wth_idx = expected_checkpoint)
     else fail (AbError (BaBlock (CheckpointNotFound wth_idx))))"

fun apply_block_withdrawals ::
  "('s, 'x) finalise_ops_scheme \<Rightarrow> externs \<Rightarrow> generator \<Rightarrow> registry_address \<Rightarrow> raw_l2block \<Rightarrow> nat \<Rightarrow>
     withdrawal_request_extra list \<Rightarrow> ('s, apply_block_stop, account_merkle_state list) sm" where
  "apply_block_withdrawals T E G producer raw_block wth_idx [] = ret []"
| "apply_block_withdrawals T E G producer raw_block wth_idx (request # requests) =
     sbind (map_err (AbChallenge (build_challenge_target (raw_l2block_hash E raw_block) Withdrawal
              (of_nat wth_idx))) (check_withdrawal_signature T (blake2b E) G request)) (\<lambda>_.
     sbind (map_err (\<lambda>e. AbError (BaGenerator e))
              (apply_withdrawal_request T E (gn_rollup_context G) producer (we_request request))) (\<lambda>receipt.
     sbind (if enforce_correctness_of_state_checkpoint_list (rx_fork_config (gn_rollup_context G))
                 (rb_number raw_block)
            then check_withdrawal_checkpoint T (blake2b E) (rb_state_checkpoint_list raw_block) wth_idx
            else ret ()) (\<lambda>_.
     sbind (apply_block_withdrawals T E G producer raw_block (wth_idx + 1) requests) (\<lambda>receipts.
       ret (receipt # receipts)))))"

definition apply_block_deposits ::
  "('s, 'x) code_state_ops_scheme \<Rightarrow> externs \<Rightarrow> generator \<Rightarrow> deposit_request list \<Rightarrow>
     ('s, apply_block_stop, unit) sm" where
  "apply_block_deposits T E G requests =
     sfor requests (\<lambda>req. map_err (\<lambda>e. AbError (BaGenerator e))
       (apply_deposit_request T E (gn_rollup_context G) req))"

text \<open>\<open>err.downcast()\<close> of an execution error.\<close>

fun execution_stop :: "challenge_target \<Rightarrow> any_error \<Rightarrow> apply_block_stop" where
  "execution_stop target (AnyTransaction e) = AbChallenge target (GTransaction e)"
| "execution_stop target (AnyState e) = AbError (BaState e)"

definition check_tx_checkpoint ::
  "('s, 'x) state_ops_scheme \<Rightarrow> hasher \<Rightarrow> challenge_target \<Rightarrow> h256 list \<Rightarrow> nat \<Rightarrow>
     ('s, apply_block_stop, unit) sm" where
  "check_tx_checkpoint T b2b target checkpoints checkpoint_index =
     sbind (expect (calculate_state_checkpoint T b2b)) (\<lambda>expected_checkpoint.
     if checkpoint_index < length checkpoints then
       let block_checkpoint = checkpoints ! checkpoint_index in
       if block_checkpoint \<noteq> expected_checkpoint
       then fail (AbChallenge target
              (GBlock (InvalidCheckpoint expected_checkpoint block_checkpoint checkpoint_index)))
       else ret ()
     else fail (AbError (BaBlock (CheckpointNotFound checkpoint_index))))"

fun apply_block_transactions ::
  "('s state_db, 'x) finalise_ops_scheme \<Rightarrow> hash_iter \<Rightarrow> 's state_db vm \<Rightarrow> tx_readers \<Rightarrow> externs \<Rightarrow> generator \<Rightarrow>
     raw_l2block \<Rightarrow> bool \<Rightarrow> nat \<Rightarrow> nat \<Rightarrow> l2transaction list \<Rightarrow>
     ('s state_db, apply_block_stop, (tx_receipt \<times> u64) list) sm" where
  "apply_block_transactions T it vm R E G raw_block skip n_withdrawals tx_index [] = ret []"
| "apply_block_transactions T it vm R E G raw_block skip n_withdrawals tx_index (tx # txs) = (
     let b2b = blake2b E; raw_tx = tx_raw tx;
         f = rx_fork_config (gn_rollup_context G);
         block_hash = raw_l2block_hash E raw_block;
         target = build_challenge_target block_hash TxExecution (of_nat tx_index) in
     sbind (map_err (\<lambda>e. AbChallenge (build_challenge_target block_hash TxSignature (of_nat tx_index))
              (transaction_validate_error_into e)) (check_transaction_signature T b2b G tx)) (\<lambda>_.
     sbind (map_err (\<lambda>e. AbError (BaState e)) (get_nonce T (rtx_from_id raw_tx))) (\<lambda>expected_nonce.
     if rtx_nonce raw_tx \<noteq> expected_nonce
     then fail (AbChallenge target (GTransaction (TxNonce (rtx_from_id raw_tx) expected_nonce (rtx_nonce raw_tx))))
     else
     sbind (map_err (execution_stop target) (with_no_pool (execute_transaction T it vm R b2b G
              (get_block_info raw_block) raw_tx (Some (max_l2_tx_cycles f (rb_number raw_block)))))) (\<lambda>result.
     sbind (map_err (\<lambda>e. AbError (BaState e)) (jd_finalise T)) (\<lambda>_.
     sbind (if \<not> skip \<and> enforce_correctness_of_state_checkpoint_list f (rb_number raw_block)
            then check_tx_checkpoint T b2b target (rb_state_checkpoint_list raw_block) (n_withdrawals + tx_index)
            else ret ()) (\<lambda>_.
     sbind (map_err (\<lambda>e. AbError (BaGenerator e)) (calculate_merkle_state T)) (\<lambda>post_state.
     let receipt = build_receipt (l2transaction_witness_hash E tx) result post_state in
     sbind (apply_block_transactions T it vm R E G raw_block skip n_withdrawals (tx_index + 1) txs) (\<lambda>rest.
       ret ((receipt, cm_execution (rr_cycles result)) # rest)))))))))"

definition verify_and_apply_block ::
  "('s state_db, 'x) finalise_ops_scheme \<Rightarrow> hash_iter \<Rightarrow> 's state_db vm \<Rightarrow> tx_readers \<Rightarrow> externs \<Rightarrow> generator \<Rightarrow>
     apply_block_args \<Rightarrow> h256 set \<Rightarrow> ('s state_db, apply_block_stop, apply_block_success) sm" where
  "verify_and_apply_block T it vm R E G args skipped_invalid_block_list = (
     let l2block = ab_l2block args; raw_block = lb_raw l2block;
         skip = raw_l2block_hash E raw_block \<in> skipped_invalid_block_list in
     sbind (assert_that (length (lb_withdrawals l2block) = length (ab_withdrawals args))) (\<lambda>_.
     sbind (if skip then ret () else assert_merkle_state T (rb_prev_account raw_block)) (\<lambda>_.
     sbind (lift_o (ok_or (AbError (BaBlock BlockProducerNotExists))
              (from_slice (bi_block_producer (get_block_info raw_block))))) (\<lambda>producer.
     sbind (apply_block_withdrawals T E G producer raw_block 0 (ab_withdrawals args)) (\<lambda>withdrawal_receipts.
     sbind (apply_block_deposits T E G (ab_deposit_requests args)) (\<lambda>_.
     sbind (map_err (\<lambda>e. AbError (BaState e)) (jd_finalise T)) (\<lambda>_.
     sbind (map_err (\<lambda>e. AbError (BaGenerator e)) (calculate_merkle_state T)) (\<lambda>prev_txs_state.
     sbind (apply_block_transactions T it vm R E G raw_block skip (length withdrawal_receipts) 0
              (lb_transactions l2block)) (\<lambda>txs.
     sbind (if skip then ret () else assert_merkle_state T (rb_post_account raw_block)) (\<lambda>_.
       ret \<lparr> as_withdrawal_receipts = withdrawal_receipts, as_prev_txs_state = prev_txs_state,
             as_tx_receipts = map fst txs,
             as_offchain_used_cycles = foldl saturating_add 0 (map snd txs) \<rparr>))))))))))"

end
