(* ===== verification/Gw_Exec_Facts.thy ===== *)
theory Gw_Exec_Facts
  imports Gw_Execute
begin

text \<open>
  What executing a transaction does to the state of a block. The machine is a parameter; what
  the lemmas use of it is that it reaches the state only through the operations of the
  database (\<open>vm_uses_ops\<close>): reads, writes under content hashes, logs, snapshots, and reverts to
  snapshots it took itself.
\<close>

section \<open>The machine reaches the state through its operations\<close>

definition vm_uses_ops ::
  "('s, 'x) code_state_ops_scheme \<Rightarrow> (h256 \<Rightarrow> script) \<Rightarrow> (h256 \<Rightarrow> bytes) \<Rightarrow> 's state_db vm \<Rightarrow> bool" where
  "vm_uses_ops T scr dat vm \<longleftrightarrow> (\<forall>info consensus raw_tx max_cycles backend pool db. \<exists>ops.
     (\<forall>n < sd_next_revision_id db. list_all (op_ok scr dat n) ops) \<and>
     vo_state (vm info consensus raw_tx max_cycles backend pool db) = run_ops T ops db)"

lemma machine_run_state:
  "machine_run vm verbose info consensus raw_tx max_cycles backend (db, pool) = (r, (db', pool')) \<Longrightarrow>
     db' = vo_state (vm info consensus raw_tx max_cycles backend pool db)"
  by (auto simp: machine_run_def Let_def split: option.splits prod.splits if_splits vm_result.splits)

lemma vm_since:
  assumes "vm_uses_ops T scr dat vm" and "reads_pure T" and "since db0 db" and "content_addressed scr dat db"
    and "sd_next_revision_id db0 < sd_next_revision_id db"
    and "machine_run vm verbose info consensus raw_tx max_cycles backend (db, pool) = (r, (db', pool'))"
  shows "since db0 db'"
  using assms(1) run_ops_since [OF assms(2-4)] machine_run_state [OF assms(6)] assms(5)
  unfolding vm_uses_ops_def by metis

section \<open>Programs that keep a predicate\<close>

definition keeps :: "('s \<Rightarrow> bool) \<Rightarrow> ('s, 'e, 'a) sm \<Rightarrow> bool" where
  "keeps P m \<longleftrightarrow> (\<forall>s. P s \<longrightarrow> P (snd (m s)))"

named_theorems keeps_intros \<open>closure of preservation under the state monad\<close>

lemma keepsD: "keeps P m \<Longrightarrow> P s \<Longrightarrow> m s = (r, s') \<Longrightarrow> P s'"
  by (force simp: keeps_def)

lemma keeps_sim: "simulates P view m m' \<Longrightarrow> keeps P m"
  unfolding keeps_def by (metis simulatesD prod.collapse)

lemma keeps_prim [keeps_intros]:
  "keeps P (ret x)" "keeps P (fail e)" "keeps P panic" "keeps P (lift_o r)"
  by (simp_all add: keeps_def)

lemma keeps_sbind [keeps_intros]: "keeps P m \<Longrightarrow> (\<And>x. keeps P (f x)) \<Longrightarrow> keeps P (sbind m f)"
  by (fastforce simp: keeps_def sbind_run split: prod.splits outcome.splits)

lemma keeps_map_err [keeps_intros]: "keeps P m \<Longrightarrow> keeps P (map_err g m)"
  by (auto simp: keeps_def map_err_def split: prod.splits)

lemma keeps_if [keeps_intros]:
  "(b \<Longrightarrow> keeps P m) \<Longrightarrow> (\<not> b \<Longrightarrow> keeps P n) \<Longrightarrow> keeps P (if b then m else n)"
  by simp

lemma keeps_let [keeps_intros]: "(\<And>x. keeps P (f x)) \<Longrightarrow> keeps P (Let t f)"
  by (simp add: Let_def)

lemma keeps_case [keeps_intros]:
  "keeps P n \<Longrightarrow> (\<And>x. keeps P (f x)) \<Longrightarrow> keeps P (case x1 of None \<Rightarrow> n | Some x \<Rightarrow> f x)"
  "(\<And>x y. keeps P (g x y)) \<Longrightarrow> keeps P (case p of (x, y) \<Rightarrow> g x y)"
  by (auto split: option.split prod.split)

lemma keeps_sfor [keeps_intros]: "(\<And>x. keeps P (f x)) \<Longrightarrow> keeps P (sfor xs f)"
  by (induction xs) (auto intro!: keeps_intros)

section \<open>Reads of the database only touch the tracker\<close>

lemma block_journal_sdb:
  "st_get_raw (block_journal_ops S K sc it) = sdb_get_raw (history_ops S (tx_history_ops K sc))"
  "cs_get_script (block_journal_ops S K sc it) = sdb_get_script (history_ops S (tx_history_ops K sc))"
  by (simp_all add: block_journal_ops_def sdb_journal_ops_def)

lemma tracker_only:
  assumes "snd (m db) = db\<lparr> sd_state_tracker := t \<rparr>" and "m db = (r, db')"
  shows "db' = db\<lparr> sd_state_tracker := t \<rparr>"
  using assms by simp

lemma get_raw_tracker:
  "st_get_raw (block_journal_ops S K sc it) k db = (r, db') \<Longrightarrow> \<exists>t. db' = db\<lparr> sd_state_tracker := t \<rparr>"
  using read_ops_frame(1) [OF history_ops_reads_pure, of S "tx_history_ops K sc" k db]
  by (auto simp: block_journal_sdb)

lemma get_script_tracker:
  "cs_get_script (block_journal_ops S K sc it) k db = (r, db') \<Longrightarrow> \<exists>t. db' = db\<lparr> sd_state_tracker := t \<rparr>"
  using read_ops_frame(3) [OF history_ops_reads_pure, of S "tx_history_ops K sc" k db]
  by (auto simp: block_journal_sdb)

lemma reads_tracker:
  "get_script_hash (block_journal_ops S K sc it) i db = (r1, db') \<Longrightarrow> \<exists>t. db' = db\<lparr> sd_state_tracker := t \<rparr>"
  "get_nonce (block_journal_ops S K sc it) i db = (r2, db') \<Longrightarrow> \<exists>t. db' = db\<lparr> sd_state_tracker := t \<rparr>"
  "load_backend_and_block_consensus (block_journal_ops S K sc it) G n h db = (r3, db') \<Longrightarrow>
     \<exists>t. db' = db\<lparr> sd_state_tracker := t \<rparr>"
  using get_raw_tracker get_script_tracker
  by (auto simp: get_script_hash_def get_nonce_def load_backend_and_block_consensus_def sbind_run
      split: prod.splits outcome.splits) blast+

text \<open>Neither the tracker nor the revisions are part of what is read.\<close>

lemma view_bookkeeping [simp]:
  "block_state_view sem absf sc (db\<lparr> sd_state_tracker := t \<rparr>) = block_state_view sem absf sc db"
  "block_state_view sem absf sc (db\<lparr> sd_next_revision_id := n \<rparr>) = block_state_view sem absf sc db"
  "block_state_view sem absf sc (append_log l db) = block_state_view sem absf sc db"
  "block_state_good tgood absf good sc (db\<lparr> sd_state_tracker := t \<rparr>) = block_state_good tgood absf good sc db"
  "block_state_good tgood absf good sc (db\<lparr> sd_next_revision_id := n \<rparr>) = block_state_good tgood absf good sc db"
  "block_state_good tgood absf good sc (append_log l db) = block_state_good tgood absf good sc db"
  by (simp_all add: block_state_view_def sdb_view_def block_state_good_def append_log_def
      journal_push_def Let_def cong: option.case_cong)


section \<open>Charging a failed transaction\<close>

text \<open>The fee of a failed transaction, as a function of the log it left.\<close>

definition failed_fee_value ::
  "tx_readers \<Rightarrow> log_item option \<Rightarrow> raw_l2transaction \<Rightarrow> typed_raw_transaction \<Rightarrow>
     (any_error, u256 option) outcome" where
  "failed_fee_value R last_log raw_tx typed_tx = (
     case typed_tx of
       TyEthAddrReg tx \<Rightarrow> Ok (eth_addr_reg_consumed R tx)
     | TyMeta tx \<Rightarrow> Ok (meta_consumed R tx)
     | TySimpleUDT tx \<Rightarrow> Ok (simple_udt_consumed R tx)
     | TyPolyjuice tx \<Rightarrow>
         obind (failed_system_log last_log raw_tx) (\<lambda>system_log.
         obind (ok_or (AnyTransaction TxNoCost) (poly_from_raw_l2_tx tx)) (\<lambda>parser.
         obind (read_polyjuice_gas_used system_log) (\<lambda>g.
           Ok (checked_mul (ucast (case g of Some gas_used \<Rightarrow> gas_used | None \<Rightarrow> poly_gas parser))
                 (ucast (poly_gas_price parser)))))))"

text \<open>The same charge on the map the state represents.\<close>

definition charge_view ::
  "((h256 \<Rightarrow> h256) \<Rightarrow> h256) \<Rightarrow> tx_readers \<Rightarrow> hasher \<Rightarrow> generator \<Rightarrow> u32 \<Rightarrow> block_info \<Rightarrow>
     raw_l2transaction \<Rightarrow> 8 word \<Rightarrow> log_item option \<Rightarrow> (view, any_error, unit) sm" where
  "charge_view root R b2b G nonce_before info raw_tx exit_code last_log = (
     let sender_id = rtx_from_id raw_tx; T = view_ops root in
     sbind (map_err AnyState (get_script_hash T sender_id)) (\<lambda>sh.
     sbind (map_err AnyState (get_registry_address_by_script_hash T b2b ETH_REGISTRY_ACCOUNT_ID sh)) (\<lambda>a.
     sbind (lift_o (ok_or (AnyTransaction TxScriptHashNotFound) a)) (\<lambda>payer.
     let block_producer = (case from_slice (bi_block_producer info) of
           Some p \<Rightarrow> p | None \<Rightarrow> \<lparr> ra_registry_id = 0, ra_address = [] \<rparr>) in
     sbind (get_tx_type T (gn_rollup_context G) raw_tx) (\<lambda>tx_type.
     sbind (lift_o (ok_or (AnyTransaction (TxUnknownTxType exit_code)) (typed_from_tx raw_tx tx_type))) (\<lambda>typed_tx.
     sbind (lift_o (failed_fee_value R last_log raw_tx typed_tx)) (\<lambda>fee.
     sbind (lift_o (ok_or (AnyTransaction TxNoCost) fee)) (\<lambda>tx_fee.
     sbind (map_err (\<lambda>_. AnyTransaction TxInsufficientBalance)
              (pay_fee T b2b payer block_producer CKB_SUDT_ACCOUNT_ID tx_fee)) (\<lambda>_.
     sbind (raise_total_supply T b2b tx_fee) (\<lambda>_.
     sbind (lift_o (ok_or (AnyTransaction TxNonceOverflow) (checked_add nonce_before 1))) (\<lambda>nonce.
       map_err AnyState (set_nonce T sender_id nonce))))))))))))"

lemma sim_failed_tx_fee [sim_intros]:
  "simulates (block_state_good tgood absf good sc) (block_state_view sem absf sc)
     (failed_tx_fee R l raw_tx typed_tx) (lift_o (failed_fee_value R l raw_tx typed_tx))"
  by (cases typed_tx)
    (auto simp: simulates_def failed_tx_fee_def failed_fee_value_def sbind_run lift_o_def Let_def
      split: outcome.splits option.splits elim!: obind.elims)

context block_journal
begin

lemma sim_raise_total_supply [sim_intros]:
  "simulates (block_state_good tgood absf good sc) (block_state_view sem absf sc)
     (raise_total_supply (block_journal_ops S K sc it) b2b n) (raise_total_supply (view_ops root) b2b n)"
  unfolding raise_total_supply_def by (intro sim_intros)

lemma sim_charge:
  "simulates (block_state_good tgood absf good sc) (block_state_view sem absf sc)
     (charge_failed_transaction (block_journal_ops S K sc it) R b2b G nb info raw_tx e l)
     (charge_view root R b2b G nb info raw_tx e l)"
  unfolding charge_failed_transaction_def charge_view_def Let_def by (intro sim_intros)

end

lemma raise_total_supply_view:
  assumes "\<And>k. vw_has v k"
  shows "raise_total_supply (view_ops root) b2b n v = (
    if tot_supply b2b CKB_SUDT_ACCOUNT_ID v + unat n < 2 ^ 256
    then (Ok (), set_key (sup_key b2b CKB_SUDT_ACCOUNT_ID) (vw_map v (sup_key b2b CKB_SUDT_ACCOUNT_ID) + n) v)
    else (Err (AnyTransaction TxInsufficientBalance), v))"
  using assms
  by (simp add: raise_total_supply_def Let_def sbind_run map_err_def view_ops_run ok_or_def
      checked_add_def tot_supply_def lift_o_def fail_def h256_ext_eqs
      flip: sup_key_def)

definition producer_of :: "block_info \<Rightarrow> registry_address" where
  "producer_of info = (case from_slice (bi_block_producer info) of
     Some p \<Rightarrow> p | None \<Rightarrow> \<lparr> ra_registry_id = 0, ra_address = [] \<rparr>)"

lemma charge_view_effect:
  assumes S: "state_ok b2b A H v" and id: "rtx_from_id raw_tx < vw_count v"
    and q: "producer_of info \<in> A"
    and run: "charge_view root R b2b G nb info raw_tx e l v = (Ok u, v')"
  shows "\<exists>a\<in>A. \<exists>fee w. vw_map v (reg_addr_key b2b (vw_map v (script_field (rtx_from_id raw_tx)))) = reg_value a \<and>
    pay_fee (view_ops root) b2b a (producer_of info) CKB_SUDT_ACCOUNT_ID fee v = (Ok (), w) \<and>
    tot_supply b2b CKB_SUDT_ACCOUNT_ID w + unat fee < 2 ^ 256 \<and> unat nb + 1 < 2 ^ 32 \<and>
    v' = set_key (nonce_field (rtx_from_id raw_tx)) (from_u32 (nb + 1))
      (set_key (sup_key b2b CKB_SUDT_ACCOUNT_ID) (vw_map w (sup_key b2b CKB_SUDT_ACCOUNT_ID) + fee) w)"
proof -
  let ?h = "vw_map v (script_field (rtx_from_id raw_tx))"
  have has: "vw_has v k" for k using state_okD(2) [OF S] by simp
  have h: "?h \<in> H" using state_okD(3) [OF S] id by (simp add: accounts_ok_def)
  have sh: "get_script_hash (view_ops root) (rtx_from_id raw_tx) v = (Ok ?h, v)"
    by (rule get_script_hash_view [OF has])
  obtain a w1 where ra: "get_registry_address_by_script_hash (view_ops root) b2b ETH_REGISTRY_ACCOUNT_ID ?h v =
      (Ok (Some a), w1)"
    using run sh by (auto simp: charge_view_def Let_def sbind_Ok_iff)
  from S h ra have A: "w1 = v" "a \<in> A" "vw_map v (reg_addr_key b2b ?h) = reg_value a"
    by (cases rule: registry_address_known; auto)+
  obtain t where ty: "get_tx_type (view_ops root) (gn_rollup_context G) raw_tx v = (Ok t, v)"
    using state_okD(2) [OF S]
  proof (cases rule: get_tx_type_view [where root = root and ctx = "gn_rollup_context G" and raw = raw_tx])
    case (err e)
    then show thesis using run sh ra A(1) by (auto simp: charge_view_def Let_def sbind_Ok_iff)
  qed (use that in blast)
  obtain fee w where f: "pay_fee (view_ops root) b2b a (producer_of info) CKB_SUDT_ACCOUNT_ID fee v = (Ok (), w)"
    and rest: "sbind (raise_total_supply (view_ops root) b2b fee) (\<lambda>_.
      sbind (lift_o (ok_or (AnyTransaction TxNonceOverflow) (checked_add nb 1))) (\<lambda>nonce.
       map_err AnyState (set_nonce (view_ops root) (rtx_from_id raw_tx) nonce))) w = (Ok u, v')"
    using run sh ra A(1) ty by (auto simp: charge_view_def Let_def sbind_Ok_iff producer_of_def [symmetric])
  have w: "vw_has w k" for k using state_okD(2) [OF pay_fee_view(1) [OF S A(2) q f]] by simp
  have "tot_supply b2b CKB_SUDT_ACCOUNT_ID w + unat fee < 2 ^ 256" "unat nb + 1 < 2 ^ 32"
    "v' = set_key (nonce_field (rtx_from_id raw_tx)) (from_u32 (nb + 1))
      (set_key (sup_key b2b CKB_SUDT_ACCOUNT_ID) (vw_map w (sup_key b2b CKB_SUDT_ACCOUNT_ID) + fee) w)"
    using rest w
    by (auto simp: raise_total_supply_view sbind_Ok_iff set_nonce_view checked_add_Some_iff
        split: if_splits)
  then show ?thesis using A f by blast
qed

lemma failed_charge_moved:
  assumes S: "state_ok b2b A H v" and "a \<in> A" and "q \<in> A"
    and f: "pay_fee (view_ops root) b2b a q CKB_SUDT_ACCOUNT_ID fee v = (Ok (), w)"
    and sup: "tot_supply b2b CKB_SUDT_ACCOUNT_ID w + unat fee < 2 ^ 256"
    and v': "v' = set_key (nonce_field i) x
      (set_key (sup_key b2b CKB_SUDT_ACCOUNT_ID) (vw_map w (sup_key b2b CKB_SUDT_ACCOUNT_ID) + fee) w)"
  shows "moved b2b A (credit CKB_SUDT_ACCOUNT_ID q (unat fee)) (credit CKB_SUDT_ACCOUNT_ID a (unat fee)) v v'"
    and "tot_supply b2b CKB_SUDT_ACCOUNT_ID v' = tot_supply b2b CKB_SUDT_ACCOUNT_ID v + unat fee"
    and "holdings b2b CKB_SUDT_ACCOUNT_ID A v' = tot_supply b2b CKB_SUDT_ACCOUNT_ID v"
    and "vw_count v' = vw_count v"
proof -
  note nc = state_okD(1) [OF S] and F = pay_fee_view [OF S assms(2,3) f]
  have bal: "vw_map v' (bal_key b2b j c) = vw_map w (bal_key b2b j c)" if "c \<in> A" for j c
    using keys_differ(2,5) [OF nc that] by (simp add: v')
  have mv: "moved b2b A (credit CKB_SUDT_ACCOUNT_ID q (unat fee)) (credit CKB_SUDT_ACCOUNT_ID a (unat fee)) v w"
    using F(4) by simp
  then show "moved b2b A (credit CKB_SUDT_ACCOUNT_ID q (unat fee)) (credit CKB_SUDT_ACCOUNT_ID a (unat fee)) v v'"
    by (simp add: moved_def bal)
  have w: "tot_supply b2b CKB_SUDT_ACCOUNT_ID w = tot_supply b2b CKB_SUDT_ACCOUNT_ID v"
    using moved_supply [OF S F(1) mv, of CKB_SUDT_ACCOUNT_ID]
    by (simp add: sum_credit [OF state_okD(6) [OF S]] assms(2,3))
  then show "tot_supply b2b CKB_SUDT_ACCOUNT_ID v' = tot_supply b2b CKB_SUDT_ACCOUNT_ID v + unat fee"
    using sup keys_differ(10) [OF nc] by (simp add: tot_supply_def v' unat_word_ariths)
  have "holdings b2b CKB_SUDT_ACCOUNT_ID A v' = holdings b2b CKB_SUDT_ACCOUNT_ID A w"
    by (simp add: holdings_def bal)
  then show "holdings b2b CKB_SUDT_ACCOUNT_ID A v' = tot_supply b2b CKB_SUDT_ACCOUNT_ID v"
    using F(1) w by (simp add: state_ok_def)
  show "vw_count v' = vw_count v" using token_frameD(8) [OF F(2)] by (simp add: v')
qed

section \<open>A failed transaction\<close>

lemma machine_reverts:
  assumes vm: "vm_uses_ops (history_ops S D) scr dat vm" and wf: "revisions_wf db"
    and ca: "content_addressed scr dat db" and snap: "snapshot db = (n, db1)"
    and m: "machine_run vm verbose info consensus raw_tx max_cycles backend
      (db1\<lparr> sd_state_tracker := t \<rparr>, pool) = (r, (db2, pool'))"
  shows "revert n db2 = (Ok (), db\<lparr> sd_next_revision_id := sd_next_revision_id db2,
      sd_state_tracker := sd_state_tracker db2 \<rparr>)"
proof -
  let ?db1 = "db1\<lparr> sd_state_tracker := t \<rparr>"
  have d: "db1 = snd (snapshot db)" "n = sd_next_revision_id db"
    using snap by (auto simp: snapshot_def Let_def)
  have "since db db1" using since_snapshot [OF wf] by (simp add: d)
  then have "since db ?db1" by (rule since_same) (simp_all add: core_def)
  moreover have "content_addressed scr dat ?db1"
    using ca by (simp add: d(1) snapshot_def Let_def content_addressed_def)
  moreover have "sd_next_revision_id db < sd_next_revision_id ?db1"
    by (simp add: d(1) snapshot_def Let_def)
  ultimately have "since db db2" by (rule vm_since [OF vm history_ops_reads_pure _ _ _ m])
  then show ?thesis using since_revert_exact d(2) by blast
qed

lemma on_state_db_run: "on_state_db m (db, p) = (case m db of (r, db') \<Rightarrow> (r, (db', p)))"
  by (simp add: on_state_db_def)

lemma on_state_db_Ok_iff:
  "on_state_db m (db, p) = (Ok x, s') \<longleftrightarrow> (\<exists>db'. m db = (Ok x, db') \<and> s' = (db', p))"
  by (auto simp: on_state_db_def split: prod.splits)

lemma run_or_revert_Ok_iff:
  "run_or_revert n m s = (Ok x, s') \<longleftrightarrow> m s = (Ok x, s')"
  by (auto simp: run_or_revert_def split: prod.splits outcome.splits)

lemma collect_result_Ok:
  "collect_result it f n ctx db = (Ok rr, db') \<Longrightarrow>
     db' = db\<lparr> sd_state_tracker := None \<rparr> \<and> rr_exit_code rr = rn_exit_code ctx"
  by (auto simp: collect_result_def sbind_Ok_iff take_state_tracker_def)

text \<open>The run of a transaction up to the machine, and what is left of it.\<close>

lemma execute_transaction_Ok:
  assumes run: "execute_transaction (block_journal_ops S K sc it) it vm R b2b G info raw_tx oc (db, pool) =
      (Ok rr, (db', pool'))"
  obtains t n db1 nb t' db2 pool2 ctx verbose consensus mc backend db3 where
    "snapshot (db\<lparr> sd_state_tracker := t \<rparr>) = (n, db1)"
    "get_nonce (block_journal_ops S K sc it) (rtx_from_id raw_tx) db1 = (Ok nb, db1\<lparr> sd_state_tracker := t' \<rparr>)"
    "machine_run vm verbose info consensus raw_tx mc backend
       (db1\<lparr> sd_state_tracker := Some tracker_default \<rparr>, pool) = (Ok ctx, (db2, pool2))"
    "settle_run (block_journal_ops S K sc it) R b2b G n nb info raw_tx ctx db2 = (Ok (), db3)"
    "db' = db3\<lparr> sd_state_tracker := None \<rparr>" "rr_exit_code rr = rn_exit_code ctx"
proof -
  let ?T = "block_journal_ops S K sc it"
  obtain sh dba x dbb where r1: "get_script_hash ?T (rtx_to_id raw_tx) db = (Ok sh, dba)"
    and r2: "load_backend_and_block_consensus ?T G (bi_number info) sh dba = (Ok (Some x), dbb)"
    and rest: "execute_loaded ?T it vm R b2b G info raw_tx oc x (dbb, pool) = (Ok rr, (db', pool'))"
    using run by (auto simp: execute_transaction_def sbind_Ok_iff on_state_db_Ok_iff)
  obtain t where t: "dbb = db\<lparr> sd_state_tracker := t \<rparr>"
    using reads_tracker(1) [OF r1] reads_tracker(3) [OF r2] by auto
  obtain n db1 nb dbc db2 pool2 ctx db3 mc where
    r: "snapshot dbb = (n, db1)" "get_nonce ?T (rtx_from_id raw_tx) db1 = (Ok nb, dbc)"
    "machine_run vm (gn_verbose_log G) info (snd x) raw_tx mc (fst x)
       (set_state_tracker tracker_default dbc, pool) = (Ok ctx, (db2, pool2))"
    "settle_run ?T R b2b G n nb info raw_tx ctx db2 = (Ok (), db3)"
    "collect_result it (rx_fork_config (gn_rollup_context G)) (bi_number info) ctx db3 = (Ok rr, db')"
    using rest unfolding execute_loaded_def Let_def
    by (auto simp: sbind_Ok_iff on_state_db_Ok_iff run_or_revert_Ok_iff split: prod.splits)
  obtain t' where t': "dbc = db1\<lparr> sd_state_tracker := t' \<rparr>" using reads_tracker(2) [OF r(2)] by auto
  show thesis
    using that [of t n db1 nb t'] r(1) [unfolded t] r(2) [unfolded t'] r(3) [unfolded t' set_state_tracker_def]
      r(4) collect_result_Ok [OF r(5)] by simp
qed


lemma handle_failed_reverts:
  assumes "revert n db2 = (Ok (), db0)"
  shows "\<exists>l. handle_failed_transaction T R b2b G n nb info raw_tx e db2 =
    charge_failed_transaction T R b2b G nb info raw_tx e l db0"
  using assms by (auto simp: handle_failed_transaction_def sbind_run map_err_def Let_def)

lemma snapshot_view [simp]:
  assumes "snapshot db = (n, db1)"
  shows "block_state_view sem absf sc db1 = block_state_view sem absf sc db"
    and "block_state_good tgood absf good sc db1 = block_state_good tgood absf good sc db"
  using assms
  by (auto simp: snapshot_def Let_def block_state_view_def sdb_view_def block_state_good_def
      cong: option.case_cong)

context block_journal
begin

lemma execute_failed_view:
  assumes vm: "vm_uses_ops (history_ops S (tx_history_ops K sc)) scr dat vm" and wf: "revisions_wf db"
    and ca: "content_addressed scr dat db" and g: "block_state_good tgood absf good sc db"
    and run: "execute_transaction (block_journal_ops S K sc it) it vm R b2b G info raw_tx oc (db, pool) =
      (Ok rr, (db', pool'))" and e: "rr_exit_code rr \<noteq> 0"
  shows "\<exists>l nb. get_nonce (view_ops root) (rtx_from_id raw_tx) (block_state_view sem absf sc db) =
      (Ok nb, block_state_view sem absf sc db) \<and>
    charge_view root R b2b G nb info raw_tx (rr_exit_code rr) l (block_state_view sem absf sc db) =
      (Ok (), block_state_view sem absf sc db')"
proof -
  let ?T = "block_journal_ops S K sc it" and ?v = "block_state_view sem absf sc"
  from run obtain t n db1 nb t' db2 pool2 ctx verbose consensus mc backend db3 where
    r: "snapshot (db\<lparr> sd_state_tracker := t \<rparr>) = (n, db1)"
    "get_nonce ?T (rtx_from_id raw_tx) db1 = (Ok nb, db1\<lparr> sd_state_tracker := t' \<rparr>)"
    "machine_run vm verbose info consensus raw_tx mc backend
       (db1\<lparr> sd_state_tracker := Some tracker_default \<rparr>, pool) = (Ok ctx, (db2, pool2))"
    "settle_run ?T R b2b G n nb info raw_tx ctx db2 = (Ok (), db3)"
    "db' = db3\<lparr> sd_state_tracker := None \<rparr>" "rr_exit_code rr = rn_exit_code ctx"
    by (rule execute_transaction_Ok)
  have g1: "block_state_good tgood absf good sc db1" and v1: "?v db1 = ?v db"
    using snapshot_view [OF r(1)] g by simp_all
  have nb: "get_nonce (view_ops root) (rtx_from_id raw_tx) (?v db) = (Ok nb, ?v db)"
    using simulatesD [OF bj.sim_get_nonce g1 r(2)] by (simp add: v1)
  let ?db0 = "db\<lparr> sd_state_tracker := sd_state_tracker db2, sd_next_revision_id := sd_next_revision_id db2 \<rparr>"
  have "revert n db2 = (Ok (), ?db0)"
    using machine_reverts [OF vm _ _ r(1,3)] wf ca
    by (simp add: revisions_wf_def content_addressed_def)
  then obtain l where "charge_failed_transaction ?T R b2b G nb info raw_tx (rr_exit_code rr) l ?db0 = (Ok (), db3)"
    using handle_failed_reverts [of n db2 ?db0 ?T R b2b G nb info raw_tx "rr_exit_code rr"] r(4,6) e
    by (auto simp: settle_run_def is_success_def)
  from simulatesD [OF sim_charge _ this] g
  have "charge_view root R b2b G nb info raw_tx (rr_exit_code rr) l (?v db) = (Ok (), ?v db')"
    by (simp add: r(5))
  with nb show ?thesis by blast
qed

end

lemma pay_fee_frame:
  assumes S: "state_ok b2b A H v" and p: "p \<in> A" and q: "q \<in> A"
    and run: "pay_fee (view_ops root) b2b p q i n v = (r, v')"
  shows "k \<notin> {bal_key b2b i p, bal_key b2b i q, sup_key b2b i} \<Longrightarrow> vw_map v' k = vw_map v k"
    and "vw_scripts v' = vw_scripts v" and "vw_data v' = vw_data v"
proof -
  have fits: "ra_fits c" if "c \<in> A" for c using state_okD(7) [OF S that] .
  have ne: "bal_key b2b i c \<noteq> sup_key b2b i" if "c \<in> A" for c using keys_differ(2) [OF state_okD(1) [OF S] that] .
  have has: "vw_has v k" for k using state_okD(2) [OF S] by simp
  have "(k \<notin> {bal_key b2b i p, bal_key b2b i q, sup_key b2b i} \<longrightarrow> vw_map v' k = vw_map v k) \<and>
      vw_scripts v' = vw_scripts v \<and> vw_data v' = vw_data v"
    using run has
    by (auto simp: pay_fee_def sbind_run map_err_def burn_sudt_view [OF fits [OF p] _ _ ne [OF p]]
        mint_sudt_view [OF fits [OF q] _ _ ne [OF q]] split: option.splits)
  then show "k \<notin> {bal_key b2b i p, bal_key b2b i q, sup_key b2b i} \<Longrightarrow> vw_map v' k = vw_map v k"
    "vw_scripts v' = vw_scripts v" "vw_data v' = vw_data v" by auto
qed

text \<open>
  C17. A transaction whose program exits with an error costs its sender the fee and nothing else.
  Whatever the program wrote is rolled back: afterwards the state differs from the state before
  in the sender's nonce, which is one higher, the CKB balance of the sender's registered address
  and of the block producer, between which the fee moved, and the recorded total supply of CKB.
  The supply is raised by the fee although no token was created: it then exceeds the holdings by
  the fee.
\<close>

theorem failed_transaction_only_pays_fee:
  assumes "smt_contract S sem tgood root" and "tx_store K absf good sc" and "hash_iter_ok it"
    and "block_state_good tgood absf good sc db"
    and "vm_uses_ops (history_ops S (tx_history_ops K sc)) scr dat vm"
    and "revisions_wf db" and "content_addressed scr dat db"
    and S: "state_ok b2b A H (block_state_view sem absf sc db)"
    and "rtx_from_id raw_tx < vw_count (block_state_view sem absf sc db)" and "producer_of info \<in> A"
    and "execute_transaction (block_journal_ops S K sc it) it vm R b2b G info raw_tx oc (db, pool) =
      (Ok rr, (db', pool'))" and "rr_exit_code rr \<noteq> 0"
  shows "let v = block_state_view sem absf sc db; v' = block_state_view sem absf sc db';
      i = rtx_from_id raw_tx; q = producer_of info; ckb = CKB_SUDT_ACCOUNT_ID in
    \<exists>a\<in>A. \<exists>fee. vw_map v (reg_addr_key b2b (vw_map v (script_field i))) = reg_value a \<and>
      moved b2b A (credit ckb q fee) (credit ckb a fee) v v' \<and>
      unat (to_u32 (vw_map v' (nonce_field i))) = unat (to_u32 (vw_map v (nonce_field i))) + 1 \<and>
      (\<forall>k. k \<notin> {bal_key b2b ckb a, bal_key b2b ckb q, sup_key b2b ckb, nonce_field i} \<longrightarrow>
         vw_map v' k = vw_map v k) \<and>
      vw_count v' = vw_count v \<and> vw_scripts v' = vw_scripts v \<and> vw_data v' = vw_data v \<and>
      holdings b2b ckb A v' = tot_supply b2b ckb v \<and>
      tot_supply b2b ckb v' = tot_supply b2b ckb v + fee"
proof -
  let ?v = "block_state_view sem absf sc db" and ?v' = "block_state_view sem absf sc db'"
    and ?i = "rtx_from_id raw_tx" and ?c = CKB_SUDT_ACCOUNT_ID
  have has: "vw_has ?v k" for k using state_okD(2) [OF S] by simp
  obtain l nb where nb: "get_nonce (view_ops root) ?i ?v = (Ok nb, ?v)"
    and c: "charge_view root R b2b G nb info raw_tx (rr_exit_code rr) l ?v = (Ok (), ?v')"
    using block_journal.execute_failed_view [OF block_journalI [OF assms(1-3)] assms(5-7,4,11,12)] by blast
  obtain a fee w where a: "a \<in> A" "vw_map ?v (reg_addr_key b2b (vw_map ?v (script_field ?i))) = reg_value a"
    and f: "pay_fee (view_ops root) b2b a (producer_of info) ?c fee ?v = (Ok (), w)"
    and n: "tot_supply b2b ?c w + unat fee < 2 ^ 256" "unat nb + 1 < 2 ^ 32"
    and v': "?v' = set_key (nonce_field ?i) (from_u32 (nb + 1))
      (set_key (sup_key b2b ?c) (vw_map w (sup_key b2b ?c) + fee) w)"
    using charge_view_effect [OF S assms(9,10) c] by blast
  note M = failed_charge_moved [OF S a(1) assms(10) f n(1) v'] and P = pay_fee_frame [OF S a(1) assms(10) f]
  have "nb = to_u32 (vw_map ?v (nonce_field ?i))" using nb has by (simp add: get_nonce_view)
  moreover have "to_u32 (vw_map ?v' (nonce_field ?i)) = nb + 1" by (simp add: v')
  ultimately have "unat (to_u32 (vw_map ?v' (nonce_field ?i))) = unat (to_u32 (vw_map ?v (nonce_field ?i))) + 1"
    using n(2) by (simp add: unat_word_ariths)
  moreover have "vw_map ?v' k = vw_map ?v k"
    if "k \<notin> {bal_key b2b ?c a, bal_key b2b ?c (producer_of info), sup_key b2b ?c, nonce_field ?i}" for k
    using P(1) that by (simp add: v')
  moreover have "vw_scripts ?v' = vw_scripts ?v" "vw_data ?v' = vw_data ?v"
    using P(2,3) by (simp_all add: v')
  ultimately show ?thesis unfolding Let_def using a M by blast
qed


section \<open>A machine that does not come back\<close>

definition backend_at :: "generator \<Rightarrow> u64 \<Rightarrow> view \<Rightarrow> u32 \<Rightarrow> (backend \<times> block_consensus) option" where
  "backend_at G n v i = Option.bind (vw_scripts v (vw_map v (script_field i))) (\<lambda>script.
     if sc_hash_type script = script_hash_type_to_byte Type then
       Option.bind (get_block_consensus_at_height n (gn_backend_manage G))
         (\<lambda>(_, consensus). map_option (\<lambda>backend. (backend, consensus))
            (fmlookup (bc_backends consensus) (sc_code_hash script)))
     else None)"

definition machine_input :: "'s state_db \<Rightarrow> 's state_db" where
  "machine_input db = (snd (snapshot db))\<lparr> sd_state_tracker := Some tracker_default \<rparr>"

lemma machine_input_reverts:
  assumes "vm_uses_ops (history_ops S D) scr dat vm" and "revisions_wf db" and "content_addressed scr dat db"
    and m: "machine_run vm verbose info consensus raw_tx mc backend (machine_input db, pool) = (r, (db2, pool2))"
  shows "revert (sd_next_revision_id db) db2 = (Ok (), db\<lparr> sd_next_revision_id := sd_next_revision_id db2,
      sd_state_tracker := sd_state_tracker db2 \<rparr>)"
  by (rule machine_reverts [OF assms(1-3), of _ "snd (snapshot db)"])
    (use m in \<open>simp_all add: machine_input_def snapshot_def Let_def\<close>)

definition cycles_for :: "generator \<Rightarrow> block_info \<Rightarrow> u64 option \<Rightarrow> u64" where
  "cycles_for G info oc = (case oc of Some c \<Rightarrow> c
     | None \<Rightarrow> max_l2_tx_cycles (rx_fork_config (gn_rollup_context G)) (bi_number info))"

lemma view_serves_all [simp]: "vw_has (block_state_view sem absf sc db) k"
  by (simp add: block_state_view_def sdb_view_def)

context block_journal
begin

lemma read_run:
  assumes g: "block_state_good tgood absf good sc db"
  shows "\<exists>t. get_script_hash (block_journal_ops S K sc it) i db =
      (Ok (vw_map (block_state_view sem absf sc db) (script_field i)), db\<lparr> sd_state_tracker := t \<rparr>)"
    and "\<exists>t. get_nonce (block_journal_ops S K sc it) i db =
      (Ok (to_u32 (vw_map (block_state_view sem absf sc db) (nonce_field i))), db\<lparr> sd_state_tracker := t \<rparr>)"
    and "\<exists>t. cs_get_script (block_journal_ops S K sc it) h db =
      (Ok (vw_scripts (block_state_view sem absf sc db) h), db\<lparr> sd_state_tracker := t \<rparr>)"
proof -
  let ?T = "block_journal_ops S K sc it" and ?v = "block_state_view sem absf sc db"
  obtain r1 d1 r2 d2 r3 d3 where r: "get_script_hash ?T i db = (r1, d1)" "get_nonce ?T i db = (r2, d2)"
    "cs_get_script ?T h db = (r3, d3)" by (meson surj_pair)
  have "r1 = Ok (vw_map ?v (script_field i))"
    using simulatesD [OF bj.sim_get_script_hash g r(1)] by (auto simp: get_script_hash_view)
  moreover have "r2 = Ok (to_u32 (vw_map ?v (nonce_field i)))"
    using simulatesD [OF bj.sim_get_nonce g r(2)] by (auto simp: get_nonce_view)
  moreover have "r3 = Ok (vw_scripts ?v h)"
    using simulatesD [OF bj.sim_get_script g r(3)] by (auto simp: view_ops_run)
  ultimately show "\<exists>t. get_script_hash ?T i db = (Ok (vw_map ?v (script_field i)), db\<lparr> sd_state_tracker := t \<rparr>)"
    "\<exists>t. get_nonce ?T i db = (Ok (to_u32 (vw_map ?v (nonce_field i))), db\<lparr> sd_state_tracker := t \<rparr>)"
    "\<exists>t. cs_get_script ?T h db = (Ok (vw_scripts ?v h), db\<lparr> sd_state_tracker := t \<rparr>)"
    using r reads_tracker(1) [OF r(1)] reads_tracker(2) [OF r(2)] get_script_tracker [OF r(3)] by auto
qed

lemma execute_transaction_start:
  assumes g: "block_state_good tgood absf good sc db"
  shows "\<exists>t. execute_transaction (block_journal_ops S K sc it) it vm R b2b G info raw_tx oc (db, pool) = (
    let v = block_state_view sem absf sc db in
    case backend_at G (bi_number info) v (rtx_to_id raw_tx) of
      None \<Rightarrow> (Err (AnyTransaction (TxBackendNotFound (vw_map v (script_field (rtx_to_id raw_tx))))),
        (db\<lparr> sd_state_tracker := t \<rparr>, pool))
    | Some x \<Rightarrow> sbind (run_or_revert (sd_next_revision_id db) (machine_run vm (gn_verbose_log G) info (snd x) raw_tx
          (cycles_for G info oc) (fst x))) (\<lambda>ctx.
        sbind (on_state_db (settle_run (block_journal_ops S K sc it) R b2b G (sd_next_revision_id db)
          (to_u32 (vw_map v (nonce_field (rtx_from_id raw_tx)))) info raw_tx ctx)) (\<lambda>_.
        on_state_db (collect_result it (rx_fork_config (gn_rollup_context G)) (bi_number info) ctx)))
          (machine_input db, pool))"
proof -
  let ?T = "block_journal_ops S K sc it" and ?v = "block_state_view sem absf sc db"
  let ?sh = "vw_map ?v (script_field (rtx_to_id raw_tx))"
  obtain t1 where r1: "get_script_hash ?T (rtx_to_id raw_tx) db = (Ok ?sh, db\<lparr> sd_state_tracker := t1 \<rparr>)"
    using read_run(1) [OF g] by blast
  obtain t2 where "cs_get_script ?T ?sh (db\<lparr> sd_state_tracker := t1 \<rparr>) =
      (Ok (vw_scripts ?v ?sh), db\<lparr> sd_state_tracker := t2 \<rparr>)"
    using read_run(3) [of "db\<lparr> sd_state_tracker := t1 \<rparr>"] g by auto
  then have r2: "load_backend_and_block_consensus ?T G (bi_number info) ?sh (db\<lparr> sd_state_tracker := t1 \<rparr>) =
      (Ok (backend_at G (bi_number info) ?v (rtx_to_id raw_tx)), db\<lparr> sd_state_tracker := t2 \<rparr>)"
    by (simp add: load_backend_and_block_consensus_def sbind_run backend_at_def)
  obtain db1 where db1: "snapshot (db\<lparr> sd_state_tracker := t2 \<rparr>) = (sd_next_revision_id db, db1)"
    "set_state_tracker tracker_default (db1\<lparr> sd_state_tracker := t \<rparr>) = machine_input db" for t
    by (simp add: snapshot_def Let_def machine_input_def set_state_tracker_def)
  have "block_state_good tgood absf good sc db1" "block_state_view sem absf sc db1 = ?v"
    using snapshot_view [OF db1(1)] g by simp_all
  then obtain t3 where r3: "get_nonce ?T (rtx_from_id raw_tx) db1 =
      (Ok (to_u32 (vw_map ?v (nonce_field (rtx_from_id raw_tx)))), db1\<lparr> sd_state_tracker := t3 \<rparr>)"
    using read_run(2) [of db1] by metis
  show ?thesis
    unfolding execute_transaction_def execute_loaded_def Let_def cycles_for_def [symmetric]
    by (rule exI [of _ t2], cases "backend_at G (bi_number info) ?v (rtx_to_id raw_tx)")
      (simp_all add: sbind_run on_state_db_run map_err_def r1 r2 r3 db1)
qed

end

text \<open>
  C18. When the machine itself fails (the program does not load, the machine reports an error, or
  the cycles pool is exhausted), \<open>execute_transaction\<close> returns that error, does not panic in the
  revert, and leaves the database as it was before the call: every field but the read tracker
  and the counter of snapshot identifiers, so that the transaction can be dropped and the block
  continued.
\<close>

theorem machine_error_restores:
  assumes "smt_contract S sem tgood root" and "tx_store K absf good sc" and "hash_iter_ok it"
    and g: "block_state_good tgood absf good sc db"
    and vm: "vm_uses_ops (history_ops S (tx_history_ops K sc)) scr dat vm"
    and wf: "revisions_wf db" and ca: "content_addressed scr dat db"
    and x: "backend_at G (bi_number info) (block_state_view sem absf sc db) (rtx_to_id raw_tx) = Some (backend, consensus)"
    and m: "machine_run vm (gn_verbose_log G) info consensus raw_tx (cycles_for G info oc) backend
      (machine_input db, pool) = (Err e, (db2, pool2))"
  shows "execute_transaction (block_journal_ops S K sc it) it vm R b2b G info raw_tx oc (db, pool) =
    (Err (AnyTransaction e), (db\<lparr> sd_state_tracker := sd_state_tracker db2,
      sd_next_revision_id := sd_next_revision_id db2 \<rparr>, pool2))"
proof -
  have "revert (sd_next_revision_id db) db2 = (Ok (), db\<lparr> sd_next_revision_id := sd_next_revision_id db2,
      sd_state_tracker := sd_state_tracker db2 \<rparr>)"
    by (rule machine_input_reverts [OF vm wf ca m])
  then show ?thesis
    using block_journal.execute_transaction_start [OF block_journalI [OF assms(1-3)] g,
        of vm R b2b G info raw_tx oc pool]
    by (simp add: Let_def x m sbind_run run_or_revert_def on_state_db_def)
qed


section \<open>A failing program on the sample rollup\<close>

text \<open>The sample rollup, written through: the state a block starts its transactions from.\<close>

definition sample_committed :: "(h256 \<Rightarrow> h256, fkv) history_state state_db" where
  "sample_committed = snd (finalise (history_ops (map_tree_ops (\<lambda>m. m 1)) (tx_history_ops fkv_ops plain_script))
     \<lparr> it_state = rev, it_scripts = rev, it_data = rev \<rparr> sample_rollup)"

lemma sample_committed:
  shows "sample_good sample_committed" and "sample_view sample_committed = sample_view sample_rollup"
    and "\<not> is_dirty sample_committed"
  using fbs.block_finalise [OF sample_rollup_state(1) fbj.it, of "\<lambda>m. m 1"]
  by (auto simp: sample_committed_def)

lemma clean_wf: "\<not> is_dirty db \<Longrightarrow> revisions_wf db \<and> content_addressed scr dat db"
  by (simp add: is_dirty_def revisions_wf_def content_addressed_def)

text \<open>A machine that writes one key and then ends as told.\<close>

definition sample_vm ::
  "string option \<Rightarrow> 8 word \<Rightarrow> (h256 \<Rightarrow> h256, fkv) history_state state_db vm" where
  "sample_vm load_error code = (\<lambda>info consensus raw_tx max_cycles backend pool db. \<lparr>
     vo_load_error = load_error, vo_result = VmExit code, vo_execution_cycles = 5,
     vo_context = \<lparr> rn_cycle_meter = \<lparr> cm_execution = 0, cm_virtual = 0 \<rparr>, rn_return_data = [],
       rn_exit_code = 0, rn_debug_log_buf = [] \<rparr>,
     vo_pool = pool, vo_state = snd (sdb_update_raw 5 6 db) \<rparr>)"

lemma sample_vm_uses_ops: "vm_uses_ops T scr dat (sample_vm load_error code)"
  unfolding vm_uses_ops_def sample_vm_def
  by (intro allI exI [of _ "[OpUpdateRaw 5 6]"]) (simp add: run_ops_def)

definition sample_backend :: backend where
  "sample_backend = \<lparr> be_validator = [], be_generator = [], be_validator_script_type_hash = 7,
     be_backend_type = BeSudt, be_checksum = (0, 0) \<rparr>"

definition sample_consensus :: block_consensus where
  "sample_consensus = \<lparr> bc_sudt_proxy = \<lparr> sp_permit_sudt_transfer_from_dangerous_contract = False,
     sp_address_list = [] \<rparr>, bc_backends = fmupd 7 sample_backend fmempty \<rparr>"

definition sample_generator :: generator where
  "sample_generator = \<lparr> gn_backend_manage = \<lparr> bm_backend_forks = [(0, sample_consensus)] \<rparr>,
     gn_account_lock_manage = fmempty, gn_rollup_context = sample_context, gn_verbose_log = False \<rparr>"

definition sample_info :: block_info where
  "sample_info = \<lparr> bi_block_producer = ra_encoding sample_address, bi_number = 1, bi_timestamp = 1 \<rparr>"

lemma sample_backend_at:
  "backend_at sample_generator (bi_number sample_info) (sample_view sample_rollup) (rtx_to_id (tx_raw sample_tx)) =
     Some (sample_backend, sample_consensus)"
  using sample_rollup_state(10,12)
  by (simp add: backend_at_def sample_tx_def build_l2_sudt_script_def sample_generator_def
      get_block_consensus_at_height_def sample_info_def sample_consensus_def sample_context_def sample_config_def)

theorem machine_error_restores_witness:
  "\<exists>t n pool. execute_transaction (sample_ops (\<lambda>m. m 1)) \<lparr> it_state = rev, it_scripts = rev, it_data = rev \<rparr>
      (sample_vm (Some ''bad elf'') 0) (ve_readers sample_verify_externs) tag_hash sample_generator sample_info
      (tx_raw sample_tx) None (sample_committed, None) =
    (Err (AnyTransaction (TxVM ''bad elf'')),
      (sample_committed\<lparr> sd_state_tracker := t, sd_next_revision_id := n \<rparr>, pool))"
proof -
  have x: "backend_at sample_generator (bi_number sample_info) (sample_view sample_committed)
      (rtx_to_id (tx_raw sample_tx)) = Some (sample_backend, sample_consensus)"
    by (simp add: sample_committed sample_backend_at)
  have "machine_run (sample_vm (Some ''bad elf'') 0) (gn_verbose_log sample_generator) sample_info sample_consensus
      (tx_raw sample_tx) (cycles_for sample_generator sample_info None) sample_backend (machine_input sample_committed, None) =
      (Err (TxVM ''bad elf''), (snd (sdb_update_raw 5 6 (machine_input sample_committed)), None))"
    by (simp add: machine_run_def sample_vm_def Let_def)
  from machine_error_restores [OF mtree.smt_contract_axioms ftx.tx_store_axioms fbj.it sample_committed(1)
      sample_vm_uses_ops conjunct1 [OF clean_wf [OF sample_committed(3)]]
      conjunct2 [OF clean_wf [OF sample_committed(3)]] x this,
      of "\<lambda>m. m 1" "ve_readers sample_verify_externs" tag_hash]
  show ?thesis by blast
qed

lemma sample_charge:
  "\<exists>v'. charge_view root (ve_readers sample_verify_externs) tag_hash sample_generator 0 sample_info
     (tx_raw sample_tx) e l (sample_view sample_rollup) = (Ok (), v')"
proof -
  let ?v = "sample_view sample_rollup"
  note S = sample_rollup_state
  have fits: "ra_fits sample_address" using state_okD(7) [OF S(2)] by simp
  have p: "from_slice (bi_block_producer sample_info) = Some sample_address"
    using from_slice_encoding [OF fits, of "[]"] by (simp add: sample_info_def)
  obtain r w where f: "pay_fee (view_ops root) tag_hash sample_address sample_address CKB_SUDT_ACCOUNT_ID 3 ?v = (r, w)"
    by fastforce
  note F = pay_fee_view [OF S(2) _ _ f, simplified]
  have r: "r = Ok ()" using F(3) S(6) by (simp add: word_le_nat_alt)
  have w: "vw_has w k" for k using state_okD(2) [OF F(1)] by simp
  have "tot_supply tag_hash CKB_SUDT_ACCOUNT_ID ?v = 500 * 10 ^ 10"
    using S(2,6) by (simp add: state_ok_def holdings_def)
  moreover have "tot_supply tag_hash CKB_SUDT_ACCOUNT_ID w = tot_supply tag_hash CKB_SUDT_ACCOUNT_ID ?v"
    using moved_supply [OF S(2) F(1) F(4) [OF r], of CKB_SUDT_ACCOUNT_ID] by (simp add: credit_def)
  ultimately have room: "tot_supply tag_hash CKB_SUDT_ACCOUNT_ID w + 3 < 2 ^ 256" by simp
  have "get_tx_type (view_ops root) (gn_rollup_context sample_generator) (tx_raw sample_tx) ?v = (Ok ContractSudt, ?v)"
    using sample_tx_type by (simp add: sample_generator_def)
  then show ?thesis
    using S(5,9) f r p room w
    by (simp add: charge_view_def Let_def sbind_run map_err_def get_script_hash_view
        get_registry_address_by_script_hash_view sample_tx_def failed_fee_value_def simple_udt_consumed_def
        sample_verify_externs_def raise_total_supply_view checked_add_def set_nonce_view)
qed


text \<open>Charging reads and writes keys but no data: the tracker it runs under stays free of data.\<close>

definition tracks_no_data :: "'s state_db \<Rightarrow> bool" where
  "tracks_no_data db \<longleftrightarrow> (case sd_state_tracker db of None \<Rightarrow> False
     | Some t \<Rightarrow> tk_write_data t = fmempty \<and> tk_read_data t = fmempty)"

lemma keeps_tracks_raw [keeps_intros]:
  "keeps tracks_no_data (st_get_raw (block_journal_ops S K sc it) k)"
  "keeps tracks_no_data (st_update_raw (block_journal_ops S K sc it) k x)"
  "keeps tracks_no_data (cs_get_script (block_journal_ops S K sc it) h)"
  by (auto simp: keeps_def tracks_no_data_def block_journal_ops_def sdb_journal_ops_def sdb_get_raw_def
      sdb_update_raw_def sdb_get_script_def on_inner_def tracker_touch_def touch_key_def journal_push_def
      Let_def split: option.splits prod.splits)

lemma keeps_tracks_log [keeps_intros]: "keeps tracks_no_data (modify (append_log l))"
  by (simp add: keeps_def tracks_no_data_def append_log_def journal_push_def Let_def)

lemma keeps_tracks_charge:
  "keeps tracks_no_data (charge_failed_transaction (block_journal_ops S K sc it) R b2b G nb info raw_tx e l)"
proof -
  have [keeps_intros]: "keeps tracks_no_data (failed_tx_fee R l raw_tx t)" for t
    by (cases t) (auto simp: failed_tx_fee_def intro!: keeps_intros)
  show ?thesis
    unfolding charge_failed_transaction_def get_script_hash_def get_registry_address_by_script_hash_def
      get_tx_type_def pay_fee_def burn_sudt_def mint_sudt_def raise_total_supply_def set_nonce_def get_value_def
    by (intro keeps_intros)
qed

lemma sample_failed_run:
  "\<exists>rr db' pool'. execute_transaction (sample_ops (\<lambda>m. m 1)) \<lparr> it_state = rev, it_scripts = rev, it_data = rev \<rparr>
      (sample_vm None 3) (ve_readers sample_verify_externs) tag_hash sample_generator sample_info
      (tx_raw sample_tx) None (sample_committed, None) = (Ok rr, (db', pool')) \<and> rr_exit_code rr = 3"
proof -
  let ?it = "\<lparr> it_state = rev, it_scripts = rev, it_data = rev \<rparr>" and ?db = sample_committed
    and ?T = "sample_ops (\<lambda>m. m 1)" and ?vm = "sample_vm None 3" and ?raw = "tx_raw sample_tx"
    and ?R = "ve_readers sample_verify_externs" and ?G = sample_generator
  let ?db2 = "snd (sdb_update_raw 5 6 (machine_input ?db))"
    and ?n = "sd_next_revision_id ?db"
  note C = sample_committed and S = sample_rollup_state
  define ctx where "ctx = \<lparr> rn_cycle_meter = \<lparr> cm_execution = 5, cm_virtual = 0 \<rparr>, rn_return_data = [],
      rn_exit_code = (3 :: 8 word), rn_debug_log_buf = [] \<rparr>"
  have ctx: "rn_exit_code ctx = 3" and m: "\<And>c b mc. machine_run ?vm (gn_verbose_log ?G) sample_info c
      ?raw mc b (machine_input ?db, None) = (Ok ctx, (?db2, None))"
    by (simp_all add: ctx_def machine_run_def sample_vm_def Let_def sample_generator_def utf8_valid.simps)
  have rv: "revert ?n ?db2 = (Ok (), ?db\<lparr> sd_next_revision_id := sd_next_revision_id ?db2,
      sd_state_tracker := sd_state_tracker ?db2 \<rparr>)" (is "_ = (_, ?back)")
    using clean_wf [OF C(3)] by (intro machine_input_reverts [OF sample_vm_uses_ops _ _ m]) simp_all
  obtain l where h: "handle_failed_transaction ?T ?R tag_hash ?G ?n 0 sample_info ?raw 3 ?db2 =
      charge_failed_transaction ?T ?R tag_hash ?G 0 sample_info ?raw 3 l ?back"
    using handle_failed_reverts [OF rv] by blast
  obtain v' where "charge_view (\<lambda>m. m 1) ?R tag_hash ?G 0 sample_info ?raw 3 l (sample_view ?back) = (Ok (), v')"
    using sample_charge [of "\<lambda>m. m 1" 3 l] by (auto simp: C(2))
  from sample_run [OF fbj.sim_charge _ this] C(1) obtain db3 where
    ch: "charge_failed_transaction ?T ?R tag_hash ?G 0 sample_info ?raw 3 l ?back = (Ok (), db3)" by auto
  have "tracks_no_data ?back"
    by (simp add: tracks_no_data_def machine_input_def sdb_update_raw_def tracker_touch_def touch_key_def
        journal_push_def tracker_default_def Let_def)
  from keepsD [OF keeps_tracks_charge this ch] obtain t where
    t: "sd_state_tracker db3 = Some t" "tk_write_data t = fmempty" "tk_read_data t = fmempty"
    by (auto simp: tracks_no_data_def split: option.splits)
  have st: "settle_run ?T ?R tag_hash ?G ?n 0 sample_info ?raw ctx ?db2 = (Ok (), db3)"
    using ctx h ch by (simp add: settle_run_def is_success_def)
  have x: "backend_at ?G (bi_number sample_info) (sample_view ?db) (rtx_to_id ?raw) = Some (sample_backend, sample_consensus)"
    by (simp add: C(2) sample_backend_at)
  have n0: "to_u32 (vw_map (sample_view ?db) (nonce_field (rtx_from_id ?raw))) = 0"
    using S(7) by (simp add: C(2) sample_tx_def to_u32_0)
  have "fm_rows (fmempty :: (h256, bytes) fmap) = []"
    using fm_rows_map_of [of "fmempty :: (h256, bytes) fmap"] by (simp add: fun_eq_iff)
      (metis map_of_eq_empty_iff ext)
  then have "\<exists>rr db'. collect_result ?it f n ctx db3 = (Ok rr, db') \<and> rr_exit_code rr = 3" for f n
    using t ctx by (simp add: collect_result_def sbind_run take_state_tracker_def check_data_limits_def Let_def)
  then obtain rr db' where c: "collect_result ?it (rx_fork_config (gn_rollup_context ?G)) (bi_number sample_info) ctx db3 =
      (Ok rr, db')" "rr_exit_code rr = 3" by blast
  have "execute_transaction ?T ?it ?vm ?R tag_hash ?G sample_info ?raw None (?db, None) = (Ok rr, (db', None))"
    using fbj.execute_transaction_start [OF C(1), of "\<lambda>m. m 1" ?vm ?R tag_hash ?G sample_info ?raw None None]
    unfolding Let_def x n0 option.case fst_conv snd_conv
    by (simp add: sbind_run run_or_revert_def m on_state_db_run st c(1))
  then show ?thesis using c(2) by blast
qed


theorem failed_transaction_only_pays_fee_witness:
  "\<exists>rr db' pool'. execute_transaction (sample_ops (\<lambda>m. m 1)) \<lparr> it_state = rev, it_scripts = rev, it_data = rev \<rparr>
      (sample_vm None 3) (ve_readers sample_verify_externs) tag_hash sample_generator sample_info
      (tx_raw sample_tx) None (sample_committed, None) = (Ok rr, (db', pool')) \<and>
    holdings tag_hash CKB_SUDT_ACCOUNT_ID sample_A (sample_view db') = 500 * 10 ^ 10"
proof -
  obtain rr db' pool' where run: "execute_transaction (sample_ops (\<lambda>m. m 1))
      \<lparr> it_state = rev, it_scripts = rev, it_data = rev \<rparr> (sample_vm None 3) (ve_readers sample_verify_externs)
      tag_hash sample_generator sample_info (tx_raw sample_tx) None (sample_committed, None) = (Ok rr, (db', pool'))"
    and e: "rr_exit_code rr \<noteq> 0"
    using sample_failed_run by fastforce
  note C = sample_committed and S = sample_rollup_state
  have S': "state_ok tag_hash sample_A sample_H (sample_view sample_committed)" using S(2) by (simp add: C(2))
  have "ra_fits sample_address" using state_okD(7) [OF S'] by simp
  then have q: "producer_of sample_info \<in> sample_A"
    using from_slice_encoding [of sample_address "[]"] by (simp add: producer_of_def sample_info_def)
  have i: "rtx_from_id (tx_raw sample_tx) < vw_count (sample_view sample_committed)"
    using S(8) by (simp add: C(2) sample_tx_def)
  have "tot_supply tag_hash CKB_SUDT_ACCOUNT_ID (sample_view sample_committed) = 500 * 10 ^ 10"
    using S(2,6) by (simp add: C(2) state_ok_def holdings_def)
  then show ?thesis
    using failed_transaction_only_pays_fee [OF mtree.smt_contract_axioms ftx.tx_store_axioms fbj.it C(1)
        sample_vm_uses_ops conjunct1 [OF clean_wf [OF C(3)]] conjunct2 [OF clean_wf [OF C(3)]] S' i q run e] run
    by (auto simp: Let_def)
qed

end
