(* ===== verification/Gw_Ckb.thy ===== *)
theory Gw_Ckb
  imports Gw_Types
begin

text \<open>
  The transaction an on-chain script runs in, and the packed data its cells and witnesses hold
  (\<open>schemas/godwoken.mol\<close>).

  A script sees the transaction through the system calls of ckb-std. The model takes the
  transaction as a value: for each source the list of its cells, the \<open>since\<close> of the inputs and
  the witnesses; a load returns the item of that index, or \<open>IndexOutOfBound\<close> past the end. The
  molecule readers, the hash of cell data and the decoding of \<open>since\<close> are parameters
  (\<open>ckb_std\<close>). The \<open>debug!\<close> output of the scripts is left out.
\<close>

section \<open>Errors\<close>

datatype contract_error =
    XIndexOutOfBound | XItemMissing | XLengthNotEnough | XEncoding | XInvalidArgs | XInvalidSince
  | XInvalidOutput | XOwnerCellNotFound | XRollupCellNotFound | XRollupConfigNotFound
  | XProofNotFound | XAccountNotFound | XMerkleProof | XAmountOverflow | XInsufficientAmount
  | XInsufficientInputFinalizedAssets | XInsufficientOutputFinalizedAssets | XSMTKeyMissing
  | XInvalidStateCheckpoint | XInvalidBlock | XInvalidStatus | XInvalidStakeCellUnlock
  | XInvalidPostGlobalState | XInvalidChallengeCell | XInvalidStakeCell | XInvalidDepositCell
  | XInvalidWithdrawalCell | XInvalidCustodianCell | XInvalidRevertedBlocks
  | XInvalidChallengeReward | XInvalidSUDTCell | XInvalidChallengeTarget
  | XInvalidWithdrawalRequest | XUnknownEOAScript | XUnknownContractScript | XScriptNotFound
  | XAccountLockCellNotFound | XAccountScriptCellNotFound | XInvalidTypeID | XUnexpectedTxNonce
  | XWrongSignature | XDuplicatedScriptHash | XRegistryAddressNotFound
  | XDuplicatedRegistryAddress | XNotFinalized

fun of_common_error :: "common_error \<Rightarrow> contract_error" where
  "of_common_error (SMT _) = XSMTKeyMissing"
| "of_common_error Store = XSMTKeyMissing"
| "of_common_error MissingKey = XSMTKeyMissing"
| "of_common_error MerkleProof = XMerkleProof"
| "of_common_error AmountOverflow = XAmountOverflow"
| "of_common_error DuplicatedScriptHash = XDuplicatedScriptHash"
| "of_common_error InvalidArgs = XInvalidArgs"
| "of_common_error UnknownEoaCodeHash = XUnknownEOAScript"
| "of_common_error DuplicatedRegistryAddress = XDuplicatedRegistryAddress"

type_synonym 'a checked = "(contract_error, 'a) outcome"

section \<open>The transaction\<close>

record cell =
  cl_capacity :: u64
  cl_lock :: script
  cl_type :: "script option"
  cl_data :: bytes

datatype cell_source = Inputs | Outputs | CellDeps | GroupInputs | GroupOutputs

datatype script_group = LockGroup | TypeGroup

record ckb_tx =
  tx_inputs :: "cell list"
  tx_sinces :: "u64 list"
  tx_outputs :: "cell list"
  tx_cell_deps :: "cell list"
  tx_witnesses :: "bytes list"
  tx_first_input :: bytes

record ckb_env =
  en_tx :: ckb_tx
  en_script :: script
  en_group :: script_group

record deposit_lock_args =
  dl_owner_lock_hash :: h256
  dl_layer2_lock :: script
  dl_cancel_timeout :: u64
  dl_registry_id :: u32

record custodian_lock_args =
  cu_deposit_block_hash :: h256
  cu_deposit_finalized_timepoint :: u64
  cu_deposit_lock_args :: deposit_lock_args

record stake_lock_args =
  sl_owner_lock_hash :: h256
  sl_stake_finalized_timepoint :: u64

record challenge_lock_args =
  ch_target :: challenge_target
  ch_rewards_receiver_lock :: script

record challenge_witness =
  cw_raw_l2block :: raw_l2block
  cw_block_proof :: bytes

record rollup_submit_block =
  rs_block :: l2block
  rs_reverted_block_hashes :: "h256 list"
  rs_reverted_block_proof :: bytes

record rollup_revert =
  rv_reverted_blocks :: "raw_l2block list"
  rv_block_proof :: bytes
  rv_reverted_block_proof :: bytes
  rv_new_tip_block :: raw_l2block

datatype rollup_action =
    RollupSubmitBlock rollup_submit_block
  | RollupEnterChallenge challenge_witness
  | RollupCancelChallenge
  | RollupRevert rollup_revert

datatype unlock_withdrawal_witness = UnlockWithdrawalViaFinalize | UnlockWithdrawalViaRevert h256

record witness_args =
  wa_lock :: "bytes option"
  wa_input_type :: "bytes option"
  wa_output_type :: "bytes option"

datatype lock_value = LockBlockNumber u64 | LockEpoch u64 | LockTimestamp u64

record ckb_std =
  ck_externs :: externs
  ck_data_hash :: "bytes \<Rightarrow> h256"
  ck_since_flags :: "u64 \<Rightarrow> u64"
  ck_is_absolute :: "u64 \<Rightarrow> bool"
  ck_lock_value :: "u64 \<Rightarrow> lock_value option"
  rd_script :: "bytes \<Rightarrow> script option"
  rd_deposit_lock_args :: "bytes \<Rightarrow> deposit_lock_args option"
  rd_withdrawal_lock_args :: "bytes \<Rightarrow> withdrawal_lock_args option"
  rd_custodian_lock_args :: "bytes \<Rightarrow> custodian_lock_args option"
  rd_stake_lock_args :: "bytes \<Rightarrow> stake_lock_args option"
  rd_challenge_lock_args :: "bytes \<Rightarrow> challenge_lock_args option"
  rd_rollup_config :: "bytes \<Rightarrow> rollup_config option"
  rd_global_state :: "bytes \<Rightarrow> global_state option"
  rd_global_state_v0 :: "bytes \<Rightarrow> global_state_v0 option"
  rd_witness_args :: "bytes \<Rightarrow> witness_args option"
  rd_rollup_action :: "bytes \<Rightarrow> rollup_action option"
  rd_unlock_withdrawal :: "bytes \<Rightarrow> unlock_withdrawal_witness option"
  rd_unlock_custodian :: "bytes \<Rightarrow> h256 option"

abbreviation hash_of :: "ckb_std \<Rightarrow> script \<Rightarrow> h256" where
  "hash_of B s \<equiv> script_hash (ck_externs B) s"

text \<open>The script group: the cells whose lock, or type, is the script that runs.\<close>

definition in_group :: "ckb_env \<Rightarrow> cell \<Rightarrow> bool" where
  "in_group e c = (case en_group e of
     LockGroup \<Rightarrow> cl_lock c = en_script e
   | TypeGroup \<Rightarrow> cl_type c = Some (en_script e))"

definition group_indices :: "ckb_env \<Rightarrow> cell list \<Rightarrow> nat list" where
  "group_indices e cs = map fst (filter (in_group e \<circ> snd) (enumerate 0 cs))"

fun cells_of :: "ckb_env \<Rightarrow> cell_source \<Rightarrow> cell list" where
  "cells_of e Inputs = tx_inputs (en_tx e)"
| "cells_of e Outputs = tx_outputs (en_tx e)"
| "cells_of e CellDeps = tx_cell_deps (en_tx e)"
| "cells_of e GroupInputs = filter (in_group e) (tx_inputs (en_tx e))"
| "cells_of e GroupOutputs = filter (in_group e) (tx_outputs (en_tx e))"

definition index_get :: "'a list \<Rightarrow> nat \<Rightarrow> 'a checked" where
  "index_get xs i = (if i < length xs then Ok (xs ! i) else Err XIndexOutOfBound)"

definition load_cell :: "ckb_env \<Rightarrow> nat \<Rightarrow> cell_source \<Rightarrow> cell checked" where
  "load_cell e i src = index_get (cells_of e src) i"

definition load_cell_capacity :: "ckb_env \<Rightarrow> nat \<Rightarrow> cell_source \<Rightarrow> u64 checked" where
  "load_cell_capacity e i src = obind (load_cell e i src) (\<lambda>c. Ok (cl_capacity c))"

definition load_cell_data :: "ckb_env \<Rightarrow> nat \<Rightarrow> cell_source \<Rightarrow> bytes checked" where
  "load_cell_data e i src = obind (load_cell e i src) (\<lambda>c. Ok (cl_data c))"

definition load_cell_lock :: "ckb_env \<Rightarrow> nat \<Rightarrow> cell_source \<Rightarrow> script checked" where
  "load_cell_lock e i src = obind (load_cell e i src) (\<lambda>c. Ok (cl_lock c))"

definition load_cell_lock_hash :: "ckb_std \<Rightarrow> ckb_env \<Rightarrow> nat \<Rightarrow> cell_source \<Rightarrow> h256 checked" where
  "load_cell_lock_hash B e i src = obind (load_cell e i src) (\<lambda>c. Ok (hash_of B (cl_lock c)))"

definition load_cell_type :: "ckb_env \<Rightarrow> nat \<Rightarrow> cell_source \<Rightarrow> script option checked" where
  "load_cell_type e i src = obind (load_cell e i src) (\<lambda>c. Ok (cl_type c))"

definition load_cell_type_hash :: "ckb_std \<Rightarrow> ckb_env \<Rightarrow> nat \<Rightarrow> cell_source \<Rightarrow> h256 option checked" where
  "load_cell_type_hash B e i src = obind (load_cell e i src) (\<lambda>c. Ok (map_option (hash_of B) (cl_type c)))"

fun load_input_since :: "ckb_env \<Rightarrow> nat \<Rightarrow> cell_source \<Rightarrow> u64 checked" where
  "load_input_since e i Inputs = index_get (tx_sinces (en_tx e)) i"
| "load_input_since e i GroupInputs =
     obind (index_get (group_indices e (tx_inputs (en_tx e))) i) (index_get (tx_sinces (en_tx e)))"
| "load_input_since e i _ = Err XIndexOutOfBound"

fun load_witness :: "ckb_env \<Rightarrow> nat \<Rightarrow> cell_source \<Rightarrow> bytes checked" where
  "load_witness e i GroupInputs =
     obind (index_get (group_indices e (tx_inputs (en_tx e))) i) (index_get (tx_witnesses (en_tx e)))"
| "load_witness e i GroupOutputs =
     obind (index_get (group_indices e (tx_outputs (en_tx e))) i) (index_get (tx_witnesses (en_tx e)))"
| "load_witness e i CellDeps = Err XIndexOutOfBound"
| "load_witness e i _ = index_get (tx_witnesses (en_tx e)) i"

definition load_witness_args :: "ckb_std \<Rightarrow> ckb_env \<Rightarrow> nat \<Rightarrow> cell_source \<Rightarrow> witness_args checked" where
  "load_witness_args B e i src =
     obind (load_witness e i src) (\<lambda>w. ok_or XEncoding (rd_witness_args B w))"

end
