(* ===== verification/Gw_Cells.thy ===== *)
theory Gw_Cells
  imports Gw_Ckb Gw_StateExt
begin

text \<open>
  What the on-chain scripts share (\<open>contracts/gw-utils\<close>): the forks, finality, the arguments of
  a withdrawal lock, the rollup cell and its action, the lock cells of a rollup, and the type id.
\<close>

section \<open>Forks and finality\<close>

definition fork_block_timestamp_lower_than_since :: "u8 \<Rightarrow> bool" where
  "fork_block_timestamp_lower_than_since v = (v = 1)"

definition fork_state_checkpoint_list :: "u8 \<Rightarrow> bool" where
  "fork_state_checkpoint_list v = (v \<le> 1)"

definition fork_block_timestamp_in_l1_backbone_range :: "u8 \<Rightarrow> bool" where
  "fork_block_timestamp_in_l1_backbone_range v = (v \<ge> 2)"

definition fork_timestamp_as_timepoint :: "u8 \<Rightarrow> bool" where
  "fork_timestamp_as_timepoint v = (v \<ge> 2)"

definition is_timestamp_finalized :: "global_state \<Rightarrow> u64 \<Rightarrow> bool" where
  "is_timestamp_finalized g timestamp = (case from_full_value (gs_last_finalized_timepoint g) of
     BlockNumber _ \<Rightarrow> False
   | Timestamp finalized \<Rightarrow> timestamp \<le> finalized)"

definition is_block_number_finalized :: "rollup_config \<Rightarrow> global_state \<Rightarrow> u64 \<Rightarrow> bool" where
  "is_block_number_finalized config g block_number = (
     let tip_number = saturating_sub (bms_count (gs_block g)) 1 in
     saturating_add block_number (rc_finality_blocks config) \<le> tip_number)"

fun is_finalized :: "rollup_config \<Rightarrow> global_state \<Rightarrow> timepoint \<Rightarrow> bool" where
  "is_finalized config g (BlockNumber n) = is_block_number_finalized config g n"
| "is_finalized config g (Timestamp t) = is_timestamp_finalized g t"

section \<open>Withdrawal lock arguments\<close>

record withdrawal_lock_args_with_owner_lock =
  wo_lock_args :: withdrawal_lock_args
  wo_owner_lock :: script

definition WITHDRAWAL_LOCK_ARGS_SIZE :: nat where "WITHDRAWAL_LOCK_ARGS_SIZE = 104"

definition parse_owner_lock ::
  "ckb_std \<Rightarrow> withdrawal_lock_args \<Rightarrow> nat \<Rightarrow> bytes \<Rightarrow> withdrawal_lock_args_with_owner_lock checked" where
  "parse_owner_lock B lock_args lock_args_end args = (
     let owner_lock_start = lock_args_end + 4 in
     if length args \<le> owner_lock_start then Err XInvalidArgs
     else
     let owner_lock_len = unat (from_be_bytes (byte_range lock_args_end owner_lock_start args) :: u32);
         owner_lock_end = owner_lock_start + owner_lock_len in
     if owner_lock_end \<noteq> length args then Err XInvalidArgs
     else
     obind (ok_or XInvalidArgs (rd_script B (byte_range owner_lock_start owner_lock_end args))) (\<lambda>owner_lock.
     if hash_of B owner_lock \<noteq> wl_owner_lock_hash lock_args then Err XInvalidArgs
     else Ok \<lparr> wo_lock_args = lock_args, wo_owner_lock = owner_lock \<rparr>))"

definition parse_lock_args ::
  "ckb_std \<Rightarrow> bytes \<Rightarrow> withdrawal_lock_args_with_owner_lock checked" where
  "parse_lock_args B args = (
     let lock_args_start = 32; lock_args_end = lock_args_start + WITHDRAWAL_LOCK_ARGS_SIZE in
     if length args < lock_args_end then Err XInvalidArgs
     else
     obind (ok_or XInvalidArgs (rd_withdrawal_lock_args B (byte_range lock_args_start lock_args_end args)))
       (\<lambda>lock_args. parse_owner_lock B lock_args lock_args_end args))"

section \<open>The rollup cell\<close>

definition MAX_ROLLUP_WITNESS_SIZE :: nat where "MAX_ROLLUP_WITNESS_SIZE = 2 ^ 19"

definition search_rollup_cell :: "ckb_std \<Rightarrow> ckb_env \<Rightarrow> h256 \<Rightarrow> cell_source \<Rightarrow> nat option" where
  "search_rollup_cell B e rollup_type_hash src =
     position (\<lambda>c. map_option (hash_of B) (cl_type c) = Some rollup_type_hash) (cells_of e src)"

definition search_rollup_config_cell :: "ckb_std \<Rightarrow> ckb_env \<Rightarrow> h256 \<Rightarrow> nat option" where
  "search_rollup_config_cell B e config_hash =
     position (\<lambda>c. ck_data_hash B (cl_data c) = config_hash) (cells_of e CellDeps)"

definition load_rollup_config :: "ckb_std \<Rightarrow> ckb_env \<Rightarrow> h256 \<Rightarrow> rollup_config checked" where
  "load_rollup_config B e config_hash =
     obind (ok_or XRollupConfigNotFound (search_rollup_config_cell B e config_hash)) (\<lambda>index.
     obind (load_cell_data e index CellDeps) (\<lambda>data.
     ok_or XEncoding (rd_rollup_config B data)))"

definition read_global_state :: "ckb_std \<Rightarrow> bytes \<Rightarrow> global_state checked" where
  "read_global_state B data = (case rd_global_state B data of
     Some g \<Rightarrow> Ok g
   | None \<Rightarrow> (case rd_global_state_v0 B data of
       Some g0 \<Rightarrow> Ok (global_state_of_v0 g0)
     | None \<Rightarrow> Err XEncoding))"

definition search_rollup_state ::
  "ckb_std \<Rightarrow> ckb_env \<Rightarrow> h256 \<Rightarrow> cell_source \<Rightarrow> global_state option checked" where
  "search_rollup_state B e rollup_type_hash src = (
     case search_rollup_cell B e rollup_type_hash src of
       None \<Rightarrow> Ok None
     | Some index \<Rightarrow>
         obind (load_cell_data e index src) (\<lambda>data.
         obind (read_global_state B data) (\<lambda>g. Ok (Some g))))"

definition parse_rollup_action :: "ckb_std \<Rightarrow> ckb_env \<Rightarrow> nat \<Rightarrow> cell_source \<Rightarrow> rollup_action checked" where
  "parse_rollup_action B e index src =
     obind (load_witness e index src) (\<lambda>w.
     if length w > MAX_ROLLUP_WITNESS_SIZE then Err XLengthNotEnough
     else
     obind (ok_or XEncoding (rd_witness_args B w)) (\<lambda>witness_args.
     obind (ok_or XEncoding (wa_output_type witness_args)) (\<lambda>output_type.
     ok_or XEncoding (rd_rollup_action B output_type))))"

section \<open>The lock cells of a rollup\<close>

record cell_value =
  cv_sudt_script_hash :: h256
  cv_amount :: u128
  cv_capacity :: u64

definition is_ckb_only :: "cell_value \<Rightarrow> bool" where
  "is_ckb_only v = (cv_sudt_script_hash v = CKB_SUDT_SCRIPT_ARGS \<and> cv_amount v = 0)"

record withdrawal_cell =
  wc_index :: nat
  wc_args :: withdrawal_lock_args
  wc_value :: cell_value

record deposit_request_cell =
  dc_index :: nat
  dc_args :: deposit_lock_args
  dc_value :: cell_value
  dc_account_script :: script
  dc_account_script_hash :: h256

record custodian_cell =
  cc_index :: nat
  cc_args :: custodian_lock_args
  cc_value :: cell_value

record stake_cell =
  sk_index :: nat
  sk_args :: stake_lock_args
  sk_capacity :: u64

record challenge_cell =
  hc_index :: nat
  hc_args :: challenge_lock_args
  hc_value :: cell_value

record burn_cell =
  bn_index :: nat
  bn_value :: cell_value

definition fetch_sudt_script_hash ::
  "ckb_std \<Rightarrow> ckb_env \<Rightarrow> rollup_config \<Rightarrow> nat \<Rightarrow> cell_source \<Rightarrow> h256 option checked" where
  "fetch_sudt_script_hash B e config index src =
     obind (load_cell_type e index src) (\<lambda>t. case t of
       Some ty \<Rightarrow>
         if sc_hash_type ty = script_hash_type_to_byte Type \<and>
            sc_code_hash ty = rc_l1_sudt_script_type_hash config
         then load_cell_type_hash B e index src
         else Err XInvalidSUDTCell
     | None \<Rightarrow> Ok None)"

text \<open>\<open>u128::from_le_bytes(data[..16])\<close>: a shorter slice panics.\<close>

definition read_amount :: "bytes \<Rightarrow> ('e, u128) outcome" where
  "read_amount data = (if length data < 16 then Panic else Ok (from_le_bytes (take 16 data)))"

definition fetch_capacity_and_sudt_value ::
  "ckb_std \<Rightarrow> ckb_env \<Rightarrow> rollup_config \<Rightarrow> nat \<Rightarrow> cell_source \<Rightarrow> cell_value checked" where
  "fetch_capacity_and_sudt_value B e config index src =
     obind (load_cell_capacity e index src) (\<lambda>capacity.
     obind (fetch_sudt_script_hash B e config index src) (\<lambda>t. case t of
       Some sh \<Rightarrow>
         obind (load_cell_data e index src) (\<lambda>data.
         obind (read_amount data) (\<lambda>amount.
         if sh = CKB_SUDT_SCRIPT_ARGS \<and> amount \<noteq> 0 then Err XInvalidSUDTCell
         else Ok \<lparr> cv_sudt_script_hash = sh, cv_amount = amount, cv_capacity = capacity \<rparr>))
     | None \<Rightarrow> Ok \<lparr> cv_sudt_script_hash = h256_zero, cv_amount = 0, cv_capacity = capacity \<rparr>))"

text \<open>\<open>Vec::pop\<close>.\<close>

definition vec_last :: "'a list \<Rightarrow> 'a option" where
  "vec_last xs = (if xs = [] then None else Some (last xs))"

text \<open>\<open>filter_map(..).take(n).collect::<Result<Vec<_>, _>>()\<close>.\<close>

fun collect_results :: "('a \<Rightarrow> 'b checked option) \<Rightarrow> 'a list \<Rightarrow> 'b list checked" where
  "collect_results f [] = Ok []"
| "collect_results f (x # xs) = (case f x of
     None \<Rightarrow> collect_results f xs
   | Some r \<Rightarrow> obind r (\<lambda>y. obind (collect_results f xs) (\<lambda>ys. Ok (y # ys))))"

fun collect_take :: "nat \<Rightarrow> ('a \<Rightarrow> 'b checked option) \<Rightarrow> 'a list \<Rightarrow> 'b list checked" where
  "collect_take n f [] = Ok []"
| "collect_take n f (x # xs) = (if n = 0 then Ok [] else case f x of
     None \<Rightarrow> collect_take n f xs
   | Some r \<Rightarrow> obind r (\<lambda>y. obind (collect_take (n - 1) f xs) (\<lambda>ys. Ok (y # ys))))"

definition is_rollup_lock :: "script \<Rightarrow> h256 \<Rightarrow> h256 \<Rightarrow> bool" where
  "is_rollup_lock lock rollup_type_hash lock_script_type_hash = (
     length (sc_args lock) > 32 \<and> take 32 (sc_args lock) = as_slice rollup_type_hash \<and>
     sc_code_hash lock = lock_script_type_hash \<and> sc_hash_type lock = script_hash_type_to_byte Type)"

definition extract_args_from_lock ::
  "(bytes \<Rightarrow> 'a option) \<Rightarrow> script \<Rightarrow> h256 \<Rightarrow> h256 \<Rightarrow> 'a checked option" where
  "extract_args_from_lock reader lock rollup_type_hash lock_script_type_hash = (
     if is_rollup_lock lock rollup_type_hash lock_script_type_hash
     then Some (ok_or XEncoding (reader (drop 32 (sc_args lock))))
     else None)"


definition enumerated_locks :: "ckb_env \<Rightarrow> cell_source \<Rightarrow> (nat \<times> script) list" where
  "enumerated_locks e src = enumerate 0 (map cl_lock (cells_of e src))"

definition stake_cell_at ::
  "ckb_std \<Rightarrow> ckb_env \<Rightarrow> h256 \<Rightarrow> rollup_config \<Rightarrow> cell_source \<Rightarrow> nat \<times> script \<Rightarrow> stake_cell checked option" where
  "stake_cell_at B e rollup_type_hash config src = (\<lambda>(index, lock).
     map_option (\<lambda>args.
       obind args (\<lambda>args.
       obind (fetch_capacity_and_sudt_value B e config index src) (\<lambda>v.
       if \<not> is_ckb_only v then Err XInvalidStakeCell
       else Ok \<lparr> sk_index = index, sk_args = args, sk_capacity = cv_capacity v \<rparr>)))
     (extract_args_from_lock (rd_stake_lock_args B) lock rollup_type_hash (rc_stake_script_type_hash config)))"

definition collect_stake_cells ::
  "ckb_std \<Rightarrow> ckb_env \<Rightarrow> h256 \<Rightarrow> rollup_config \<Rightarrow> cell_source \<Rightarrow> stake_cell list checked" where
  "collect_stake_cells B e rollup_type_hash config src =
     collect_results (stake_cell_at B e rollup_type_hash config src) (enumerated_locks e src)"

definition find_block_producer_stake_cell ::
  "ckb_std \<Rightarrow> ckb_env \<Rightarrow> h256 \<Rightarrow> rollup_config \<Rightarrow> cell_source \<Rightarrow> h256 \<Rightarrow> stake_cell option checked" where
  "find_block_producer_stake_cell B e rollup_type_hash config src owner_lock_hash =
     obind (collect_stake_cells B e rollup_type_hash config src) (\<lambda>cells.
     if length cells > 1 then Err XInvalidStakeCell
     else if \<exists>c \<in> set cells. sl_owner_lock_hash (sk_args c) \<noteq> owner_lock_hash then Err XInvalidStakeCell
     else Ok (vec_last cells))"

definition challenge_cell_at ::
  "ckb_std \<Rightarrow> ckb_env \<Rightarrow> h256 \<Rightarrow> rollup_config \<Rightarrow> cell_source \<Rightarrow> nat \<times> script \<Rightarrow>
     challenge_cell checked option" where
  "challenge_cell_at B e rollup_type_hash config src = (\<lambda>(index, lock).
     case extract_args_from_lock (rd_challenge_lock_args B) lock rollup_type_hash
            (rc_challenge_script_type_hash config) of
       None \<Rightarrow> None
     | Some (Ok args) \<Rightarrow> (case fetch_capacity_and_sudt_value B e config index src of
         Ok v \<Rightarrow> if \<not> is_ckb_only v then None
                 else Some (Ok \<lparr> hc_index = index, hc_args = args, hc_value = v \<rparr>)
       | Err err \<Rightarrow> Some (Err err)
       | Panic \<Rightarrow> Some Panic)
     | Some (Err err) \<Rightarrow> Some (Err err)
     | Some Panic \<Rightarrow> Some Panic)"

definition find_challenge_cell ::
  "ckb_std \<Rightarrow> ckb_env \<Rightarrow> h256 \<Rightarrow> rollup_config \<Rightarrow> cell_source \<Rightarrow> challenge_cell option checked" where
  "find_challenge_cell B e rollup_type_hash config src =
     obind (collect_take 2 (challenge_cell_at B e rollup_type_hash config src) (enumerated_locks e src)) (\<lambda>cells.
     if length cells > 1 then Err XInvalidChallengeCell
     else Ok (vec_last cells))"

definition withdrawal_cell_at ::
  "ckb_std \<Rightarrow> ckb_env \<Rightarrow> h256 \<Rightarrow> rollup_config \<Rightarrow> cell_source \<Rightarrow> nat \<times> script \<Rightarrow>
     withdrawal_cell checked option" where
  "withdrawal_cell_at B e rollup_type_hash config src = (\<lambda>(index, lock).
     if \<not> is_rollup_lock lock rollup_type_hash (rc_withdrawal_script_type_hash config) then None
     else Some (
       obind (omap_err (\<lambda>_. XEncoding) (parse_lock_args B (sc_args lock))) (\<lambda>r.
       obind (fetch_capacity_and_sudt_value B e config index src) (\<lambda>v.
       Ok \<lparr> wc_index = index, wc_args = wo_lock_args r, wc_value = v \<rparr>))))"

definition collect_withdrawal_locks ::
  "ckb_std \<Rightarrow> ckb_env \<Rightarrow> h256 \<Rightarrow> rollup_config \<Rightarrow> cell_source \<Rightarrow> withdrawal_cell list checked" where
  "collect_withdrawal_locks B e rollup_type_hash config src =
     collect_results (withdrawal_cell_at B e rollup_type_hash config src) (enumerated_locks e src)"

definition custodian_cell_at ::
  "ckb_std \<Rightarrow> ckb_env \<Rightarrow> h256 \<Rightarrow> rollup_config \<Rightarrow> cell_source \<Rightarrow> nat \<times> script \<Rightarrow>
     custodian_cell checked option" where
  "custodian_cell_at B e rollup_type_hash config src = (\<lambda>(index, lock).
     map_option (\<lambda>args.
       obind args (\<lambda>args.
       obind (fetch_capacity_and_sudt_value B e config index src) (\<lambda>v.
       Ok \<lparr> cc_index = index, cc_args = args, cc_value = v \<rparr>)))
     (extract_args_from_lock (rd_custodian_lock_args B) lock rollup_type_hash
        (rc_custodian_script_type_hash config)))"

definition collect_custodian_locks ::
  "ckb_std \<Rightarrow> ckb_env \<Rightarrow> h256 \<Rightarrow> rollup_config \<Rightarrow> cell_source \<Rightarrow> custodian_cell list checked" where
  "collect_custodian_locks B e rollup_type_hash config src =
     collect_results (custodian_cell_at B e rollup_type_hash config src) (enumerated_locks e src)"

definition deposit_cell_at ::
  "ckb_std \<Rightarrow> ckb_env \<Rightarrow> h256 \<Rightarrow> rollup_config \<Rightarrow> cell_source \<Rightarrow> nat \<times> script \<Rightarrow>
     deposit_request_cell checked option" where
  "deposit_cell_at B e rollup_type_hash config src = (\<lambda>(index, lock).
     map_option (\<lambda>args.
       obind args (\<lambda>args.
       obind (fetch_capacity_and_sudt_value B e config index src) (\<lambda>v.
       let account_script = dl_layer2_lock args; account_script_hash = hash_of B account_script in
       Ok \<lparr> dc_index = index, dc_args = args, dc_value = v, dc_account_script = account_script,
            dc_account_script_hash = account_script_hash \<rparr>)))
     (extract_args_from_lock (rd_deposit_lock_args B) lock rollup_type_hash
        (rc_deposit_script_type_hash config)))"

definition collect_deposit_locks ::
  "ckb_std \<Rightarrow> ckb_env \<Rightarrow> h256 \<Rightarrow> rollup_config \<Rightarrow> cell_source \<Rightarrow> deposit_request_cell list checked" where
  "collect_deposit_locks B e rollup_type_hash config src =
     collect_results (deposit_cell_at B e rollup_type_hash config src) (enumerated_locks e src)"

definition burn_cell_at ::
  "ckb_std \<Rightarrow> ckb_env \<Rightarrow> rollup_config \<Rightarrow> cell_source \<Rightarrow> nat \<times> script \<Rightarrow> burn_cell checked option" where
  "burn_cell_at B e config src = (\<lambda>(index, lock).
     if hash_of B lock \<noteq> rc_burn_lock_hash config then None
     else Some (
       obind (fetch_capacity_and_sudt_value B e config index src) (\<lambda>v.
       Ok \<lparr> bn_index = index, bn_value = v \<rparr>)))"

definition collect_burn_cells ::
  "ckb_std \<Rightarrow> ckb_env \<Rightarrow> rollup_config \<Rightarrow> cell_source \<Rightarrow> burn_cell list checked" where
  "collect_burn_cells B e config src =
     collect_results (burn_cell_at B e config src) (enumerated_locks e src)"

section \<open>Searching cells, and layer-two sUDT scripts\<close>

definition search_lock_hashes :: "ckb_std \<Rightarrow> ckb_env \<Rightarrow> h256 \<Rightarrow> cell_source \<Rightarrow> nat list" where
  "search_lock_hashes B e owner_lock_hash src =
     map fst (filter (\<lambda>(i, lock). hash_of B lock = owner_lock_hash) (enumerated_locks e src))"

definition search_lock_hash :: "ckb_std \<Rightarrow> ckb_env \<Rightarrow> h256 \<Rightarrow> cell_source \<Rightarrow> nat option" where
  "search_lock_hash B e owner_lock_hash src =
     position (\<lambda>c. hash_of B (cl_lock c) = owner_lock_hash) (cells_of e src)"

definition l2_sudt_script :: "h256 \<Rightarrow> rollup_config \<Rightarrow> h256 \<Rightarrow> script option" where
  "l2_sudt_script rollup_script_hash config l1_sudt_script_hash = (
     if l1_sudt_script_hash = CKB_SUDT_SCRIPT_ARGS then None
     else Some \<lparr>
       sc_code_hash = rc_l2_sudt_validator_script_type_hash config,
       sc_hash_type = script_hash_type_to_byte Type,
       sc_args = as_slice rollup_script_hash @ as_slice l1_sudt_script_hash \<rparr>)"

section \<open>Token amounts\<close>

datatype token_type = CKB | SUDT h256

definition token_type_from :: "h256 \<Rightarrow> token_type" where
  "token_type_from sudt_script_hash = (if sudt_script_hash = h256_zero then CKB else SUDT sudt_script_hash)"

record cell_token_amount =
  ta_total_token_amount :: u128
  ta_total_capacity :: u128

definition token_amount_at ::
  "ckb_std \<Rightarrow> ckb_env \<Rightarrow> token_type \<Rightarrow> cell_source \<Rightarrow> nat \<Rightarrow> u128 checked" where
  "token_amount_at B e token src i =
     obind (load_cell_type_hash B e i src) (\<lambda>t. case t of
       Some type_hash \<Rightarrow>
         if SUDT type_hash = token then obind (load_cell_data e i src) read_amount else Ok 0
     | None \<Rightarrow> Ok 0)"

fun fetch_token_amount_loop ::
  "ckb_std \<Rightarrow> ckb_env \<Rightarrow> h256 \<Rightarrow> token_type \<Rightarrow> cell_source \<Rightarrow> (nat \<times> script) list \<Rightarrow>
     cell_token_amount \<Rightarrow> cell_token_amount checked" where
  "fetch_token_amount_loop B e owner_lock_hash token src [] acc = Ok acc"
| "fetch_token_amount_loop B e owner_lock_hash token src ((i, lock) # rest) acc = (
     if hash_of B lock \<noteq> owner_lock_hash
     then fetch_token_amount_loop B e owner_lock_hash token src rest acc
     else
     obind (load_cell_capacity e i src) (\<lambda>capacity.
     obind (ok_or XAmountOverflow (checked_add (ta_total_capacity acc) (ucast capacity))) (\<lambda>total_capacity.
     obind (token_amount_at B e token src i) (\<lambda>amount.
     obind (ok_or XAmountOverflow (checked_add (ta_total_token_amount acc) amount)) (\<lambda>total_token_amount.
     fetch_token_amount_loop B e owner_lock_hash token src rest
       \<lparr> ta_total_token_amount = total_token_amount, ta_total_capacity = total_capacity \<rparr>)))))"

definition fetch_token_amount_by_lock_hash ::
  "ckb_std \<Rightarrow> ckb_env \<Rightarrow> h256 \<Rightarrow> token_type \<Rightarrow> cell_source \<Rightarrow> cell_token_amount checked" where
  "fetch_token_amount_by_lock_hash B e owner_lock_hash token src =
     fetch_token_amount_loop B e owner_lock_hash token src (enumerated_locks e src)
       \<lparr> ta_total_token_amount = 0, ta_total_capacity = 0 \<rparr>"

section \<open>The type id\<close>

definition TYPE_ID_SIZE :: nat where "TYPE_ID_SIZE = 32"

definition has_type_id_cell :: "ckb_env \<Rightarrow> nat \<Rightarrow> cell_source \<Rightarrow> bool" where
  "has_type_id_cell e index src = (index < length (cells_of e src))"

definition check_type_id :: "ckb_std \<Rightarrow> ckb_env \<Rightarrow> h256 \<Rightarrow> unit checked" where
  "check_type_id B e type_id = (
     if has_type_id_cell e 1 GroupInputs \<or> has_type_id_cell e 1 GroupOutputs then Err XInvalidTypeID
     else if has_type_id_cell e 0 GroupInputs then Ok ()
     else
     let sh = hash_of B (en_script e) in
     obind (ok_or XInvalidTypeID (search_rollup_cell B e sh Outputs)) (\<lambda>output_index.
     let expected_type_id = blake2b (ck_externs B)
           (tx_first_input (en_tx e) @ to_le_bytes 8 (of_nat output_index :: u64)) in
     if type_id \<noteq> expected_type_id then Err XInvalidTypeID
     else Ok ()))"

end
