(* ===== verification/Gw_Locks.thy ===== *)
theory Gw_Locks
  imports Gw_Cells
begin

text \<open>
  The lock scripts of the rollup's cells: \<open>deposit-lock\<close>, \<open>stake-lock\<close>, \<open>custodian-lock\<close> and
  \<open>withdrawal-lock\<close> (\<open>contracts/*/src/entry.rs\<close>), each as the function of the transaction that
  its \<open>main\<close> is, and what a transaction that unlocks such a cell must contain.
\<close>

section \<open>Lock arguments\<close>

text \<open>The four scripts parse \<open>rollup_type_hash | args\<close> with the same code, up to the reader.\<close>

definition rollup_lock_args :: "(bytes \<Rightarrow> 'a option) \<Rightarrow> ckb_env \<Rightarrow> (h256 \<times> 'a) checked" where
  "rollup_lock_args reader e = (
     let args = sc_args (en_script e) in
     if length args < 32 then Err XInvalidArgs
     else
     let rollup_type_hash = h256_of_bytes (take 32 args) in
     obind (ok_or XInvalidArgs (reader (drop 32 args))) (\<lambda>a. Ok (rollup_type_hash, a)))"

definition deposit_lock_parse :: "ckb_std \<Rightarrow> ckb_env \<Rightarrow> (h256 \<times> deposit_lock_args) checked" where
  "deposit_lock_parse B e = rollup_lock_args (rd_deposit_lock_args B) e"

definition stake_lock_parse :: "ckb_std \<Rightarrow> ckb_env \<Rightarrow> (h256 \<times> stake_lock_args) checked" where
  "stake_lock_parse B e = rollup_lock_args (rd_stake_lock_args B) e"

definition custodian_lock_parse :: "ckb_std \<Rightarrow> ckb_env \<Rightarrow> (h256 \<times> custodian_lock_args) checked" where
  "custodian_lock_parse B e = rollup_lock_args (rd_custodian_lock_args B) e"

definition challenge_lock_parse :: "ckb_std \<Rightarrow> ckb_env \<Rightarrow> (h256 \<times> challenge_lock_args) checked" where
  "challenge_lock_parse B e = rollup_lock_args (rd_challenge_lock_args B) e"

record parsed_lock_args =
  pl_rollup_type_hash :: h256
  pl_lock_args :: withdrawal_lock_args
  pl_owner_lock_hash :: h256

definition withdrawal_lock_parse :: "ckb_std \<Rightarrow> ckb_env \<Rightarrow> parsed_lock_args checked" where
  "withdrawal_lock_parse B e = (
     let args = sc_args (en_script e) in
     if length args < 32 then Err XInvalidArgs
     else
     obind (parse_lock_args B args) (\<lambda>parsed.
     Ok \<lparr> pl_rollup_type_hash = h256_of_bytes (take 32 args),
          pl_lock_args = wo_lock_args parsed,
          pl_owner_lock_hash = hash_of B (wo_owner_lock parsed) \<rparr>))"

section \<open>Deposit lock\<close>

definition deposit_lock_main :: "ckb_std \<Rightarrow> ckb_env \<Rightarrow> unit checked" where
  "deposit_lock_main B e =
     obind (deposit_lock_parse B e) (\<lambda>(rollup_type_hash, lock_args).
     if search_rollup_cell B e rollup_type_hash Inputs \<noteq> None then Ok ()
     else
     obind (load_input_since e 0 GroupInputs) (\<lambda>input_since.
     let cancel_timeout = dl_cancel_timeout lock_args in
     if ck_since_flags B input_since \<noteq> ck_since_flags B cancel_timeout \<or> input_since < cancel_timeout
     then Err XInvalidSince
     else case search_lock_hash B e (dl_owner_lock_hash lock_args) Inputs of
       Some _ \<Rightarrow> Ok ()
     | None \<Rightarrow> Err XOwnerCellNotFound))"

section \<open>Stake lock\<close>

definition stake_unlocked_by_owner :: "ckb_std \<Rightarrow> ckb_env \<Rightarrow> h256 \<Rightarrow> stake_lock_args \<Rightarrow> bool checked" where
  "stake_unlocked_by_owner B e rollup_type_hash lock_args =
     obind (search_rollup_state B e rollup_type_hash CellDeps) (\<lambda>g. case g of
       Some global_state \<Rightarrow>
         obind (load_rollup_config B e (gs_rollup_config_hash global_state)) (\<lambda>config.
         Ok (is_finalized config global_state (from_full_value (sl_stake_finalized_timepoint lock_args)) \<and>
             search_lock_hash B e (sl_owner_lock_hash lock_args) Inputs \<noteq> None))
     | None \<Rightarrow> Ok False)"

definition stake_lock_main :: "ckb_std \<Rightarrow> ckb_env \<Rightarrow> unit checked" where
  "stake_lock_main B e =
     obind (stake_lock_parse B e) (\<lambda>(rollup_type_hash, lock_args).
     obind (stake_unlocked_by_owner B e rollup_type_hash lock_args) (\<lambda>by_owner.
     if by_owner then Ok ()
     else if search_rollup_cell B e rollup_type_hash Inputs \<noteq> None then Ok ()
     else Err XInvalidStakeCellUnlock))"

section \<open>Custodian lock\<close>

text \<open>The action of the rollup cell in the outputs submits a block and names \<open>block_hash\<close> as reverted.\<close>

definition check_block_reverted :: "ckb_std \<Rightarrow> ckb_env \<Rightarrow> h256 \<Rightarrow> h256 \<Rightarrow> unit checked" where
  "check_block_reverted B e rollup_type_hash block_hash =
     obind (ok_or XRollupCellNotFound (search_rollup_cell B e rollup_type_hash Outputs)) (\<lambda>index.
     obind (parse_rollup_action B e index Outputs) (\<lambda>action. case action of
       RollupSubmitBlock args \<Rightarrow>
         if block_hash \<in> set (rs_reverted_block_hashes args) then Ok () else Err XInvalidRevertedBlocks
     | _ \<Rightarrow> Err XInvalidRevertedBlocks))"

text \<open>The arguments of an output lock that must belong to the rollup.\<close>

definition output_lock_args :: "(bytes \<Rightarrow> 'a option) \<Rightarrow> script \<Rightarrow> h256 \<Rightarrow> 'a checked" where
  "output_lock_args reader lock rollup_type_hash = (
     let args = sc_args lock in
     if length args < 32 then Err XInvalidArgs
     else if take 32 args \<noteq> as_slice rollup_type_hash then Err XInvalidArgs
     else ok_or XInvalidOutput (reader (drop 32 args)))"

definition custodian_unlock_via_revert ::
  "ckb_std \<Rightarrow> ckb_env \<Rightarrow> rollup_config \<Rightarrow> h256 \<Rightarrow> custodian_lock_args \<Rightarrow> unit checked" where
  "custodian_unlock_via_revert B e config rollup_type_hash lock_args =
     obind (load_witness_args B e 0 GroupInputs) (\<lambda>witness_args.
     obind (ok_or XInvalidArgs (wa_lock witness_args)) (\<lambda>data.
     obind (ok_or XInvalidArgs (rd_unlock_custodian B data)) (\<lambda>deposit_lock_hash.
     obind (ok_or XInvalidOutput (search_lock_hash B e deposit_lock_hash Outputs)) (\<lambda>deposit_cell_index.
     obind (load_cell_lock e deposit_cell_index Outputs) (\<lambda>deposit_lock.
     obind (output_lock_args (rd_deposit_lock_args B) deposit_lock rollup_type_hash) (\<lambda>deposit_lock_args.
     if sc_code_hash deposit_lock \<noteq> rc_deposit_script_type_hash config \<or>
        sc_hash_type deposit_lock \<noteq> script_hash_type_to_byte Type \<or>
        deposit_lock_args \<noteq> cu_deposit_lock_args lock_args
     then Err XInvalidOutput
     else check_block_reverted B e rollup_type_hash (cu_deposit_block_hash lock_args)))))))"

definition custodian_lock_main :: "ckb_std \<Rightarrow> ckb_env \<Rightarrow> unit checked" where
  "custodian_lock_main B e =
     obind (custodian_lock_parse B e) (\<lambda>(rollup_type_hash, lock_args).
     obind (search_rollup_state B e rollup_type_hash Inputs) (\<lambda>g.
     obind (ok_or XRollupCellNotFound g) (\<lambda>global_state.
     obind (load_rollup_config B e (gs_rollup_config_hash global_state)) (\<lambda>config.
     if is_finalized config global_state (from_full_value (cu_deposit_finalized_timepoint lock_args))
     then Ok ()
     else custodian_unlock_via_revert B e config rollup_type_hash lock_args))))"

section \<open>Withdrawal lock\<close>

definition FINALIZED_BLOCK_TIMEPOINT :: u64 where "FINALIZED_BLOCK_TIMEPOINT = 0"
definition FINALIZED_BLOCK_HASH :: h256 where "FINALIZED_BLOCK_HASH = 0"

definition check_output_cell_has_same_content ::
  "ckb_std \<Rightarrow> ckb_env \<Rightarrow> nat \<Rightarrow> cell_source \<Rightarrow> nat \<Rightarrow> unit checked" where
  "check_output_cell_has_same_content B e input_index input_source output_index =
     obind (load_cell_capacity e input_index input_source) (\<lambda>c.
     obind (load_cell_capacity e output_index Outputs) (\<lambda>c'.
     if c \<noteq> c' then Err XInvalidOutput
     else
     obind (load_cell_data e input_index input_source) (\<lambda>d.
     obind (load_cell_data e output_index Outputs) (\<lambda>d'.
     if d \<noteq> d' then Err XInvalidOutput
     else
     obind (load_cell_type_hash B e input_index input_source) (\<lambda>t.
     obind (load_cell_type_hash B e output_index Outputs) (\<lambda>t'.
     if t \<noteq> t' then Err XInvalidOutput else Ok ()))))))"

definition absolute_timestamp_since :: "ckb_std \<Rightarrow> u64 \<Rightarrow> u64 checked" where
  "absolute_timestamp_since B input_since = (case (ck_is_absolute B input_since, ck_lock_value B input_since) of
     (True, Some (LockTimestamp time_ms)) \<Rightarrow> Ok time_ms
   | _ \<Rightarrow> Err XInvalidSince)"

definition assert_timestamp_le_since :: "ckb_std \<Rightarrow> ckb_env \<Rightarrow> u64 \<Rightarrow> unit checked" where
  "assert_timestamp_le_since B e timestamp =
     obind (load_input_since e 0 GroupInputs) (\<lambda>input_since.
     obind (absolute_timestamp_since B input_since) (\<lambda>since_absolute_timestamp.
     if timestamp \<le> since_absolute_timestamp then Ok () else Err XNotFinalized))"

definition withdrawal_unlock_via_revert :: "ckb_std \<Rightarrow> ckb_env \<Rightarrow> parsed_lock_args \<Rightarrow> h256 \<Rightarrow> unit checked" where
  "withdrawal_unlock_via_revert B e p custodian_lock_hash = (
     let rollup_type_hash = pl_rollup_type_hash p in
     obind (check_block_reverted B e rollup_type_hash (wl_withdrawal_block_hash (pl_lock_args p))) (\<lambda>_.
     obind (ok_or XInvalidOutput (search_lock_hash B e custodian_lock_hash Outputs)) (\<lambda>custodian_cell_index.
     obind (load_cell_lock e custodian_cell_index Outputs) (\<lambda>custodian_lock.
     obind (output_lock_args (rd_custodian_lock_args B) custodian_lock rollup_type_hash) (\<lambda>custodian_lock_args.
     obind (search_rollup_state B e rollup_type_hash Inputs) (\<lambda>g.
     obind (ok_or XRollupCellNotFound g) (\<lambda>global_state.
     obind (load_rollup_config B e (gs_rollup_config_hash global_state)) (\<lambda>config.
     if sc_code_hash custodian_lock \<noteq> rc_custodian_script_type_hash config \<or>
        sc_hash_type custodian_lock \<noteq> script_hash_type_to_byte Type \<or>
        cu_deposit_block_hash custodian_lock_args \<noteq> FINALIZED_BLOCK_HASH \<or>
        cu_deposit_finalized_timepoint custodian_lock_args \<noteq> FINALIZED_BLOCK_TIMEPOINT
     then Err XInvalidOutput
     else check_output_cell_has_same_content B e 0 GroupInputs custodian_cell_index))))))))"

definition withdrawal_rollup_state :: "ckb_std \<Rightarrow> ckb_env \<Rightarrow> h256 \<Rightarrow> global_state checked" where
  "withdrawal_rollup_state B e rollup_type_hash =
     obind (search_rollup_state B e rollup_type_hash CellDeps) (\<lambda>g. case g of
       Some state \<Rightarrow> Ok state
     | None \<Rightarrow>
         obind (search_rollup_state B e rollup_type_hash Inputs) (\<lambda>g.
         ok_or XRollupCellNotFound g))"

definition check_withdrawal_finalized :: "ckb_std \<Rightarrow> ckb_env \<Rightarrow> parsed_lock_args \<Rightarrow> unit checked" where
  "check_withdrawal_finalized B e p = (
     let withdrawal_finalized_timepoint = from_full_value (wl_withdrawal_finalized_timepoint (pl_lock_args p)) in
     case withdrawal_finalized_timepoint of
       BlockNumber _ \<Rightarrow>
         obind (withdrawal_rollup_state B e (pl_rollup_type_hash p)) (\<lambda>global_state.
         obind (load_rollup_config B e (gs_rollup_config_hash global_state)) (\<lambda>config.
         if \<not> is_finalized config global_state withdrawal_finalized_timepoint then Err XNotFinalized
         else Ok ()))
     | Timestamp finalized_timestamp \<Rightarrow> assert_timestamp_le_since B e finalized_timestamp)"

text \<open>The loop over the inputs of this lock: it looks for one whose output is not a copy with the owner's lock.\<close>

definition invalid_output_found :: "ckb_std \<Rightarrow> ckb_env \<Rightarrow> h256 \<Rightarrow> h256 \<Rightarrow> bool" where
  "invalid_output_found B e withdrawal_lock_hash owner_lock_hash =
     list_ex (\<lambda>(index, lock).
       check_output_cell_has_same_content B e index Inputs index \<noteq> Ok () \<or>
       load_cell_lock_hash B e index Outputs \<noteq> Ok owner_lock_hash)
     (filter (\<lambda>(_, lock). hash_of B lock = withdrawal_lock_hash) (enumerated_locks e Inputs))"

definition withdrawal_unlock_via_finalize :: "ckb_std \<Rightarrow> ckb_env \<Rightarrow> parsed_lock_args \<Rightarrow> unit checked" where
  "withdrawal_unlock_via_finalize B e p =
     obind (check_withdrawal_finalized B e p) (\<lambda>_.
     obind (load_cell_lock_hash B e 0 GroupInputs) (\<lambda>withdrawal_lock_hash.
     if \<not> invalid_output_found B e withdrawal_lock_hash (pl_owner_lock_hash p) then Ok ()
     else if search_lock_hash B e (wl_owner_lock_hash (pl_lock_args p)) Inputs = None
     then Err XOwnerCellNotFound
     else Ok ()))"

definition withdrawal_lock_main :: "ckb_std \<Rightarrow> ckb_env \<Rightarrow> unit checked" where
  "withdrawal_lock_main B e =
     obind (withdrawal_lock_parse B e) (\<lambda>p.
     obind (load_witness_args B e 0 GroupInputs) (\<lambda>witness_args.
     obind (ok_or XInvalidArgs (wa_lock witness_args)) (\<lambda>unlock_bytes.
     obind (ok_or XProofNotFound (rd_unlock_withdrawal B unlock_bytes)) (\<lambda>unlock_args.
     case unlock_args of
       UnlockWithdrawalViaRevert custodian_lock_hash \<Rightarrow> withdrawal_unlock_via_revert B e p custodian_lock_hash
     | UnlockWithdrawalViaFinalize \<Rightarrow> withdrawal_unlock_via_finalize B e p))))"

end
