(* ===== verification/Gw_Submit.thy ===== *)
theory Gw_Submit
  imports Gw_Locks
begin

text \<open>
  The action \<open>RollupSubmitBlock\<close> of the state validator
  (\<open>contracts/state-validator/src/verifications/submit_block.rs\<close>, \<open>types.rs\<close>, \<open>mod.rs\<close>) and the
  account state it runs on, \<open>KVState\<close> (\<open>contracts/gw-state/src/kv_state.rs\<close>).

  The sparse Merkle tree of the scripts is C code outside the sources: the dictionary
  \<open>smt_tree\<close> holds the methods of \<open>ckb_smt::smt::Tree\<close>. The deposits and withdrawals of a block
  run over the trait \<open>State\<close>, as they do off chain. A \<open>BTreeMap\<close> is a finite map; the loops over
  one meet each key once and have one error each, so the order of its keys does not show.
\<close>

section \<open>\<open>KVState\<close>\<close>

record 't smt_tree =
  tr_new :: "nat \<Rightarrow> 't"
  tr_update :: "h256 \<Rightarrow> h256 \<Rightarrow> 't \<Rightarrow> 't option"
  tr_get :: "h256 \<Rightarrow> 't \<Rightarrow> h256 option"
  tr_normalize :: "'t \<Rightarrow> 't"
  tr_calculate_root :: "bytes \<Rightarrow> 't \<Rightarrow> h256 option"
  tr_verify :: "h256 \<Rightarrow> bytes \<Rightarrow> 't \<Rightarrow> bool"
  tr_is_empty :: "'t \<Rightarrow> bool"

record 't kv_state =
  kv_tree :: 't
  kv_proof :: bytes
  kv_account_count :: u32
  kv_previous_root :: "h256 option"

fun tree_updates :: "'t smt_tree \<Rightarrow> contract_error \<Rightarrow> (h256 \<times> h256) list \<Rightarrow> 't \<Rightarrow> 't checked" where
  "tree_updates M err [] t = Ok t"
| "tree_updates M err ((k, v) # kvs) t =
     obind (ok_or err (tr_update M k v t)) (\<lambda>t. tree_updates M err kvs t)"

definition kv_build ::
  "'t smt_tree \<Rightarrow> nat \<Rightarrow> (h256 \<times> h256) list \<Rightarrow> bytes \<Rightarrow> u32 \<Rightarrow> h256 option \<Rightarrow> 't kv_state checked" where
  "kv_build M buf_len kv_pairs proof account_count current_root =
     obind (tree_updates M XSMTKeyMissing kv_pairs (tr_new M buf_len)) (\<lambda>tree.
     Ok \<lparr> kv_tree = tree, kv_proof = proof, kv_account_count = account_count,
          kv_previous_root = current_root \<rparr>)"

definition kv_is_empty :: "'t smt_tree \<Rightarrow> 't kv_state \<Rightarrow> bool" where
  "kv_is_empty M s = (tr_is_empty M (kv_tree s) \<and> kv_proof s = [])"

definition kv_get_raw :: "'t smt_tree \<Rightarrow> h256 \<Rightarrow> ('t kv_state, common_error, h256) sm" where
  "kv_get_raw M key = sbind (gets kv_tree) (\<lambda>t. lift_o (ok_or MissingKey (tr_get M key t)))"

definition kv_update_raw :: "'t smt_tree \<Rightarrow> h256 \<Rightarrow> h256 \<Rightarrow> ('t kv_state, common_error, unit) sm" where
  "kv_update_raw M key value =
     sbind (gets kv_tree) (\<lambda>t.
     sbind (lift_o (ok_or MissingKey (tr_update M key value t))) (\<lambda>t.
     modify (kv_tree_update (\<lambda>_. t))))"

definition kv_calculate_root :: "'t smt_tree \<Rightarrow> ('t kv_state, common_error, h256) sm" where
  "kv_calculate_root M =
     sbind (gets (\<lambda>s. s)) (\<lambda>s.
     if kv_is_empty M s then lift_o (ok_or MerkleProof (kv_previous_root s))
     else
     sbind (modify (kv_tree_update (tr_normalize M))) (\<lambda>_.
     sbind (gets (\<lambda>s. s)) (\<lambda>s.
     lift_o (ok_or MerkleProof (tr_calculate_root M (kv_proof s) (kv_tree s))))))"

definition kv_state_ops :: "'t smt_tree \<Rightarrow> 't kv_state state_ops" where
  "kv_state_ops M = \<lparr>
     st_get_raw = kv_get_raw M,
     st_update_raw = kv_update_raw M,
     st_get_account_count = gets kv_account_count,
     st_set_account_count = (\<lambda>n. modify (kv_account_count_update (\<lambda>_. n))),
     st_calculate_root = kv_calculate_root M \<rparr>"

abbreviation in_kv :: "('s, common_error, 'a) sm \<Rightarrow> ('s, contract_error, 'a) sm" where
  "in_kv m \<equiv> map_err of_common_error m"

section \<open>Block context\<close>

record block_context =
  bx_number :: u64
  bx_timestamp :: u64
  bx_block_hash :: h256
  bx_rollup_type_hash :: h256
  bx_prev_account_root :: h256
  bx_post_version :: u8
  bx_finality_time_in_ms :: u64

definition finalized_timepoint :: "block_context \<Rightarrow> timepoint checked" where
  "finalized_timepoint ctx = (
     if fork_timestamp_as_timepoint (bx_post_version ctx)
     then obind (add_or_panic (bx_timestamp ctx) (bx_finality_time_in_ms ctx)) (\<lambda>t. Ok (Timestamp t))
     else Ok (BlockNumber (bx_number ctx)))"

definition check_status :: "global_state \<Rightarrow> status \<Rightarrow> unit checked" where
  "check_status global_state status = (
     if gs_status global_state \<noteq> status_to_u8 status then Err XInvalidStatus else Ok ())"

section \<open>Assets\<close>

type_synonym assets = "(h256, u128) fmap"

definition entry_or_zero :: "assets \<Rightarrow> h256 \<Rightarrow> u128" where
  "entry_or_zero m k = (case fmlookup m k of Some v \<Rightarrow> v | None \<Rightarrow> 0)"

fun build_assets_loop :: "cell_value list \<Rightarrow> assets \<Rightarrow> assets checked" where
  "build_assets_loop [] assets = Ok assets"
| "build_assets_loop (cell # cells) assets =
     obind (ok_or XAmountOverflow (checked_add (entry_or_zero assets (cv_sudt_script_hash cell)) (cv_amount cell)))
       (\<lambda>sudt_balance.
     let assets = fmupd (cv_sudt_script_hash cell) sudt_balance assets in
     obind (ok_or XAmountOverflow (checked_add (entry_or_zero assets CKB_SUDT_SCRIPT_ARGS) (ucast (cv_capacity cell))))
       (\<lambda>ckb_balance.
     build_assets_loop cells (fmupd CKB_SUDT_SCRIPT_ARGS ckb_balance assets)))"

definition build_assets_map_from_cells :: "cell_value list \<Rightarrow> assets checked" where
  "build_assets_map_from_cells cells = build_assets_loop cells fmempty"

fun sub_assets_loop :: "contract_error \<Rightarrow> (h256 \<times> u128) list \<Rightarrow> assets \<Rightarrow> assets checked" where
  "sub_assets_loop err [] assets = Ok assets"
| "sub_assets_loop err ((k, v) # rows) assets =
     obind (ok_or err (checked_sub (entry_or_zero assets k) v)) (\<lambda>balance.
     sub_assets_loop err rows (fmupd k balance assets))"

section \<open>Withdrawal, deposit and custodian cells\<close>

text \<open>\<open>iter().position(..)\<close> of a closure that may panic, and the removal of what it found.\<close>

fun position_checked :: "('a \<Rightarrow> bool checked) \<Rightarrow> 'a list \<Rightarrow> nat option checked" where
  "position_checked f [] = Ok None"
| "position_checked f (x # xs) =
     obind (f x) (\<lambda>b. if b then Ok (Some 0)
       else obind (position_checked f xs) (\<lambda>i. Ok (map_option Suc i)))"

fun match_each :: "('a \<Rightarrow> 'b \<Rightarrow> bool checked) \<Rightarrow> contract_error \<Rightarrow> 'a list \<Rightarrow> 'b list \<Rightarrow> 'b list checked" where
  "match_each f err [] ys = Ok ys"
| "match_each f err (x # xs) ys =
     obind (position_checked (f x) ys) (\<lambda>i.
     obind (ok_or err i) (\<lambda>index.
     match_each f err xs (vec_remove index ys)))"

definition withdrawal_matches :: "withdrawal_cell \<Rightarrow> withdrawal_request \<Rightarrow> bool" where
  "withdrawal_matches cell request = (
     let raw = wr_raw request in
     rw_account_script_hash raw = wl_account_script_hash (wc_args cell) \<and>
     rw_sudt_script_hash raw = cv_sudt_script_hash (wc_value cell) \<and>
     rw_amount raw = cv_amount (wc_value cell) \<and>
     rw_capacity raw = cv_capacity (wc_value cell))"

fun check_withdrawal_cells_loop ::
  "block_context \<Rightarrow> withdrawal_request list \<Rightarrow> withdrawal_cell list \<Rightarrow> withdrawal_request list checked" where
  "check_withdrawal_cells_loop ctx withdrawal_requests [] = Ok withdrawal_requests"
| "check_withdrawal_cells_loop ctx withdrawal_requests (cell # cells) = (
     if wl_withdrawal_block_hash (wc_args cell) \<noteq> bx_block_hash ctx then Err XInvalidWithdrawalCell
     else
     obind (finalized_timepoint ctx) (\<lambda>tp.
     if wl_withdrawal_finalized_timepoint (wc_args cell) \<noteq> full_value tp then Err XInvalidWithdrawalCell
     else
     case position (withdrawal_matches cell) withdrawal_requests of
       Some index \<Rightarrow> check_withdrawal_cells_loop ctx (vec_remove index withdrawal_requests) cells
     | None \<Rightarrow> Err XInvalidWithdrawalCell))"

definition check_withdrawal_cells ::
  "block_context \<Rightarrow> withdrawal_request list \<Rightarrow> withdrawal_cell list \<Rightarrow> unit checked" where
  "check_withdrawal_cells ctx withdrawal_requests withdrawal_cells =
     obind (check_withdrawal_cells_loop ctx withdrawal_requests withdrawal_cells) (\<lambda>rest.
     if rest \<noteq> [] then Err XInvalidWithdrawalCell else Ok ())"

definition custodian_finalized :: "rollup_config \<Rightarrow> global_state \<Rightarrow> custodian_cell \<Rightarrow> bool" where
  "custodian_finalized config g cell =
     is_finalized config g (from_full_value (cu_deposit_finalized_timepoint (cc_args cell)))"

definition reverts_deposit :: "custodian_cell \<Rightarrow> deposit_request_cell \<Rightarrow> bool checked" where
  "reverts_deposit custodian_cell cell =
     Ok (cu_deposit_lock_args (cc_args custodian_cell) = dc_args cell \<and> cc_value custodian_cell = dc_value cell)"

definition check_input_custodian_cells ::
  "ckb_std \<Rightarrow> ckb_env \<Rightarrow> rollup_config \<Rightarrow> global_state \<Rightarrow> block_context \<Rightarrow> withdrawal_cell list \<Rightarrow> assets checked" where
  "check_input_custodian_cells B e config prev_global_state ctx output_withdrawal_cells =
     obind (collect_custodian_locks B e (bx_rollup_type_hash ctx) config Inputs) (\<lambda>custodians.
     let (finalized, unfinalized) = partition (custodian_finalized config prev_global_state) custodians in
     obind (collect_deposit_locks B e (bx_rollup_type_hash ctx) config Outputs) (\<lambda>reverted_deposit_cells.
     obind (match_each reverts_deposit XInvalidCustodianCell unfinalized reverted_deposit_cells) (\<lambda>rest.
     if rest \<noteq> [] then Err XInvalidDepositCell
     else
     obind (build_assets_map_from_cells (map wc_value output_withdrawal_cells)) (\<lambda>withdrawal_assets.
     obind (build_assets_map_from_cells (map cc_value finalized)) (\<lambda>input_finalized_assets.
     sub_assets_loop XInsufficientInputFinalizedAssets (fm_rows withdrawal_assets) input_finalized_assets)))))"

definition keeps_deposit :: "block_context \<Rightarrow> custodian_cell \<Rightarrow> deposit_request_cell \<Rightarrow> bool checked" where
  "keeps_deposit ctx custodian_cell cell = (
     if cu_deposit_lock_args (cc_args custodian_cell) = dc_args cell \<and>
        cu_deposit_block_hash (cc_args custodian_cell) = bx_block_hash ctx
     then obind (finalized_timepoint ctx) (\<lambda>tp.
       Ok (cu_deposit_finalized_timepoint (cc_args custodian_cell) = full_value tp \<and>
           cc_value custodian_cell = dc_value cell))
     else Ok False)"

definition check_output_custodian_cells ::
  "ckb_std \<Rightarrow> ckb_env \<Rightarrow> rollup_config \<Rightarrow> global_state \<Rightarrow> block_context \<Rightarrow> deposit_request_cell list \<Rightarrow>
     assets \<Rightarrow> unit checked" where
  "check_output_custodian_cells B e config prev_global_state ctx deposit_cells input_finalized_assets =
     obind (collect_custodian_locks B e (bx_rollup_type_hash ctx) config Outputs) (\<lambda>custodians.
     let (finalized, unfinalized) = partition (custodian_finalized config prev_global_state) custodians in
     obind (match_each (keeps_deposit ctx) XInvalidCustodianCell unfinalized deposit_cells) (\<lambda>rest.
     if rest \<noteq> [] then Err XInvalidDepositCell
     else
     obind (collect_withdrawal_locks B e (bx_rollup_type_hash ctx) config Inputs) (\<lambda>reverted_withdrawals.
     obind (build_assets_map_from_cells (map wc_value reverted_withdrawals)) (\<lambda>reverted_withdrawal_assets.
     obind (build_assets_map_from_cells (map cc_value finalized)) (\<lambda>output_finalized_assets.
     obind (sub_assets_loop XInsufficientOutputFinalizedAssets (fm_rows reverted_withdrawal_assets)
              output_finalized_assets) (\<lambda>output_finalized_assets.
     obind (sub_assets_loop XInsufficientOutputFinalizedAssets (fm_rows input_finalized_assets)
              output_finalized_assets) (\<lambda>output_finalized_assets.
     if \<not> list_all (\<lambda>(_, v). v = 0) (fm_rows output_finalized_assets)
     then Err XInsufficientInputFinalizedAssets
     else Ok ())))))))"

section \<open>Deposits and withdrawals on layer two\<close>

text \<open>The first match of \<open>check_layer2_deposit\<close>: find or create the account.\<close>

definition layer2_deposit_address ::
  "('s, 'x) state_ops_scheme \<Rightarrow> hasher \<Rightarrow> rollup_config \<Rightarrow> deposit_request_cell \<Rightarrow>
     ('s, contract_error, registry_address) sm" where
  "layer2_deposit_address T b2b config request = (
     let registry_id = dl_registry_id (dc_args request) in
     sbind (in_kv (get_account_id_by_script_hash T b2b (dc_account_script_hash request))) (\<lambda>existing.
     case existing of
       Some _ \<Rightarrow>
         sbind (in_kv (get_registry_address_by_script_hash T b2b registry_id (dc_account_script_hash request)))
           (\<lambda>a. lift_o (ok_or XRegistryAddressNotFound a))
     | None \<Rightarrow>
         sbind (in_kv (create_account T b2b (dc_account_script_hash request))) (\<lambda>_.
         sbind (in_kv (lift_o (extract_registry_address_from_deposit (rc_allowed_eoa_type_hashes config)
                  registry_id (sc_code_hash (dc_account_script request)) (sc_args (dc_account_script request)))))
           (\<lambda>addr.
         sbind (in_kv (mapping_registry_address_to_script_hash T b2b addr (dc_account_script_hash request)))
           (\<lambda>_. ret addr)))))"

definition layer2_sudt_id ::
  "('s, 'x) state_ops_scheme \<Rightarrow> hasher \<Rightarrow> h256 \<Rightarrow> ('s, contract_error, u32) sm" where
  "layer2_sudt_id T b2b l2_sudt_script_hash =
     sbind (in_kv (get_account_id_by_script_hash T b2b l2_sudt_script_hash)) (\<lambda>r. case r of
       Some aid \<Rightarrow> ret aid
     | None \<Rightarrow> in_kv (create_account T b2b l2_sudt_script_hash))"

definition check_layer2_deposit_request ::
  "('s, 'x) state_ops_scheme \<Rightarrow> externs \<Rightarrow> h256 \<Rightarrow> rollup_config \<Rightarrow> deposit_request_cell \<Rightarrow>
     ('s, contract_error, unit) sm" where
  "check_layer2_deposit_request T E rollup_type_hash config request = (
     let b2b = blake2b E; v = dc_value request in
     if sc_hash_type (dc_account_script request) \<noteq> script_hash_type_to_byte Type then fail XUnknownEOAScript
     else
     sbind (layer2_deposit_address T b2b config request) (\<lambda>address.
     sbind (in_kv (mint_sudt T b2b CKB_SUDT_ACCOUNT_ID address (to_layer2 (from_layer1 (cv_capacity v))))) (\<lambda>_.
     if cv_sudt_script_hash v = CKB_SUDT_SCRIPT_ARGS
     then (if cv_amount v \<noteq> 0 then fail XInvalidDepositCell else ret ())
     else
     sbind (lift_o (ok_or XInvalidDepositCell (l2_sudt_script rollup_type_hash config (cv_sudt_script_hash v))))
       (\<lambda>sudt_script.
     sbind (layer2_sudt_id T b2b (script_hash E sudt_script)) (\<lambda>sudt_id.
     if sudt_id = CKB_SUDT_ACCOUNT_ID then fail XInvalidDepositCell
     else in_kv (mint_sudt T b2b sudt_id address (ucast (cv_amount v))))))))"

definition check_layer2_deposit ::
  "('s, 'x) state_ops_scheme \<Rightarrow> externs \<Rightarrow> h256 \<Rightarrow> rollup_config \<Rightarrow> deposit_request_cell list \<Rightarrow>
     ('s, contract_error, unit) sm" where
  "check_layer2_deposit T E rollup_type_hash config deposit_cells =
     sfor deposit_cells (check_layer2_deposit_request T E rollup_type_hash config)"

definition layer2_pay_fee ::
  "('s, 'x) state_ops_scheme \<Rightarrow> hasher \<Rightarrow> registry_address \<Rightarrow> registry_address \<Rightarrow> u256 \<Rightarrow>
     ('s, contract_error, unit) sm" where
  "layer2_pay_fee T b2b payer_address block_producer_address amount =
     sbind (in_kv (burn_sudt T b2b CKB_SUDT_ACCOUNT_ID payer_address amount)) (\<lambda>_.
     in_kv (mint_sudt T b2b CKB_SUDT_ACCOUNT_ID block_producer_address amount))"

text \<open>The match on \<open>build_l2_sudt_script\<close>: burn the withdrawn sUDT.\<close>

definition layer2_burn_sudt ::
  "('s, 'x) state_ops_scheme \<Rightarrow> externs \<Rightarrow> h256 \<Rightarrow> rollup_config \<Rightarrow> raw_withdrawal_request \<Rightarrow>
     registry_address \<Rightarrow> ('s, contract_error, unit) sm" where
  "layer2_burn_sudt T E rollup_type_hash config raw address = (
     case l2_sudt_script rollup_type_hash config (rw_sudt_script_hash raw) of
       Some sudt_script \<Rightarrow>
         sbind (in_kv (get_account_id_by_script_hash T (blake2b E) (script_hash E sudt_script))) (\<lambda>s.
         sbind (lift_o (ok_or (of_common_error MissingKey) s)) (\<lambda>sudt_id.
         in_kv (burn_sudt T (blake2b E) sudt_id address (ucast (rw_amount raw)))))
     | None \<Rightarrow> if rw_amount raw \<noteq> 0 then fail XInvalidWithdrawalRequest else ret ())"

definition check_layer2_withdrawal_request ::
  "('s, 'x) state_ops_scheme \<Rightarrow> externs \<Rightarrow> h256 \<Rightarrow> rollup_config \<Rightarrow> registry_address \<Rightarrow> withdrawal_request \<Rightarrow>
     ('s, contract_error, unit) sm" where
  "check_layer2_withdrawal_request T E rollup_type_hash config block_producer_address request = (
     let raw = wr_raw request; b2b = blake2b E; account_script_hash = rw_account_script_hash raw in
     if rw_chain_id raw \<noteq> rc_chain_id config then fail XInvalidWithdrawalRequest
     else
     sbind (in_kv (get_account_id_by_script_hash T b2b account_script_hash)) (\<lambda>i.
     sbind (lift_o (ok_or (of_common_error MissingKey) i)) (\<lambda>aid.
     sbind (in_kv (get_registry_address_by_script_hash T b2b (rw_registry_id raw) account_script_hash)) (\<lambda>a.
     sbind (lift_o (ok_or XRegistryAddressNotFound a)) (\<lambda>address.
     sbind (layer2_pay_fee T b2b address block_producer_address (ucast (rw_fee raw))) (\<lambda>_.
     sbind (in_kv (burn_sudt T b2b CKB_SUDT_ACCOUNT_ID address (to_layer2 (from_layer1 (rw_capacity raw))))) (\<lambda>_.
     sbind (in_kv (get_nonce T aid)) (\<lambda>nonce.
     if nonce \<noteq> rw_nonce raw then fail XInvalidWithdrawalRequest
     else
     sbind (layer2_burn_sudt T E rollup_type_hash config raw address) (\<lambda>_.
     in_kv (set_nonce T aid (saturating_add nonce 1)))))))))))"

definition check_layer2_withdrawal ::
  "('s, 'x) state_ops_scheme \<Rightarrow> externs \<Rightarrow> h256 \<Rightarrow> rollup_config \<Rightarrow> l2block \<Rightarrow>
     ('s, contract_error, unit) sm" where
  "check_layer2_withdrawal T E rollup_type_hash config block = (
     let withdrawals = lb_withdrawals block in
     if withdrawals = [] then ret ()
     else
     sbind (lift_o (ok_or XEncoding (from_slice (rb_block_producer (lb_raw block))))) (\<lambda>block_producer_address.
     sfor withdrawals (check_layer2_withdrawal_request T E rollup_type_hash config block_producer_address)))"

section \<open>The block against the global states\<close>

definition BACKBONE_BIAS :: u64 where "BACKBONE_BIAS = 14400000"

definition rollup_input_timestamp :: "ckb_std \<Rightarrow> ckb_env \<Rightarrow> u64 checked" where
  "rollup_input_timestamp B e =
     obind (load_input_since e 0 GroupInputs) (absolute_timestamp_since B)"

definition check_block_timestamp :: "ckb_std \<Rightarrow> ckb_env \<Rightarrow> global_state \<Rightarrow> u64 \<Rightarrow> unit checked" where
  "check_block_timestamp B e post_global_state block_timestamp = (
     if block_timestamp \<noteq> gs_tip_block_timestamp post_global_state then Err XInvalidBlock
     else
     let post_version = gs_version post_global_state in
     obind (if fork_block_timestamp_lower_than_since post_version then
              obind (rollup_input_timestamp B e) (\<lambda>t.
              if t \<le> block_timestamp then Err XInvalidPostGlobalState else Ok ())
            else Ok ()) (\<lambda>_.
     if fork_block_timestamp_in_l1_backbone_range post_version then
       (case from_full_value (gs_last_finalized_timepoint post_global_state) of
          BlockNumber _ \<Rightarrow> Panic
        | Timestamp backbone \<Rightarrow>
            if \<not> (saturating_sub backbone BACKBONE_BIAS \<le> block_timestamp \<and>
                  block_timestamp \<le> saturating_add backbone BACKBONE_BIAS)
            then Err XInvalidBlock
            else Ok ())
     else Ok ()))"

text \<open>A tree of one leaf proved against a root: \<open>update\<close>, then \<open>verify\<close>.\<close>

definition verify_leaf :: "'t smt_tree \<Rightarrow> nat \<Rightarrow> h256 \<Rightarrow> h256 \<Rightarrow> h256 \<Rightarrow> bytes \<Rightarrow> unit checked" where
  "verify_leaf M buf_len key value root proof =
     obind (ok_or XMerkleProof (tr_update M key value (tr_new M buf_len))) (\<lambda>t.
     if tr_verify M root proof t then Ok () else Err XMerkleProof)"

definition GW_MAX_KV_PAIRS :: nat where "GW_MAX_KV_PAIRS = 1024"

definition load_kv_state :: "'t smt_tree \<Rightarrow> l2block \<Rightarrow> global_state \<Rightarrow> 't kv_state checked" where
  "load_kv_state M l2block prev_global_state = (
     let account_count = ams_count (gs_account prev_global_state);
         prev_account_root = ams_merkle_root (gs_account prev_global_state) in
     obind (kv_build M GW_MAX_KV_PAIRS (lb_kv_state l2block) (lb_kv_state_proof l2block) account_count
              (Some prev_account_root)) (\<lambda>kv_state.
     if \<not> kv_is_empty M kv_state then
       (case in_kv (kv_calculate_root M) kv_state of
          (Ok root, kv_state) \<Rightarrow> if root \<noteq> prev_account_root then Err XMerkleProof else Ok kv_state
        | (Err err, _) \<Rightarrow> Err err
        | (Panic, _) \<Rightarrow> Panic)
     else Ok kv_state))"

definition load_block_context_and_state ::
  "ckb_std \<Rightarrow> 't smt_tree \<Rightarrow> ckb_env \<Rightarrow> h256 \<Rightarrow> rollup_config \<Rightarrow> l2block \<Rightarrow> global_state \<Rightarrow> global_state \<Rightarrow>
     (block_context \<times> 't kv_state) checked" where
  "load_block_context_and_state B M e rollup_type_hash config l2block prev_global_state post_global_state = (
     let raw_block = lb_raw l2block; number = rb_number raw_block; timestamp = rb_timestamp raw_block;
         block_smt_key = compute_smt_key number; block_proof = lb_block_proof l2block;
         block_hash = raw_l2block_hash (ck_externs B) raw_block in
     if number \<noteq> bms_count (gs_block prev_global_state) then Err XInvalidBlock
     else
     obind (check_block_timestamp B e post_global_state timestamp) (\<lambda>_.
     if rb_parent_block_hash raw_block \<noteq> gs_tip_block_hash prev_global_state then Err XInvalidBlock
     else
     obind (verify_leaf M 256 block_smt_key h256_zero (bms_merkle_root (gs_block prev_global_state)) block_proof) (\<lambda>_.
     obind (add_or_panic number 1) (\<lambda>next_number.
     if next_number \<noteq> bms_count (gs_block post_global_state) then Err XInvalidBlock
     else
     obind (verify_leaf M 256 block_smt_key block_hash (bms_merkle_root (gs_block post_global_state)) block_proof) (\<lambda>_.
     if rb_prev_account raw_block \<noteq> gs_account prev_global_state then Err XInvalidBlock
     else if rb_post_account raw_block \<noteq> gs_account post_global_state then Err XInvalidPostGlobalState
     else
     obind (load_kv_state M l2block prev_global_state) (\<lambda>kv_state.
     Ok (\<lparr> bx_number = number, bx_timestamp = timestamp, bx_block_hash = block_hash,
           bx_rollup_type_hash = rollup_type_hash,
           bx_prev_account_root = ams_merkle_root (gs_account prev_global_state),
           bx_post_version = gs_version post_global_state,
           bx_finality_time_in_ms = finality_time_in_ms config \<rparr>, kv_state)))))))"

definition check_stake_follows :: "block_context \<Rightarrow> stake_cell \<Rightarrow> stake_cell \<Rightarrow> unit checked" where
  "check_stake_follows ctx input_stake_cell output_stake_cell =
     obind (finalized_timepoint ctx) (\<lambda>tp.
     let expected_stake_lock_args = (sk_args input_stake_cell)\<lparr> sl_stake_finalized_timepoint := full_value tp \<rparr> in
     if expected_stake_lock_args \<noteq> sk_args output_stake_cell \<or>
        sk_capacity input_stake_cell > sk_capacity output_stake_cell
     then Err XInvalidStakeCell
     else Ok ())"

definition verify_block_producer ::
  "ckb_std \<Rightarrow> ckb_env \<Rightarrow> rollup_config \<Rightarrow> block_context \<Rightarrow> l2block \<Rightarrow> unit checked" where
  "verify_block_producer B e config ctx block = (
     let owner_lock_hash = rb_stake_cell_owner_lock_hash (lb_raw block) in
     obind (find_block_producer_stake_cell B e (bx_rollup_type_hash ctx) config Outputs owner_lock_hash) (\<lambda>out.
     obind (ok_or XInvalidStakeCell out) (\<lambda>output_stake_cell.
     if sk_capacity output_stake_cell < rc_required_staking_capacity config then Err XInvalidStakeCell
     else
     obind (find_block_producer_stake_cell B e (bx_rollup_type_hash ctx) config Inputs owner_lock_hash) (\<lambda>inp.
     case inp of
       Some input_stake_cell \<Rightarrow> check_stake_follows ctx input_stake_cell output_stake_cell
     | None \<Rightarrow> Ok ()))))"

definition post_state_checkpoint :: "ckb_std \<Rightarrow> raw_l2block \<Rightarrow> h256" where
  "post_state_checkpoint B raw_block =
     state_checkpoint_of (blake2b (ck_externs B)) (ams_merkle_root (rb_post_account raw_block))
       (ams_count (rb_post_account raw_block))"

definition check_state_checkpoints :: "ckb_std \<Rightarrow> l2block \<Rightarrow> unit checked" where
  "check_state_checkpoints B block = (
     let raw_block = lb_raw block; checkpoint_list = rb_state_checkpoint_list raw_block in
     if length checkpoint_list \<noteq> length (lb_withdrawals block) + length (lb_transactions block)
     then Err XInvalidStateCheckpoint
     else
     obind (if lb_transactions block = []
            then Ok (st_prev_state_checkpoint (rb_submit_transactions raw_block))
            else ok_or XInvalidStateCheckpoint (vec_last checkpoint_list)) (\<lambda>last_state_checkpoint.
     if last_state_checkpoint \<noteq> post_state_checkpoint B raw_block then Err XInvalidStateCheckpoint
     else Ok ()))"

definition merkle_leaves :: "ckb_std \<Rightarrow> ('a \<Rightarrow> h256) \<Rightarrow> 'a list \<Rightarrow> h256 list" where
  "merkle_leaves B witness_hash xs =
     map (\<lambda>(idx, x). ckb_merkle_leaf_hash (blake2b (ck_externs B)) (of_nat idx) (witness_hash x)) (enumerate 0 xs)"

definition check_block_withdrawals :: "ckb_std \<Rightarrow> l2block \<Rightarrow> unit checked" where
  "check_block_withdrawals B block = (
     let submit_withdrawals = rb_submit_withdrawals (lb_raw block); E = ck_externs B in
     if sw_withdrawal_count submit_withdrawals \<noteq> of_nat (length (lb_withdrawals block)) then Err XInvalidBlock
     else if sw_withdrawal_witness_root submit_withdrawals \<noteq>
       calculate_ckb_merkle_root E (merkle_leaves B (withdrawal_request_witness_hash E) (lb_withdrawals block))
     then Err XMerkleProof
     else Ok ())"

definition check_post_checkpoint :: "ckb_std \<Rightarrow> l2block \<Rightarrow> u8 \<Rightarrow> unit checked" where
  "check_post_checkpoint B block post_version = (
     let raw_block = lb_raw block;
         prev_state_checkpoint = st_prev_state_checkpoint (rb_submit_transactions raw_block);
         block_post_state_root = post_state_checkpoint B raw_block;
         is_transactions_empty = (lb_transactions block = []) in
     if is_transactions_empty \<and> prev_state_checkpoint \<noteq> block_post_state_root then Err XInvalidStateCheckpoint
     else if \<not> is_transactions_empty \<and> fork_state_checkpoint_list post_version then
       obind (ok_or XInvalidStateCheckpoint (vec_last (rb_state_checkpoint_list raw_block))) (\<lambda>last_state_checkpoint.
       if last_state_checkpoint \<noteq> block_post_state_root then Err XInvalidStateCheckpoint else Ok ())
     else Ok ())"

definition check_block_transactions ::
  "ckb_std \<Rightarrow> ('s, 'x) state_ops_scheme \<Rightarrow> l2block \<Rightarrow> u8 \<Rightarrow> ('s, contract_error, unit) sm" where
  "check_block_transactions B T block post_version = (
     let submit_transactions = rb_submit_transactions (lb_raw block); E = ck_externs B in
     if st_tx_count submit_transactions \<noteq> of_nat (length (lb_transactions block)) then fail XInvalidBlock
     else if st_tx_witness_root submit_transactions \<noteq>
       calculate_ckb_merkle_root E (merkle_leaves B (l2transaction_witness_hash E) (lb_transactions block))
     then fail XMerkleProof
     else
     sbind (in_kv (calculate_state_checkpoint T (blake2b E))) (\<lambda>checkpoint.
     if checkpoint \<noteq> st_prev_state_checkpoint submit_transactions then fail XInvalidStateCheckpoint
     else lift_o (check_post_checkpoint B block post_version)))"

definition check_global_state_tip_block_timestamp :: "global_state \<Rightarrow> global_state \<Rightarrow> unit checked" where
  "check_global_state_tip_block_timestamp prev_global_state post_global_state = (
     if \<not> (gs_tip_block_timestamp prev_global_state < gs_tip_block_timestamp post_global_state)
     then Err XInvalidPostGlobalState
     else Ok ())"

definition check_global_state_last_finalized_timepoint ::
  "ckb_std \<Rightarrow> ckb_env \<Rightarrow> rollup_config \<Rightarrow> block_context \<Rightarrow> global_state \<Rightarrow> global_state \<Rightarrow> unit checked" where
  "check_global_state_last_finalized_timepoint B e config ctx prev_global_state post_global_state = (
     if gs_last_finalized_timepoint prev_global_state > gs_last_finalized_timepoint post_global_state
     then Err XInvalidPostGlobalState
     else
     let last_finalized_timepoint = from_full_value (gs_last_finalized_timepoint post_global_state) in
     case (fork_timestamp_as_timepoint (bx_post_version ctx), last_finalized_timepoint) of
       (False, BlockNumber last_finalized_block_number) \<Rightarrow>
         if last_finalized_block_number \<noteq> saturating_sub (bx_number ctx) (rc_finality_blocks config)
         then Err XInvalidPostGlobalState
         else Ok ()
     | (True, Timestamp current_timestamp) \<Rightarrow>
         obind (rollup_input_timestamp B e) (\<lambda>t.
         if \<not> (current_timestamp < t) then Err XInvalidPostGlobalState else Ok ())
     | _ \<Rightarrow> Err XInvalidPostGlobalState)"

definition check_cells ::
  "ckb_std \<Rightarrow> ckb_env \<Rightarrow> rollup_config \<Rightarrow> block_context \<Rightarrow> l2block \<Rightarrow> global_state \<Rightarrow>
     deposit_request_cell list checked" where
  "check_cells B e config ctx block prev_global_state =
     obind (collect_withdrawal_locks B e (bx_rollup_type_hash ctx) config Outputs) (\<lambda>withdrawal_cells.
     obind (collect_deposit_locks B e (bx_rollup_type_hash ctx) config Inputs) (\<lambda>deposit_cells.
     obind (check_withdrawal_cells ctx (lb_withdrawals block) withdrawal_cells) (\<lambda>_.
     obind (check_input_custodian_cells B e config prev_global_state ctx withdrawal_cells) (\<lambda>input_finalized_assets.
     obind (check_output_custodian_cells B e config prev_global_state ctx deposit_cells input_finalized_assets) (\<lambda>_.
     Ok deposit_cells)))))"

definition no_challenge_cell :: "ckb_std \<Rightarrow> ckb_env \<Rightarrow> h256 \<Rightarrow> rollup_config \<Rightarrow> unit checked" where
  "no_challenge_cell B e rollup_type_hash config =
     obind (find_challenge_cell B e rollup_type_hash config Inputs) (\<lambda>c.
     if c \<noteq> None then Err XInvalidChallengeCell
     else
     obind (find_challenge_cell B e rollup_type_hash config Outputs) (\<lambda>c.
     if c \<noteq> None then Err XInvalidChallengeCell else Ok ()))"

definition expected_post_global_state :: "block_context \<Rightarrow> l2block \<Rightarrow> global_state \<Rightarrow> global_state \<Rightarrow> global_state" where
  "expected_post_global_state ctx block prev_global_state post_global_state = prev_global_state\<lparr>
     gs_account := rb_post_account (lb_raw block),
     gs_block := gs_block post_global_state,
     gs_tip_block_hash := bx_block_hash ctx,
     gs_tip_block_timestamp := (if bx_post_version ctx = 0 then 0 else bx_timestamp ctx),
     gs_last_finalized_timepoint := gs_last_finalized_timepoint post_global_state,
     gs_version := bx_post_version ctx \<rparr>"

text \<open>The account state of the block: withdrawals, then deposits, then the checkpoint.\<close>

definition check_account_state ::
  "ckb_std \<Rightarrow> ('s, 'x) state_ops_scheme \<Rightarrow> h256 \<Rightarrow> rollup_config \<Rightarrow> l2block \<Rightarrow> deposit_request_cell list \<Rightarrow> u8 \<Rightarrow>
     ('s, contract_error, unit) sm" where
  "check_account_state B T rollup_type_hash config block deposit_cells post_version =
     sbind (check_layer2_withdrawal T (ck_externs B) rollup_type_hash config block) (\<lambda>_.
     sbind (check_layer2_deposit T (ck_externs B) rollup_type_hash config deposit_cells) (\<lambda>_.
     check_block_transactions B T block post_version))"

definition submit_block_verify ::
  "ckb_std \<Rightarrow> 't smt_tree \<Rightarrow> ckb_env \<Rightarrow> h256 \<Rightarrow> rollup_config \<Rightarrow> l2block \<Rightarrow> global_state \<Rightarrow> global_state \<Rightarrow>
     unit checked" where
  "submit_block_verify B M e rollup_type_hash config block prev_global_state post_global_state =
     obind (check_status prev_global_state Running) (\<lambda>_.
     obind (check_state_checkpoints B block) (\<lambda>_.
     obind (check_block_withdrawals B block) (\<lambda>_.
     obind (load_block_context_and_state B M e rollup_type_hash config block prev_global_state post_global_state)
       (\<lambda>(ctx, kv_state).
     obind (verify_block_producer B e config ctx block) (\<lambda>_.
     obind (check_cells B e config ctx block prev_global_state) (\<lambda>deposit_cells.
     obind (no_challenge_cell B e rollup_type_hash config) (\<lambda>_.
     obind (fst (check_account_state B (kv_state_ops M) rollup_type_hash config block deposit_cells
              (bx_post_version ctx) kv_state)) (\<lambda>_.
     obind (check_global_state_tip_block_timestamp prev_global_state post_global_state) (\<lambda>_.
     obind (check_global_state_last_finalized_timepoint B e config ctx prev_global_state post_global_state) (\<lambda>_.
     if expected_post_global_state ctx block prev_global_state post_global_state \<noteq> post_global_state
     then Err XInvalidPostGlobalState
     else Ok ()))))))))))"

definition verify_reverted_block_hashes ::
  "'t smt_tree \<Rightarrow> h256 list \<Rightarrow> bytes \<Rightarrow> global_state \<Rightarrow> unit checked" where
  "verify_reverted_block_hashes M reverted_block_hashes reverted_block_proof prev_global_state = (
     if reverted_block_hashes = [] \<and> reverted_block_proof = [] then Ok ()
     else
     obind (tree_updates M XMerkleProof (map (\<lambda>key. (key, h256_one)) reverted_block_hashes) (tr_new M 256)) (\<lambda>t.
     if tr_verify M (gs_reverted_block_root prev_global_state) reverted_block_proof t then Ok ()
     else Err XMerkleProof))"

end
