(* ===== verification/Gw_Challenge.thy ===== *)
theory Gw_Challenge
  imports Gw_Submit Gw_Tx
begin

text \<open>
  The challenge lock (\<open>contracts/challenge-lock/src\<close>): a challenge is cancelled by a witness that
  the challenged transaction or withdrawal is valid. The EIP-712 messages an account signs
  (\<open>verifications/eip712\<close>) are modelled down to the bytes that are hashed.

  Keccak-256, the ABI and RLP encoders, the Merkle proofs of \<open>merkle-cbt\<close> and the molecule readers
  of the witnesses are code outside the sources: they are the fields of \<open>challenge_std\<close>.
\<close>

section \<open>Witnesses\<close>

record ckb_merkle_proof =
  mp_indices :: "u32 list"
  mp_lemmas :: "h256 list"

record cc_transaction_witness =
  ct_l2tx :: l2transaction
  ct_raw_l2block :: raw_l2block
  ct_tx_proof :: ckb_merkle_proof
  ct_kv_state_proof :: bytes
  ct_block_hashes_proof :: bytes
  ct_account_count :: u32
  ct_kv_state :: "(h256 \<times> h256) list"
  ct_load_data :: "bytes list"
  ct_scripts :: "script list"
  ct_return_data_hash :: h256
  ct_block_hashes :: "(u64 \<times> h256) list"

record cc_signature_witness =
  cg_raw_l2block :: raw_l2block
  cg_l2tx :: l2transaction
  cg_tx_proof :: ckb_merkle_proof
  cg_kv_state :: "(h256 \<times> h256) list"
  cg_kv_state_proof :: bytes
  cg_account_count :: u32
  cg_sender :: script
  cg_receiver :: script

record cc_withdrawal_witness =
  cd_raw_l2block :: raw_l2block
  cd_withdrawal :: withdrawal_request
  cd_sender :: script
  cd_owner_lock :: script
  cd_withdrawal_proof :: ckb_merkle_proof
  cd_kv_state_proof :: bytes
  cd_kv_state :: "(h256 \<times> h256) list"
  cd_account_count :: u32

datatype rlp_item = RlpUint nat | RlpBytes bytes

record challenge_std =
  keccak256 :: "bytes \<Rightarrow> h256"
  abi_uint :: "nat \<Rightarrow> bytes"
  abi_bytes32 :: "h256 \<Rightarrow> bytes"
  abi_address :: "bytes \<Rightarrow> bytes"
  rlp_list :: "rlp_item list \<Rightarrow> bytes"
  cbmt_verify :: "ckb_merkle_proof \<Rightarrow> h256 \<Rightarrow> h256 list \<Rightarrow> bool"
  rd_cc_transaction :: "bytes \<Rightarrow> cc_transaction_witness option"
  rd_cc_signature :: "bytes \<Rightarrow> cc_signature_witness option"
  rd_cc_withdrawal :: "bytes \<Rightarrow> cc_withdrawal_witness option"

section \<open>EIP-712\<close>

text \<open>The trait \<open>EIP712Encode\<close>: what \<open>encode_type\<close> and \<open>encode_data\<close> append to the buffer.\<close>

record eip712_struct =
  es_type :: bytes
  es_data :: bytes

definition string_bytes :: "string \<Rightarrow> bytes" where "string_bytes s = map of_char s"

definition hash_struct :: "challenge_std \<Rightarrow> eip712_struct \<Rightarrow> h256" where
  "hash_struct K s = (
     let type_hash = keccak256 K (es_type s); encoded_data = es_data s in
     keccak256 K (as_slice type_hash @ encoded_data))"

definition eip712_message :: "challenge_std \<Rightarrow> eip712_struct \<Rightarrow> h256 \<Rightarrow> h256" where
  "eip712_message K s domain_seperator =
     keccak256 K ([0x19, 0x01] @ as_slice domain_seperator @ as_slice (hash_struct K s))"

record eip712_script =
  ec_code_hash :: h256
  ec_hash_type :: string
  ec_args :: bytes

definition script_eip712 :: "challenge_std \<Rightarrow> eip712_script \<Rightarrow> eip712_struct" where
  "script_eip712 K s = \<lparr>
     es_type = string_bytes ''Script(bytes32 codeHash,string hashType,bytes args)'',
     es_data = abi_bytes32 K (ec_code_hash s) @
       abi_bytes32 K (keccak256 K (string_bytes (ec_hash_type s))) @
       abi_bytes32 K (keccak256 K (ec_args s)) \<rparr>"

record withdrawal_asset =
  ea_ckb_capacity :: u64
  ea_udt_amount :: u128
  ea_udt_script_hash :: h256

definition asset_eip712 :: "challenge_std \<Rightarrow> withdrawal_asset \<Rightarrow> eip712_struct" where
  "asset_eip712 K a = \<lparr>
     es_type = string_bytes ''WithdrawalAsset(uint256 ckbCapacity,uint256 UDTAmount,bytes32 UDTScriptHash)'',
     es_data = abi_uint K (unat (ea_ckb_capacity a)) @ abi_uint K (unat (ea_udt_amount a)) @
       abi_bytes32 K (ea_udt_script_hash a) \<rparr>"

text \<open>\<open>AddressRegistry\<close> has the one constructor \<open>ETH\<close>.\<close>

record eip712_address =
  er_registry :: string
  er_address :: bytes

definition eip712_from_address :: "registry_address \<Rightarrow> eip712_address checked" where
  "eip712_from_address address = (
     if ra_registry_id address \<noteq> ETH_REGISTRY_ACCOUNT_ID then Err XInvalidArgs
     else if length (ra_address address) \<noteq> 20 then Err XInvalidArgs
     else Ok \<lparr> er_registry = ''ETH'', er_address = ra_address address \<rparr>)"

definition address_eip712 :: "challenge_std \<Rightarrow> eip712_address \<Rightarrow> eip712_struct" where
  "address_eip712 K a = \<lparr>
     es_type = string_bytes ''RegistryAddress(string registry,address address)'',
     es_data = abi_bytes32 K (keccak256 K (string_bytes (er_registry a))) @ abi_address K (er_address a) \<rparr>"

record eip712_l2transaction =
  et_chain_id :: u64
  et_from :: eip712_address
  et_to :: h256
  et_nonce :: u32
  et_args :: bytes

definition transaction_eip712 :: "challenge_std \<Rightarrow> eip712_l2transaction \<Rightarrow> eip712_struct" where
  "transaction_eip712 K t = \<lparr>
     es_type = string_bytes ''L2Transaction(uint256 chainId,RegistryAddress from,bytes32 to,uint256 nonce,bytes args)'' @
       es_type (address_eip712 K (et_from t)),
     es_data = abi_uint K (unat (et_chain_id t)) @
       abi_bytes32 K (hash_struct K (address_eip712 K (et_from t))) @
       abi_bytes32 K (et_to t) @ abi_uint K (unat (et_nonce t)) @
       abi_bytes32 K (keccak256 K (et_args t)) \<rparr>"

definition transaction_from_raw ::
  "raw_l2transaction \<Rightarrow> registry_address \<Rightarrow> h256 \<Rightarrow> eip712_l2transaction checked" where
  "transaction_from_raw data sender_address to_script_hash =
     obind (eip712_from_address sender_address) (\<lambda>sender_address.
     Ok \<lparr> et_chain_id = rtx_chain_id data, et_from = sender_address, et_to = to_script_hash,
          et_nonce = rtx_nonce data, et_args = rtx_args data \<rparr>)"

record eip712_withdrawal =
  ew_address :: eip712_address
  ew_nonce :: u32
  ew_chain_id :: u64
  ew_fee :: u128
  ew_layer1_owner_lock :: eip712_script
  ew_withdraw :: withdrawal_asset

definition withdrawal_eip712 :: "challenge_std \<Rightarrow> eip712_withdrawal \<Rightarrow> eip712_struct" where
  "withdrawal_eip712 K w = \<lparr>
     es_type = string_bytes ''Withdrawal(RegistryAddress address,uint256 nonce,uint256 chainId,uint256 fee,Script layer1OwnerLock,WithdrawalAsset withdraw)'' @
       es_type (address_eip712 K (ew_address w)) @ es_type (script_eip712 K (ew_layer1_owner_lock w)) @
       es_type (asset_eip712 K (ew_withdraw w)),
     es_data = abi_bytes32 K (hash_struct K (address_eip712 K (ew_address w))) @
       abi_uint K (unat (ew_nonce w)) @ abi_uint K (unat (ew_chain_id w)) @ abi_uint K (unat (ew_fee w)) @
       abi_bytes32 K (hash_struct K (script_eip712 K (ew_layer1_owner_lock w))) @
       abi_bytes32 K (hash_struct K (asset_eip712 K (ew_withdraw w))) \<rparr>"

definition withdrawal_from_raw ::
  "raw_withdrawal_request \<Rightarrow> script \<Rightarrow> registry_address \<Rightarrow> eip712_withdrawal checked" where
  "withdrawal_from_raw data owner_lock address =
     obind (omap_err (\<lambda>_. XInvalidArgs) (script_hash_type_try_from (sc_hash_type owner_lock))) (\<lambda>t.
     let hash_type = (case t of Data \<Rightarrow> ''data'' | Type \<Rightarrow> ''type'') in
     obind (eip712_from_address address) (\<lambda>address.
     Ok \<lparr> ew_address = address, ew_nonce = rw_nonce data, ew_chain_id = rw_chain_id data, ew_fee = rw_fee data,
          ew_layer1_owner_lock = \<lparr> ec_code_hash = sc_code_hash owner_lock, ec_hash_type = hash_type,
            ec_args = sc_args owner_lock \<rparr>,
          ew_withdraw = \<lparr> ea_ckb_capacity = rw_capacity data, ea_udt_amount = rw_amount data,
            ea_udt_script_hash = rw_sudt_script_hash data \<rparr> \<rparr>))"

record eip712_domain =
  ed_name :: string
  ed_version :: string
  ed_chain_id :: u64
  ed_verifying_contract :: "bytes option"
  ed_salt :: "h256 option"

definition domain_with_chain_id :: "u64 \<Rightarrow> eip712_domain" where
  "domain_with_chain_id chain_id = \<lparr> ed_name = ''Godwoken'', ed_version = ''1'', ed_chain_id = chain_id,
     ed_verifying_contract = None, ed_salt = None \<rparr>"

definition domain_eip712 :: "challenge_std \<Rightarrow> eip712_domain \<Rightarrow> eip712_struct" where
  "domain_eip712 K d = \<lparr>
     es_type = string_bytes ''EIP712Domain('' @ string_bytes ''string name,string version,uint256 chainId'' @
       (if ed_verifying_contract d \<noteq> None then string_bytes '',address verifyingContract'' else []) @
       (if ed_salt d \<noteq> None then string_bytes '',bytes32 salt'' else []) @ string_bytes '')'',
     es_data = abi_bytes32 K (keccak256 K (string_bytes (ed_name d))) @
       abi_bytes32 K (keccak256 K (string_bytes (ed_version d))) @ abi_uint K (unat (ed_chain_id d)) @
       (case ed_verifying_contract d of Some c \<Rightarrow> abi_address K c | None \<Rightarrow> []) @
       (case ed_salt d of Some s \<Rightarrow> abi_bytes32 K s | None \<Rightarrow> []) \<rparr>"

section \<open>Signatures\<close>

datatype signing_type = Raw | WithPrefix

definition signing_type_try_from :: "u8 \<Rightarrow> (u8, signing_type) outcome" where
  "signing_type_try_from v = (if v = 0 then Ok Raw else if v = 1 then Ok WithPrefix else Err v)"

text \<open>
  The loop over the cells of the account. The system call reads the data from byte 32 into a
  buffer of 33 bytes and fails when more is left.
\<close>

fun signature_cell_loop :: "ckb_env \<Rightarrow> signing_type \<Rightarrow> h256 \<Rightarrow> nat list \<Rightarrow> unit checked" where
  "signature_cell_loop e expected_signing_type message [] = Err XAccountLockCellNotFound"
| "signature_cell_loop e expected_signing_type message (index # indices) =
     obind (load_cell_data e index Inputs) (\<lambda>cell_data.
     let data = drop 32 cell_data in
     if length data > 33 then Err XLengthNotEnough
     else if length data = 33 \<and> signing_type_try_from (hd data) = Ok expected_signing_type \<and> tl data = as_slice message
     then Ok ()
     else signature_cell_loop e expected_signing_type message indices)"

definition check_l2_account_signature_cell ::
  "ckb_std \<Rightarrow> ckb_env \<Rightarrow> h256 \<Rightarrow> signing_type \<Rightarrow> h256 \<Rightarrow> unit checked" where
  "check_l2_account_signature_cell B e account_script_hash expected_signing_type message =
     signature_cell_loop e expected_signing_type message (search_lock_hashes B e account_script_hash Inputs)"

section \<open>The context of a challenged transaction\<close>

record 't tx_context_input =
  ti_tx :: l2transaction
  ti_kv_state :: "'t kv_state"
  ti_scripts :: "script list"
  ti_raw_block :: raw_l2block
  ti_target :: challenge_target
  ti_tx_proof :: ckb_merkle_proof

record tx_context =
  tc_sender_script_hash :: h256
  tc_receiver_script_hash :: h256
  tc_sender :: script
  tc_receiver :: script
  tc_sender_address :: registry_address

definition tx_prev_state_checkpoint :: "raw_l2block \<Rightarrow> u32 \<Rightarrow> h256 checked" where
  "tx_prev_state_checkpoint raw_block tx_index = (case checked_sub tx_index 1 of
     Some tx_prev_state_checkpoint_index \<Rightarrow>
       obind (add_or_panic (sw_withdrawal_count (rb_submit_withdrawals raw_block)) tx_prev_state_checkpoint_index) (\<lambda>i.
       if unat i < length (rb_state_checkpoint_list raw_block)
       then Ok (rb_state_checkpoint_list raw_block ! unat i)
       else Err XInvalidStateCheckpoint)
   | None \<Rightarrow> Ok (st_prev_state_checkpoint (rb_submit_transactions raw_block)))"

text \<open>The part between the nonce and the state: the scripts, the block and the proof of the transaction.\<close>

definition check_tx_scripts ::
  "ckb_std \<Rightarrow> challenge_std \<Rightarrow> rollup_config \<Rightarrow> 't tx_context_input \<Rightarrow> h256 \<Rightarrow> h256 \<Rightarrow> (script \<times> script) checked" where
  "check_tx_scripts B K rollup_config input sender_script_hash receiver_script_hash = (
     let scripts = ti_scripts input; raw_block = ti_raw_block input; target = ti_target input; E = ck_externs B in
     obind (ok_or XScriptNotFound (find (\<lambda>s. hash_of B s = sender_script_hash) scripts)) (\<lambda>sender_script.
     obind (ok_or XScriptNotFound (find (\<lambda>s. hash_of B s = receiver_script_hash) scripts)) (\<lambda>receiver_script.
     if sc_hash_type sender_script \<noteq> script_hash_type_to_byte Type then Err XUnknownEOAScript
     else if \<not> list_ex (\<lambda>t. ath_hash t = sc_code_hash sender_script) (rc_allowed_eoa_type_hashes rollup_config)
     then Err XUnknownEOAScript
     else if sc_hash_type receiver_script \<noteq> script_hash_type_to_byte Type then Err XUnknownContractScript
     else if \<not> list_ex (\<lambda>t. ath_hash t = sc_code_hash receiver_script) (rc_allowed_contract_type_hashes rollup_config)
     then Err XUnknownContractScript
     else if raw_l2block_hash E raw_block \<noteq> ct_block_hash target then Err XInvalidBlock
     else if \<not> cbmt_verify K (ti_tx_proof input) (st_tx_witness_root (rb_submit_transactions raw_block))
       [ckb_merkle_leaf_hash (blake2b E) (ct_target_index target) (l2transaction_witness_hash E (ti_tx input))]
     then Err XMerkleProof
     else Ok (sender_script, receiver_script))))"

definition verify_tx_context ::
  "ckb_std \<Rightarrow> challenge_std \<Rightarrow> 't smt_tree \<Rightarrow> rollup_config \<Rightarrow> 't tx_context_input \<Rightarrow> tx_context checked" where
  "verify_tx_context B K M rollup_config input = (
     let raw_tx = tx_raw (ti_tx input); raw_block = ti_raw_block input; T = kv_state_ops M;
         b2b = blake2b (ck_externs B) in
     fst (
     sbind (map_err (\<lambda>_. XSMTKeyMissing) (get_script_hash T (rtx_from_id raw_tx))) (\<lambda>sender_script_hash.
     sbind (map_err (\<lambda>_. XSMTKeyMissing) (get_script_hash T (rtx_to_id raw_tx))) (\<lambda>receiver_script_hash.
     sbind (in_kv (get_nonce T (rtx_from_id raw_tx))) (\<lambda>sender_nonce.
     if rtx_nonce raw_tx \<noteq> sender_nonce then fail XUnexpectedTxNonce
     else
     sbind (lift_o (check_tx_scripts B K rollup_config input sender_script_hash receiver_script_hash))
       (\<lambda>(sender_script, receiver_script).
     sbind (lift_o (tx_prev_state_checkpoint raw_block (ct_target_index (ti_target input)))) (\<lambda>prev_state_checkpoint.
     sbind (map_err (\<lambda>_. XMerkleProof) (st_calculate_root T)) (\<lambda>state_root.
     sbind (in_kv (st_get_account_count T)) (\<lambda>account_count.
     if prev_state_checkpoint \<noteq> state_checkpoint_of b2b state_root account_count then fail XMerkleProof
     else
     sbind (in_kv (get_registry_address_by_script_hash T b2b ETH_REGISTRY_ACCOUNT_ID sender_script_hash)) (\<lambda>a.
     sbind (lift_o (ok_or XRegistryAddressNotFound a)) (\<lambda>sender_address.
     ret \<lparr> tc_sender_script_hash = sender_script_hash, tc_receiver_script_hash = receiver_script_hash,
            tc_sender = sender_script, tc_receiver = receiver_script, tc_sender_address = sender_address \<rparr>)))))))))
     (ti_kv_state input)))"

section \<open>The three targets\<close>

definition verify_tx_execution ::
  "ckb_std \<Rightarrow> challenge_std \<Rightarrow> 't smt_tree \<Rightarrow> ckb_env \<Rightarrow> rollup_config \<Rightarrow> challenge_lock_args \<Rightarrow> unit checked" where
  "verify_tx_execution B K M e rollup_config lock_args =
     obind (load_witness e 0 GroupInputs) (\<lambda>w.
     if length w > MAX_ROLLUP_WITNESS_SIZE then Err XLengthNotEnough
     else
     obind (ok_or XEncoding (rd_witness_args B w)) (\<lambda>reader.
     obind (ok_or XInvalidArgs (wa_lock reader)) (\<lambda>witness_args.
     obind (ok_or XInvalidArgs (rd_cc_transaction K witness_args)) (\<lambda>unlock_args.
     obind (kv_build M GW_MAX_KV_PAIRS (ct_kv_state unlock_args) (ct_kv_state_proof unlock_args)
              (ct_account_count unlock_args) None) (\<lambda>kv_state.
     obind (verify_tx_context B K M rollup_config \<lparr> ti_tx = ct_l2tx unlock_args, ti_kv_state = kv_state,
              ti_scripts = ct_scripts unlock_args, ti_raw_block = ct_raw_l2block unlock_args,
              ti_target = ch_target lock_args, ti_tx_proof = ct_tx_proof unlock_args \<rparr>) (\<lambda>ctx.
     if search_lock_hash B e (tc_receiver_script_hash ctx) Inputs = None then Err XAccountScriptCellNotFound
     else Ok ()))))))"

definition try_assemble_polyjuice_args ::
  "ckb_std \<Rightarrow> challenge_std \<Rightarrow> raw_l2transaction \<Rightarrow> script \<Rightarrow> bytes option" where
  "try_assemble_polyjuice_args B K raw_tx receiver_script = (
     let args = rtx_args raw_tx in
     if length args < 52 then None
     else if byte_range 0 7 args \<noteq> polyjuice_magic then None
     else if args ! 7 \<noteq> 3 \<and> length (sc_args receiver_script) < 36 then None
     else
     let dst = (if args ! 7 = 3 then []
                else take 16 (as_slice (hash_of B receiver_script)) @ to_le_bytes 4 (rtx_to_id raw_tx));
         payload_length = unat (from_le_bytes (byte_range 48 52 args) :: u32) in
     if length args \<noteq> 52 + payload_length then None
     else Some (rlp_list K [
       RlpUint (unat (rtx_nonce raw_tx)),
       RlpUint (unat (from_le_bytes (byte_range 16 32 args) :: u128)),
       RlpUint (unat (from_le_bytes (byte_range 8 16 args) :: u64)),
       RlpBytes dst,
       RlpUint (unat (from_le_bytes (byte_range 32 48 args) :: u128)),
       RlpBytes (byte_range 52 (52 + payload_length) args),
       RlpUint (unat (rtx_chain_id raw_tx)), RlpUint 0, RlpUint 0]))"

definition tx_signing_message ::
  "ckb_std \<Rightarrow> challenge_std \<Rightarrow> raw_l2transaction \<Rightarrow> tx_context \<Rightarrow> h256 checked" where
  "tx_signing_message B K raw_tx ctx = (case try_assemble_polyjuice_args B K raw_tx (tc_receiver ctx) of
     Some rlp_data \<Rightarrow> Ok (keccak256 K rlp_data)
   | None \<Rightarrow>
       obind (transaction_from_raw raw_tx (tc_sender_address ctx) (tc_receiver_script_hash ctx)) (\<lambda>typed_tx.
       Ok (eip712_message K (transaction_eip712 K typed_tx)
         (hash_struct K (domain_eip712 K (domain_with_chain_id (rtx_chain_id raw_tx)))))))"

definition verify_tx_signature ::
  "ckb_std \<Rightarrow> challenge_std \<Rightarrow> 't smt_tree \<Rightarrow> ckb_env \<Rightarrow> rollup_config \<Rightarrow> challenge_lock_args \<Rightarrow> unit checked" where
  "verify_tx_signature B K M e rollup_config lock_args =
     obind (load_witness_args B e 0 GroupInputs) (\<lambda>w.
     obind (ok_or XInvalidArgs (wa_lock w)) (\<lambda>witness_args.
     obind (ok_or XInvalidArgs (rd_cc_signature K witness_args)) (\<lambda>unlock_args.
     let tx = cg_l2tx unlock_args in
     if rc_chain_id rollup_config \<noteq> rtx_chain_id (tx_raw tx) then Err XWrongSignature
     else
     obind (kv_build M GW_MAX_KV_PAIRS (cg_kv_state unlock_args) (cg_kv_state_proof unlock_args)
              (cg_account_count unlock_args) None) (\<lambda>kv_state.
     obind (verify_tx_context B K M rollup_config \<lparr> ti_tx = tx, ti_kv_state = kv_state,
              ti_scripts = [cg_sender unlock_args, cg_receiver unlock_args], ti_raw_block = cg_raw_l2block unlock_args,
              ti_target = ch_target lock_args, ti_tx_proof = cg_tx_proof unlock_args \<rparr>) (\<lambda>ctx.
     obind (tx_signing_message B K (tx_raw tx) ctx) (\<lambda>message.
     check_l2_account_signature_cell B e (tc_sender_script_hash ctx) Raw message))))))"

record withdrawal_context =
  wx_withdrawal :: withdrawal_request
  wx_sender_script_hash :: h256
  wx_withdrawal_address :: registry_address
  wx_owner_lock :: script

definition verify_withdrawal_proof ::
  "ckb_std \<Rightarrow> challenge_std \<Rightarrow> 't smt_tree \<Rightarrow> ckb_env \<Rightarrow> challenge_lock_args \<Rightarrow> withdrawal_context checked" where
  "verify_withdrawal_proof B K M e lock_args =
     obind (load_witness_args B e 0 GroupInputs) (\<lambda>w.
     obind (ok_or XInvalidArgs (wa_lock w)) (\<lambda>witness_args.
     obind (ok_or XInvalidArgs (rd_cc_withdrawal K witness_args)) (\<lambda>unlock_args.
     let withdrawal = cd_withdrawal unlock_args; raw_withdrawal = wr_raw withdrawal;
         sender_script_hash = rw_account_script_hash raw_withdrawal; raw_block = cd_raw_l2block unlock_args;
         target = ch_target lock_args; E = ck_externs B in
     if hash_of B (cd_sender unlock_args) \<noteq> sender_script_hash then Err XInvalidArgs
     else if hash_of B (cd_owner_lock unlock_args) \<noteq> rw_owner_lock_hash raw_withdrawal then Err XInvalidArgs
     else if raw_l2block_hash E raw_block \<noteq> ct_block_hash target then Err XInvalidBlock
     else if \<not> cbmt_verify K (cd_withdrawal_proof unlock_args) (sw_withdrawal_witness_root (rb_submit_withdrawals raw_block))
       [ckb_merkle_leaf_hash (blake2b E) (ct_target_index target) (withdrawal_request_witness_hash E withdrawal)]
     then Err XMerkleProof
     else
     obind (kv_build M GW_MAX_KV_PAIRS (cd_kv_state unlock_args) (cd_kv_state_proof unlock_args)
              (cd_account_count unlock_args) None) (\<lambda>kv_state.
     obind (fst (in_kv (get_registry_address_by_script_hash (kv_state_ops M) (blake2b E) ETH_REGISTRY_ACCOUNT_ID
              sender_script_hash) kv_state)) (\<lambda>a.
     obind (ok_or XRegistryAddressNotFound a) (\<lambda>withdrawal_address.
     Ok \<lparr> wx_withdrawal = withdrawal, wx_sender_script_hash = sender_script_hash,
          wx_withdrawal_address = withdrawal_address, wx_owner_lock = cd_owner_lock unlock_args \<rparr>))))))"

definition verify_withdrawal ::
  "ckb_std \<Rightarrow> challenge_std \<Rightarrow> 't smt_tree \<Rightarrow> ckb_env \<Rightarrow> rollup_config \<Rightarrow> challenge_lock_args \<Rightarrow> unit checked" where
  "verify_withdrawal B K M e rollup_config lock_args =
     obind (verify_withdrawal_proof B K M e lock_args) (\<lambda>ctx.
     let raw_withdrawal = wr_raw (wx_withdrawal ctx) in
     if rc_chain_id rollup_config \<noteq> rw_chain_id raw_withdrawal then Err XWrongSignature
     else
     obind (withdrawal_from_raw raw_withdrawal (wx_owner_lock ctx) (wx_withdrawal_address ctx)) (\<lambda>typed_message.
     let message = eip712_message K (withdrawal_eip712 K typed_message)
           (hash_struct K (domain_eip712 K (domain_with_chain_id (rw_chain_id raw_withdrawal)))) in
     check_l2_account_signature_cell B e (wx_sender_script_hash ctx) Raw message))"

section \<open>\<open>main\<close>\<close>

definition challenge_lock_main ::
  "ckb_std \<Rightarrow> challenge_std \<Rightarrow> 't smt_tree \<Rightarrow> ckb_env \<Rightarrow> unit checked" where
  "challenge_lock_main B K M e =
     obind (challenge_lock_parse B e) (\<lambda>(rollup_script_hash, lock_args).
     obind (ok_or XRollupCellNotFound (search_rollup_cell B e rollup_script_hash Outputs)) (\<lambda>index.
     obind (parse_rollup_action B e index Outputs) (\<lambda>action. case action of
       RollupEnterChallenge _ \<Rightarrow> Ok ()
     | RollupRevert _ \<Rightarrow> Ok ()
     | RollupCancelChallenge \<Rightarrow>
         obind (search_rollup_state B e rollup_script_hash Inputs) (\<lambda>g.
         obind (ok_or XRollupCellNotFound g) (\<lambda>prev_global_state.
         obind (load_rollup_config B e (gs_rollup_config_hash prev_global_state)) (\<lambda>rollup_config.
         obind (omap_err (\<lambda>_. XInvalidArgs) (challenge_target_type_try_from (ct_target_type (ch_target lock_args))))
           (\<lambda>target_type. case target_type of
             TxExecution \<Rightarrow> verify_tx_execution B K M e rollup_config lock_args
           | TxSignature \<Rightarrow> verify_tx_signature B K M e rollup_config lock_args
           | Withdrawal \<Rightarrow> verify_withdrawal B K M e rollup_config lock_args))))
     | _ \<Rightarrow> Err XInvalidArgs)))"

end
