(* ===== verification/Gw_Validator.thy ===== *)
theory Gw_Validator
  imports Gw_Submit
begin

text \<open>
  The rest of the state validator: the challenges (\<open>verifications/challenge.rs\<close>), the revert
  (\<open>verifications/revert.rs\<close>), and its \<open>main\<close> (\<open>entry.rs\<close>), which every transaction that spends
  or creates the rollup cell runs.
\<close>

section \<open>No lock cells besides those of the action (\<open>mod.rs\<close>)\<close>

definition require_no_cells :: "contract_error \<Rightarrow> 'a list checked \<Rightarrow> unit checked" where
  "require_no_cells err cells = obind cells (\<lambda>cs. if cs \<noteq> [] then Err err else Ok ())"

definition check_rollup_lock_cells_except_stake ::
  "ckb_std \<Rightarrow> ckb_env \<Rightarrow> h256 \<Rightarrow> rollup_config \<Rightarrow> unit checked" where
  "check_rollup_lock_cells_except_stake B e rollup_type_hash config =
     obind (require_no_cells XInvalidDepositCell (collect_deposit_locks B e rollup_type_hash config Inputs)) (\<lambda>_.
     obind (require_no_cells XInvalidDepositCell (collect_deposit_locks B e rollup_type_hash config Outputs)) (\<lambda>_.
     obind (require_no_cells XInvalidWithdrawalCell (collect_withdrawal_locks B e rollup_type_hash config Inputs)) (\<lambda>_.
     obind (require_no_cells XInvalidWithdrawalCell (collect_withdrawal_locks B e rollup_type_hash config Outputs)) (\<lambda>_.
     obind (require_no_cells XInvalidCustodianCell (collect_custodian_locks B e rollup_type_hash config Inputs)) (\<lambda>_.
     require_no_cells XInvalidCustodianCell (collect_custodian_locks B e rollup_type_hash config Outputs))))))"

definition check_rollup_lock_cells :: "ckb_std \<Rightarrow> ckb_env \<Rightarrow> h256 \<Rightarrow> rollup_config \<Rightarrow> unit checked" where
  "check_rollup_lock_cells B e rollup_type_hash config =
     obind (check_rollup_lock_cells_except_stake B e rollup_type_hash config) (\<lambda>_.
     obind (require_no_cells XInvalidStakeCell (collect_stake_cells B e rollup_type_hash config Inputs)) (\<lambda>_.
     require_no_cells XInvalidStakeCell (collect_stake_cells B e rollup_type_hash config Outputs)))"

section \<open>Sums of capacities\<close>

text \<open>\<open>iter().map(..).sum::<u128>()\<close>: an overflow panics.\<close>

fun sum_u128 :: "u128 list \<Rightarrow> u128 \<Rightarrow> u128 checked" where
  "sum_u128 [] acc = Ok acc"
| "sum_u128 (x # xs) acc = obind (add_or_panic acc x) (sum_u128 xs)"

definition burned_capacity :: "ckb_std \<Rightarrow> ckb_env \<Rightarrow> rollup_config \<Rightarrow> u128 checked" where
  "burned_capacity B e config =
     obind (collect_burn_cells B e config Inputs) (\<lambda>cells.
     obind (sum_u128 (map (ucast \<circ> cv_capacity \<circ> bn_value) cells) 0) (\<lambda>input_burned_capacity.
     obind (collect_burn_cells B e config Outputs) (\<lambda>cells.
     obind (sum_u128 (map (ucast \<circ> cv_capacity \<circ> bn_value) cells) 0) (\<lambda>output_burned_capacity.
     Ok (saturating_sub output_burned_capacity input_burned_capacity)))))"

section \<open>Challenges\<close>

definition challenge_timepoint :: "rollup_config \<Rightarrow> global_state \<Rightarrow> raw_l2block \<Rightarrow> timepoint checked" where
  "challenge_timepoint config post_global_state challenged_block = (
     if fork_timestamp_as_timepoint (gs_version post_global_state)
     then obind (add_or_panic (rb_timestamp challenged_block) (finality_time_in_ms config)) (\<lambda>t. Ok (Timestamp t))
     else Ok (BlockNumber (rb_number challenged_block)))"

definition check_target_index :: "challenge_target \<Rightarrow> raw_l2block \<Rightarrow> unit checked" where
  "check_target_index target challenged_block =
     obind (omap_err (\<lambda>_. XInvalidChallengeTarget) (challenge_target_type_try_from (ct_target_type target))) (\<lambda>target_type.
     case target_type of
       Withdrawal \<Rightarrow>
         if ct_target_index target \<ge> sw_withdrawal_count (rb_submit_withdrawals challenged_block)
         then Err XInvalidChallengeTarget else Ok ()
     | _ \<Rightarrow>
         if ct_target_index target \<ge> st_tx_count (rb_submit_transactions challenged_block)
         then Err XInvalidChallengeTarget else Ok ())"

definition verify_enter_challenge ::
  "ckb_std \<Rightarrow> 't smt_tree \<Rightarrow> ckb_env \<Rightarrow> h256 \<Rightarrow> rollup_config \<Rightarrow> challenge_witness \<Rightarrow> global_state \<Rightarrow> global_state \<Rightarrow>
     unit checked" where
  "verify_enter_challenge B M e rollup_type_hash config witness prev_global_state post_global_state = (
     let challenged_block = cw_raw_l2block witness; block_hash = raw_l2block_hash (ck_externs B) challenged_block in
     obind (check_status prev_global_state Running) (\<lambda>_.
     obind (find_challenge_cell B e rollup_type_hash config Inputs) (\<lambda>input_challenge.
     if input_challenge \<noteq> None then Err XInvalidChallengeCell
     else
     obind (find_challenge_cell B e rollup_type_hash config Outputs) (\<lambda>c.
     obind (ok_or XInvalidChallengeCell c) (\<lambda>challenge_cell.
     obind (challenge_timepoint config post_global_state challenged_block) (\<lambda>block_timepoint.
     if is_finalized config post_global_state block_timepoint then Err XInvalidChallengeTarget
     else
     obind (verify_leaf M 1 (compute_smt_key (rb_number challenged_block)) block_hash
              (bms_merkle_root (gs_block prev_global_state)) (cw_block_proof witness)) (\<lambda>_.
     let challenge_target = ch_target (hc_args challenge_cell) in
     if block_hash \<noteq> ct_block_hash challenge_target then Err XInvalidChallengeTarget
     else
     obind (check_target_index challenge_target challenged_block) (\<lambda>_.
     obind (check_rollup_lock_cells B e rollup_type_hash config) (\<lambda>_.
     if post_global_state \<noteq> prev_global_state\<lparr> gs_status := status_to_u8 Halting \<rparr>
     then Err XInvalidPostGlobalState
     else Ok ())))))))))"

definition check_cancel_burn :: "ckb_std \<Rightarrow> ckb_env \<Rightarrow> rollup_config \<Rightarrow> challenge_cell \<Rightarrow> unit checked" where
  "check_cancel_burn B e config challenge_cell = (
     let challenge_capacity = ucast (cv_capacity (hc_value challenge_cell)) :: u128;
         expected_burn_capacity = saturating_mul challenge_capacity (ucast (rc_reward_burn_rate config)) div 100 in
     obind (burned_capacity B e config) (\<lambda>burned.
     if burned < expected_burn_capacity then Err XInvalidChallengeReward else Ok ()))"

definition verify_cancel_challenge ::
  "ckb_std \<Rightarrow> ckb_env \<Rightarrow> h256 \<Rightarrow> rollup_config \<Rightarrow> global_state \<Rightarrow> global_state \<Rightarrow> unit checked" where
  "verify_cancel_challenge B e rollup_type_hash config prev_global_state post_global_state =
     obind (check_status prev_global_state Halting) (\<lambda>_.
     obind (find_challenge_cell B e rollup_type_hash config Inputs) (\<lambda>input_challenge.
     obind (find_challenge_cell B e rollup_type_hash config Outputs) (\<lambda>output_challenge.
     if input_challenge = None \<or> output_challenge \<noteq> None then Err XInvalidChallengeCell
     else
     obind (ok_or XInvalidChallengeCell input_challenge) (\<lambda>challenge_cell.
     obind (check_cancel_burn B e config challenge_cell) (\<lambda>_.
     obind (check_rollup_lock_cells B e rollup_type_hash config) (\<lambda>_.
     if post_global_state \<noteq> prev_global_state\<lparr> gs_status := status_to_u8 Running \<rparr>
     then Err XInvalidPostGlobalState
     else Ok ()))))))"

section \<open>Revert\<close>

definition MAX_REVERTED_BLOCKS :: nat where "MAX_REVERTED_BLOCKS = 128"

definition check_challenge_maturity :: "ckb_std \<Rightarrow> ckb_env \<Rightarrow> rollup_config \<Rightarrow> challenge_cell \<Rightarrow> unit checked" where
  "check_challenge_maturity B e config challenge_cell =
     obind (load_input_since e (hc_index challenge_cell) Inputs) (\<lambda>input_since.
     case ck_lock_value B input_since of
       Some (LockBlockNumber n) \<Rightarrow>
         if \<not> ck_is_absolute B input_since \<and> n \<ge> rc_challenge_maturity_blocks config then Ok ()
         else Err XInvalidChallengeCell
     | _ \<Rightarrow> Err XInvalidChallengeCell)"

definition check_challenge_cell ::
  "ckb_std \<Rightarrow> ckb_env \<Rightarrow> h256 \<Rightarrow> rollup_config \<Rightarrow> challenge_cell \<Rightarrow> h256 \<Rightarrow> unit checked" where
  "check_challenge_cell B e rollup_type_hash config challenge_cell revert_target_block_hash =
     obind (check_challenge_maturity B e config challenge_cell) (\<lambda>_.
     obind (find_challenge_cell B e rollup_type_hash config Outputs) (\<lambda>output_challenge.
     if output_challenge \<noteq> None then Err XInvalidChallengeCell
     else if ct_block_hash (ch_target (hc_args challenge_cell)) \<noteq> revert_target_block_hash
     then Err XInvalidChallengeCell
     else Ok ()))"

definition get_receiver_cells_capacity ::
  "ckb_std \<Rightarrow> ckb_env \<Rightarrow> rollup_config \<Rightarrow> h256 \<Rightarrow> cell_source \<Rightarrow> u128 checked" where
  "get_receiver_cells_capacity B e config lock_hash src =
     obind (omapM (\<lambda>index. obind (fetch_capacity_and_sudt_value B e config index src) (\<lambda>v. Ok (ucast (cv_capacity v))))
              (search_lock_hashes B e lock_hash src)) (\<lambda>capacities.
     sum_u128 capacities 0)"

definition received_capacity :: "ckb_std \<Rightarrow> ckb_env \<Rightarrow> rollup_config \<Rightarrow> h256 \<Rightarrow> u128 checked" where
  "received_capacity B e config lock_hash =
     obind (get_receiver_cells_capacity B e config lock_hash Inputs) (\<lambda>input_capacity.
     obind (get_receiver_cells_capacity B e config lock_hash Outputs) (\<lambda>output_capacity.
     Ok (saturating_sub output_capacity input_capacity)))"

definition check_rewards ::
  "ckb_std \<Rightarrow> ckb_env \<Rightarrow> h256 \<Rightarrow> rollup_config \<Rightarrow> raw_l2block list \<Rightarrow> challenge_cell \<Rightarrow> unit checked" where
  "check_rewards B e rollup_type_hash config reverted_blocks challenge_cell = (
     let reverted_block_stake_set = set (map rb_stake_cell_owner_lock_hash reverted_blocks) in
     obind (collect_stake_cells B e rollup_type_hash config Inputs) (\<lambda>stake_cells.
     if reverted_block_stake_set \<noteq> set (map (sl_owner_lock_hash \<circ> sk_args) stake_cells) then Err XInvalidStakeCell
     else
     obind (sum_u128 (map (ucast \<circ> sk_capacity) stake_cells) 0) (\<lambda>total_stake_capacity.
     let expected_reward_capacity = saturating_mul total_stake_capacity (ucast (rc_reward_burn_rate config)) div 100;
         expected_burn_capacity = saturating_sub total_stake_capacity expected_reward_capacity in
     obind (received_capacity B e config (hash_of B (ch_rewards_receiver_lock (hc_args challenge_cell)))) (\<lambda>received.
     if received < saturating_add expected_reward_capacity (ucast (cv_capacity (hc_value challenge_cell)))
     then Err XInvalidChallengeReward
     else
     obind (burned_capacity B e config) (\<lambda>burned.
     if burned < expected_burn_capacity then Err XInvalidChallengeReward else Ok ())))))"

text \<open>The loop over \<open>reverted_blocks[1..]\<close>; it returns the number of the last block.\<close>

fun check_continuous :: "raw_l2block list \<Rightarrow> h256 \<Rightarrow> u64 \<Rightarrow> u64 checked" where
  "check_continuous [] prev_hash prev_number = Ok prev_number"
| "check_continuous (b # bs) prev_hash prev_number = (
     let hash = rb_parent_block_hash b in
     if hash \<noteq> prev_hash then Err XInvalidRevertedBlocks
     else
     obind (add_or_panic prev_number 1) (\<lambda>expected.
     if rb_number b \<noteq> expected then Err XInvalidRevertedBlocks
     else check_continuous bs hash (rb_number b)))"

definition tree_of :: "'t smt_tree \<Rightarrow> (h256 \<times> h256) list \<Rightarrow> 't checked" where
  "tree_of M kvs = tree_updates M XMerkleProof kvs (tr_new M MAX_REVERTED_BLOCKS)"

definition verify_tree :: "'t smt_tree \<Rightarrow> (h256 \<times> h256) list \<Rightarrow> h256 \<Rightarrow> bytes \<Rightarrow> unit checked" where
  "verify_tree M kvs root proof =
     obind (tree_of M kvs) (\<lambda>t. if tr_verify M root proof t then Ok () else Err XInvalidRevertedBlocks)"

text \<open>The three proofs, and the root of the chain without the reverted blocks.\<close>

definition reverted_block_root_checks ::
  "'t smt_tree \<Rightarrow> h256 list \<Rightarrow> h256 list \<Rightarrow> rollup_revert \<Rightarrow> global_state \<Rightarrow> global_state \<Rightarrow> h256 checked" where
  "reverted_block_root_checks M smt_keys hashes revert_args prev_global_state post_global_state = (
     let block_merkle_proof = rv_block_proof revert_args;
         reverted_block_merkle_proof = rv_reverted_block_proof revert_args in
     obind (verify_tree M (zip smt_keys hashes) (bms_merkle_root (gs_block prev_global_state)) block_merkle_proof) (\<lambda>_.
     obind (verify_tree M (map (\<lambda>key. (key, h256_zero)) hashes) (gs_reverted_block_root prev_global_state)
              reverted_block_merkle_proof) (\<lambda>_.
     obind (verify_tree M (map (\<lambda>key. (key, h256_one)) hashes) (gs_reverted_block_root post_global_state)
              reverted_block_merkle_proof) (\<lambda>_.
     obind (tree_of M (map (\<lambda>key. (key, h256_zero)) smt_keys)) (\<lambda>t.
     ok_or XInvalidRevertedBlocks (tr_calculate_root M block_merkle_proof t))))))"

definition reverted_last_finalized ::
  "ckb_std \<Rightarrow> ckb_env \<Rightarrow> rollup_config \<Rightarrow> raw_l2block \<Rightarrow> u8 \<Rightarrow> timepoint checked" where
  "reverted_last_finalized B e config first_block post_version = (
     if fork_timestamp_as_timepoint post_version
     then obind (rollup_input_timestamp B e) (\<lambda>l1_timestamp. Ok (Timestamp l1_timestamp))
     else Ok (BlockNumber (saturating_sub (saturating_sub (rb_number first_block) 1) (rc_finality_blocks config))))"

definition check_reverted_blocks ::
  "ckb_std \<Rightarrow> 't smt_tree \<Rightarrow> ckb_env \<Rightarrow> rollup_config \<Rightarrow> raw_l2block list \<Rightarrow> rollup_revert \<Rightarrow> global_state \<Rightarrow>
     global_state \<Rightarrow> global_state checked" where
  "check_reverted_blocks B M e config reverted_blocks revert_args prev_global_state post_global_state = (
     case reverted_blocks of
       [] \<Rightarrow> Err XInvalidRevertedBlocks
     | first # rest \<Rightarrow>
     if length reverted_blocks > MAX_REVERTED_BLOCKS then Err XInvalidRevertedBlocks
     else
     let hash = raw_l2block_hash (ck_externs B); hashes = map hash reverted_blocks;
         smt_keys = map (compute_smt_key \<circ> rb_number) reverted_blocks in
     obind (check_continuous rest (hash first) (rb_number first)) (\<lambda>last_number.
     obind (sub_or_panic (bms_count (gs_block prev_global_state)) 1) (\<lambda>tip_number.
     if last_number \<noteq> tip_number then Err XInvalidRevertedBlocks
     else
     obind (reverted_block_root_checks M smt_keys hashes revert_args prev_global_state post_global_state) (\<lambda>block_root.
     obind (reverted_last_finalized B e config first (gs_version post_global_state)) (\<lambda>last_finalized.
     if hash (rv_new_tip_block revert_args) \<noteq> rb_parent_block_hash first then Err XInvalidRevertedBlocks
     else Ok (prev_global_state\<lparr>
       gs_account := rb_prev_account first,
       gs_block := \<lparr> bms_merkle_root = block_root, bms_count = rb_number first \<rparr>,
       gs_tip_block_hash := rb_parent_block_hash first,
       gs_tip_block_timestamp := rb_timestamp (rv_new_tip_block revert_args),
       gs_last_finalized_timepoint := full_value last_finalized,
       gs_reverted_block_root := gs_reverted_block_root post_global_state,
       gs_status := status_to_u8 Running \<rparr>))))))"

definition revert_verify ::
  "ckb_std \<Rightarrow> 't smt_tree \<Rightarrow> ckb_env \<Rightarrow> h256 \<Rightarrow> rollup_config \<Rightarrow> rollup_revert \<Rightarrow> global_state \<Rightarrow> global_state \<Rightarrow>
     unit checked" where
  "revert_verify B M e rollup_type_hash config revert_args prev_global_state post_global_state = (
     let reverted_blocks = rv_reverted_blocks revert_args in
     obind (check_status prev_global_state Halting) (\<lambda>_.
     obind (check_rollup_lock_cells_except_stake B e rollup_type_hash config) (\<lambda>_.
     obind (require_no_cells XInvalidStakeCell (collect_stake_cells B e rollup_type_hash config Outputs)) (\<lambda>_.
     obind (find_challenge_cell B e rollup_type_hash config Inputs) (\<lambda>c.
     obind (ok_or XInvalidChallengeCell c) (\<lambda>challenge_cell.
     case reverted_blocks of
       [] \<Rightarrow> Err XInvalidRevertedBlocks
     | challenged_block # _ \<Rightarrow>
     obind (check_challenge_cell B e rollup_type_hash config challenge_cell
              (raw_l2block_hash (ck_externs B) challenged_block)) (\<lambda>_.
     obind (check_rewards B e rollup_type_hash config reverted_blocks challenge_cell) (\<lambda>_.
     obind (check_reverted_blocks B M e config reverted_blocks revert_args prev_global_state post_global_state)
       (\<lambda>reverted_global_state.
     if post_global_state \<noteq> reverted_global_state then Err XInvalidPostGlobalState else Ok ())))))))))"

section \<open>\<open>main\<close>\<close>

definition MAX_ROLLUP_VERSION :: u8 where "MAX_ROLLUP_VERSION = 2"

definition parse_global_state :: "ckb_std \<Rightarrow> ckb_env \<Rightarrow> cell_source \<Rightarrow> global_state checked" where
  "parse_global_state B e src = obind (load_cell_data e 0 src) (read_global_state B)"

definition check_initialization :: "ckb_std \<Rightarrow> ckb_env \<Rightarrow> bool checked" where
  "check_initialization B e = (case load_cell_capacity e 0 GroupInputs of
     Ok _ \<Rightarrow> Ok False
   | _ \<Rightarrow>
       obind (parse_global_state B e GroupOutputs) (\<lambda>post_global_state.
       obind (load_rollup_config B e (gs_rollup_config_hash post_global_state)) (\<lambda>_. Ok True)))"

definition verify_type_id :: "ckb_std \<Rightarrow> ckb_env \<Rightarrow> unit checked" where
  "verify_type_id B e = (
     let args = sc_args (en_script e) in
     if length args < TYPE_ID_SIZE then Err XInvalidTypeID
     else check_type_id B e (h256_of_bytes (take TYPE_ID_SIZE args)))"

definition verify_action ::
  "ckb_std \<Rightarrow> 't smt_tree \<Rightarrow> ckb_env \<Rightarrow> h256 \<Rightarrow> rollup_config \<Rightarrow> rollup_action \<Rightarrow> global_state \<Rightarrow> global_state \<Rightarrow>
     unit checked" where
  "verify_action B M e rollup_type_hash config action prev_global_state post_global_state = (case action of
     RollupSubmitBlock args \<Rightarrow>
       obind (submit_block_verify B M e rollup_type_hash config (rs_block args) prev_global_state post_global_state) (\<lambda>_.
       verify_reverted_block_hashes M (rs_reverted_block_hashes args) (rs_reverted_block_proof args) prev_global_state)
   | RollupEnterChallenge witness \<Rightarrow>
       verify_enter_challenge B M e rollup_type_hash config witness prev_global_state post_global_state
   | RollupCancelChallenge \<Rightarrow>
       verify_cancel_challenge B e rollup_type_hash config prev_global_state post_global_state
   | RollupRevert args \<Rightarrow>
       revert_verify B M e rollup_type_hash config args prev_global_state post_global_state)"

definition state_validator_main :: "ckb_std \<Rightarrow> 't smt_tree \<Rightarrow> ckb_env \<Rightarrow> unit checked" where
  "state_validator_main B M e =
     obind (verify_type_id B e) (\<lambda>_.
     obind (check_initialization B e) (\<lambda>initial.
     if initial then Ok ()
     else if load_cell_lock_hash B e 0 GroupInputs \<noteq> load_cell_lock_hash B e 0 GroupOutputs
     then Err XInvalidOutput
     else
     obind (parse_global_state B e GroupInputs) (\<lambda>prev_global_state.
     obind (parse_global_state B e GroupOutputs) (\<lambda>post_global_state.
     obind (load_rollup_config B e (gs_rollup_config_hash prev_global_state)) (\<lambda>config.
     let rollup_type_hash = hash_of B (en_script e); post_version = gs_version post_global_state in
     if post_version > MAX_ROLLUP_VERSION then Err XInvalidPostGlobalState
     else if post_version < gs_version prev_global_state then Err XInvalidPostGlobalState
     else
     obind (parse_rollup_action B e 0 GroupOutputs) (\<lambda>action.
     verify_action B M e rollup_type_hash config action prev_global_state post_global_state))))))"

end
