(* ===== verification/Gw_Rollup.thy ===== *)
theory Gw_Rollup
  imports Gw_Validator
begin

text \<open>
  The rollup as the sequence of the transactions that spend its cell. What an accepted action says
  of the global states before and after it, and the chain of blocks every reachable global state
  commits to: the sparse Merkle tree is its contract, that a verified proof tells the values of
  its keys and that one proof with other values gives the root of the changed map.
\<close>

section \<open>Transactions and runs\<close>

fun action_blocks :: "rollup_action \<Rightarrow> raw_l2block set" where
  "action_blocks (RollupSubmitBlock args) = {lb_raw (rs_block args)}"
| "action_blocks (RollupEnterChallenge witness) = {cw_raw_l2block witness}"
| "action_blocks RollupCancelChallenge = {}"
| "action_blocks (RollupRevert args) = insert (rv_new_tip_block args) (set (rv_reverted_blocks args))"

text \<open>A transaction that spends the rollup cell with state \<open>g\<close> and leaves it with state \<open>g'\<close>.\<close>

definition rollup_transaction ::
  "ckb_std \<Rightarrow> 't smt_tree \<Rightarrow> raw_l2block set \<Rightarrow> ckb_env \<Rightarrow> global_state \<Rightarrow> global_state \<Rightarrow> bool" where
  "rollup_transaction B M S e g g' \<longleftrightarrow>
     state_validator_main B M e = Ok () \<and> cells_of e GroupInputs \<noteq> [] \<and>
     parse_global_state B e GroupInputs = Ok g \<and> parse_global_state B e GroupOutputs = Ok g' \<and>
     (case parse_rollup_action B e 0 GroupOutputs of Ok action \<Rightarrow> action_blocks action \<subseteq> S | _ \<Rightarrow> True)"

inductive rollup_run ::
  "ckb_std \<Rightarrow> 't smt_tree \<Rightarrow> raw_l2block set \<Rightarrow> global_state \<Rightarrow> ckb_env list \<Rightarrow> global_state \<Rightarrow> bool"
  for B :: ckb_std and M :: "'t smt_tree" and S :: "raw_l2block set" where
  run_none: "rollup_run B M S g [] g"
| run_step: "rollup_run B M S g es g1 \<Longrightarrow> rollup_transaction B M S e g1 g2 \<Longrightarrow> rollup_run B M S g (es @ [e]) g2"

inductive_simps rollup_run_Nil: "rollup_run B M S g [] g'"

lemma cells_load: "cells_of e src \<noteq> [] \<Longrightarrow> \<exists>c. load_cell_capacity e 0 src = Ok c"
  by (cases "cells_of e src") (auto simp: load_cell_capacity_def load_cell_def index_get_def)

lemma rollup_transaction_action:
  assumes "rollup_transaction B M S e g g'"
  obtains config action where "parse_rollup_action B e 0 GroupOutputs = Ok action" "action_blocks action \<subseteq> S"
    "load_rollup_config B e (gs_rollup_config_hash g) = Ok config"
    "gs_version g \<le> gs_version g'" "gs_version g' \<le> MAX_ROLLUP_VERSION"
    "verify_action B M e (hash_of B (en_script e)) config action g g' = Ok ()"
proof -
  obtain c where c: "load_cell_capacity e 0 GroupInputs = Ok c"
    using assms cells_load by (fastforce simp: rollup_transaction_def)
  then have i: "check_initialization B e = Ok False" by (simp add: check_initialization_def)
  obtain config action where "parse_rollup_action B e 0 GroupOutputs = Ok action"
    "load_rollup_config B e (gs_rollup_config_hash g) = Ok config"
    "\<not> gs_version g' < gs_version g" "\<not> MAX_ROLLUP_VERSION < gs_version g'"
    "verify_action B M e (hash_of B (en_script e)) config action g g' = Ok ()"
    using assms by (auto simp: rollup_transaction_def state_validator_main_def i Let_def split: if_splits)
  moreover have "action_blocks action \<subseteq> S"
    using assms calculation(1) by (simp add: rollup_transaction_def)
  ultimately show thesis by (intro that) auto
qed

section \<open>What an accepted action says of the global states\<close>

lemma check_status_Ok: "check_status g s = Ok () \<longleftrightarrow> gs_status g = status_to_u8 s"
  by (simp add: check_status_def)

lemma context_loaded:
  assumes "load_block_context_and_state B M e rollup_type_hash config block g g' = Ok (ctx, kv)"
  shows "rb_number (lb_raw block) = bms_count (gs_block g)"
    and "check_block_timestamp B e g' (rb_timestamp (lb_raw block)) = Ok ()"
    and "rb_parent_block_hash (lb_raw block) = gs_tip_block_hash g"
    and "verify_leaf M 256 (compute_smt_key (bms_count (gs_block g))) 0 (bms_merkle_root (gs_block g))
      (lb_block_proof block) = Ok ()"
    and "verify_leaf M 256 (compute_smt_key (bms_count (gs_block g)))
      (raw_l2block_hash (ck_externs B) (lb_raw block)) (bms_merkle_root (gs_block g')) (lb_block_proof block) = Ok ()"
    and "add_or_panic (bms_count (gs_block g)) 1 = (Ok (bms_count (gs_block g')) :: u64 checked)"
    and "rb_prev_account (lb_raw block) = gs_account g" "rb_post_account (lb_raw block) = gs_account g'"
    and "load_kv_state M block g = Ok kv"
    and "ctx = \<lparr> bx_number = rb_number (lb_raw block), bx_timestamp = rb_timestamp (lb_raw block),
      bx_block_hash = raw_l2block_hash (ck_externs B) (lb_raw block), bx_rollup_type_hash = rollup_type_hash,
      bx_prev_account_root = ams_merkle_root (gs_account g), bx_post_version = gs_version g',
      bx_finality_time_in_ms = finality_time_in_ms config \<rparr>"
  using assms by (auto simp: load_block_context_and_state_def Let_def h256_zero_def split: if_splits)

lemma submit_verified:
  assumes "submit_block_verify B M e rollup_type_hash config block g g' = Ok ()"
  obtains ctx kv ds where "gs_status g = 0"
    "load_block_context_and_state B M e rollup_type_hash config block g g' = Ok (ctx, kv)"
    "verify_block_producer B e config ctx block = Ok ()"
    "check_cells B e config ctx block g = Ok ds"
    "fst (check_account_state B (kv_state_ops M) rollup_type_hash config block ds (gs_version g') kv) = Ok ()"
    "gs_tip_block_timestamp g < gs_tip_block_timestamp g'"
    "check_global_state_last_finalized_timepoint B e config ctx g g' = Ok ()"
    "g' = expected_post_global_state ctx block g g'"
proof -
  obtain ctx kv ds where r: "gs_status g = 0"
    "load_block_context_and_state B M e rollup_type_hash config block g g' = Ok (ctx, kv)"
    "verify_block_producer B e config ctx block = Ok ()"
    "check_cells B e config ctx block g = Ok ds"
    "fst (check_account_state B (kv_state_ops M) rollup_type_hash config block ds (bx_post_version ctx) kv) = Ok ()"
    "gs_tip_block_timestamp g < gs_tip_block_timestamp g'"
    "check_global_state_last_finalized_timepoint B e config ctx g g' = Ok ()"
    "expected_post_global_state ctx block g g' = g'"
    using assms
    by (auto simp: submit_block_verify_def check_status_Ok check_global_state_tip_block_timestamp_def
        split: if_splits)
  from r(2) have "bx_post_version ctx = gs_version g'" by (subst context_loaded(10)) simp_all
  with r(5) show thesis by (intro that [OF r(1,2,3,4) _ r(6,7) r(8) [symmetric]]) simp
qed

lemma submit_post_state:
  assumes "submit_block_verify B M e rollup_type_hash config block g g' = Ok ()"
  shows "gs_rollup_config_hash g' = gs_rollup_config_hash g" "gs_status g = 0" "gs_status g' = 0"
    "gs_reverted_block_root g' = gs_reverted_block_root g"
    "gs_tip_block_hash g' = raw_l2block_hash (ck_externs B) (lb_raw block)"
    "gs_tip_block_timestamp g' = rb_timestamp (lb_raw block)"
    "gs_tip_block_timestamp g < gs_tip_block_timestamp g'"
proof -
  obtain ctx kv where r: "gs_status g = 0"
    "load_block_context_and_state B M e rollup_type_hash config block g g' = Ok (ctx, kv)"
    "gs_tip_block_timestamp g < gs_tip_block_timestamp g'"
    "g' = expected_post_global_state ctx block g g'"
    using assms by (rule submit_verified)
  then show "gs_status g = 0" "gs_tip_block_timestamp g < gs_tip_block_timestamp g'" by simp_all
  note c = context_loaded [OF r(2)]
  have "gs_rollup_config_hash (expected_post_global_state ctx block g g') = gs_rollup_config_hash g"
    "gs_status (expected_post_global_state ctx block g g') = gs_status g"
    "gs_reverted_block_root (expected_post_global_state ctx block g g') = gs_reverted_block_root g"
    "gs_tip_block_hash (expected_post_global_state ctx block g g') = raw_l2block_hash (ck_externs B) (lb_raw block)"
    by (simp_all add: expected_post_global_state_def c(10))
  then show "gs_rollup_config_hash g' = gs_rollup_config_hash g" "gs_status g' = 0"
    "gs_reverted_block_root g' = gs_reverted_block_root g"
    "gs_tip_block_hash g' = raw_l2block_hash (ck_externs B) (lb_raw block)"
    using r(1) unfolding r(4) [symmetric] by simp_all
  show "gs_tip_block_timestamp g' = rb_timestamp (lb_raw block)"
    using c(2) by (simp add: check_block_timestamp_def split: if_splits)
qed

lemma enter_verified:
  assumes "verify_enter_challenge B M e rollup_type_hash config witness g g' = Ok ()"
  shows "gs_status g = 0" "g' = g\<lparr> gs_status := 1 \<rparr>"
    "\<exists>tp. challenge_timepoint config g' (cw_raw_l2block witness) = Ok tp \<and> \<not> is_finalized config g' tp"
  using assms by (auto simp: verify_enter_challenge_def Let_def check_status_Ok split: if_splits)

lemma cancel_verified:
  assumes "verify_cancel_challenge B e rollup_type_hash config g g' = Ok ()"
  shows "gs_status g = 1" "g' = g\<lparr> gs_status := 0 \<rparr>"
  using assms by (auto simp: verify_cancel_challenge_def check_status_Ok split: if_splits)

lemma reverted_verified:
  assumes "check_reverted_blocks B M e config (first # rest) args g g' = Ok r"
  obtains root tp where "check_continuous rest (raw_l2block_hash (ck_externs B) first) (rb_number first) =
      Ok (bms_count (gs_block g) - 1)" "1 \<le> bms_count (gs_block g)"
    "reverted_block_root_checks M (map (compute_smt_key \<circ> rb_number) (first # rest))
       (map (raw_l2block_hash (ck_externs B)) (first # rest)) args g g' = Ok root"
    "raw_l2block_hash (ck_externs B) (rv_new_tip_block args) = rb_parent_block_hash first"
    "reverted_last_finalized B e config first (gs_version g') = Ok tp"
    "r = g\<lparr> gs_account := rb_prev_account first,
       gs_block := \<lparr> bms_merkle_root = root, bms_count = rb_number first \<rparr>,
       gs_tip_block_hash := rb_parent_block_hash first,
       gs_tip_block_timestamp := rb_timestamp (rv_new_tip_block args),
       gs_last_finalized_timepoint := full_value tp,
       gs_reverted_block_root := gs_reverted_block_root g', gs_status := 0 \<rparr>"
  using assms
  by (auto simp: check_reverted_blocks_def Let_def sub_or_panic_def checked_sub_def split: if_splits option.splits)

lemma revert_verified:
  assumes "revert_verify B M e rollup_type_hash config args g g' = Ok ()"
  obtains first rest cell where "rv_reverted_blocks args = first # rest" "gs_status g = 1"
    "find_challenge_cell B e rollup_type_hash config Inputs = Ok (Some cell)"
    "check_challenge_cell B e rollup_type_hash config cell (raw_l2block_hash (ck_externs B) first) = Ok ()"
    "check_rewards B e rollup_type_hash config (first # rest) cell = Ok ()"
    "check_reverted_blocks B M e config (first # rest) args g g' = Ok g'"
  using assms
  by (cases "rv_reverted_blocks args")
    (auto simp: revert_verify_def Let_def check_status_Ok split: option.splits if_splits)

section \<open>The chain of a global state\<close>

text \<open>A later block of a chain: the next number, the hash of the block before it, its accounts, a later time.\<close>

definition follows :: "(raw_l2block \<Rightarrow> h256) \<Rightarrow> raw_l2block \<Rightarrow> raw_l2block \<Rightarrow> bool" where
  "follows hash b b' \<longleftrightarrow> unat (rb_number b') = Suc (unat (rb_number b)) \<and> rb_parent_block_hash b' = hash b \<and>
     rb_prev_account b' = rb_post_account b \<and> rb_timestamp b < rb_timestamp b'"

definition is_chain :: "(raw_l2block \<Rightarrow> h256) \<Rightarrow> raw_l2block list \<Rightarrow> bool" where
  "is_chain hash bs \<longleftrightarrow> bs \<noteq> [] \<and> successively (follows hash) bs"

text \<open>
  The global state \<open>g\<close> commits to the chain \<open>bs\<close>: each block at its number, nothing from the count on,
  and the tip's hash, time and accounts.
\<close>

definition commits_to ::
  "(h256 \<Rightarrow> h256 \<Rightarrow> h256) \<Rightarrow> (raw_l2block \<Rightarrow> h256) \<Rightarrow> global_state \<Rightarrow> raw_l2block list \<Rightarrow> bool" where
  "commits_to committed hash g bs \<longleftrightarrow> is_chain hash bs \<and>
     (\<forall>b\<in>set bs. committed (bms_merkle_root (gs_block g)) (compute_smt_key (rb_number b)) = hash b) \<and>
     (\<forall>n. bms_count (gs_block g) \<le> n \<longrightarrow> committed (bms_merkle_root (gs_block g)) (compute_smt_key n) = 0) \<and>
     unat (bms_count (gs_block g)) = Suc (unat (rb_number (last bs))) \<and>
     gs_tip_block_hash g = hash (last bs) \<and> gs_tip_block_timestamp g = rb_timestamp (last bs) \<and>
     gs_account g = rb_post_account (last bs)"

lemma is_chain_snoc:
  "is_chain hash bs \<Longrightarrow> follows hash (last bs) b \<Longrightarrow> is_chain hash (bs @ [b])"
  by (simp add: is_chain_def successively_append_iff)

lemma is_chain_split:
  "is_chain hash (bs @ b # cs) \<Longrightarrow> bs \<noteq> [] \<Longrightarrow> is_chain hash bs \<and> follows hash (last bs) b"
  by (auto simp: is_chain_def successively_append_iff)

lemma chain_numbers:
  "is_chain hash bs \<Longrightarrow> b \<in> set (butlast bs) \<Longrightarrow> unat (rb_number b) < unat (rb_number (last bs))"
proof (induction bs rule: rev_induct)
  case (snoc c bs)
  then have "bs \<noteq> []" by auto
  then have "is_chain hash bs" "follows hash (last bs) c"
    using is_chain_split [of hash bs c "[]"] snoc.prems(1) by simp_all
  moreover have "b = last bs \<or> b \<in> set (butlast bs)"
    using snoc.prems(2) \<open>bs \<noteq> []\<close> by (cases bs rule: rev_cases) (auto simp: butlast_append)
  ultimately show ?case using snoc.IH by (auto simp: follows_def)
qed (simp add: is_chain_def)

lemma not_last_in_butlast: "b \<in> set bs \<Longrightarrow> b \<noteq> last bs \<Longrightarrow> b \<in> set (butlast bs)"
  by (cases bs rule: rev_cases) auto

lemma chain_number_le: "is_chain hash bs \<Longrightarrow> b \<in> set bs \<Longrightarrow> unat (rb_number b) \<le> unat (rb_number (last bs))"
  using chain_numbers [of hash bs b] not_last_in_butlast [of b bs] by (cases "b = last bs") auto

lemma next_number: "(add_or_panic n 1 :: u64 checked) = Ok m \<Longrightarrow> unat m = Suc (unat n)"
  using unat_add_no_overflow [of n 1] by (auto simp: add_or_panic_def checked_add_Some_iff split: option.splits)

lemma check_continuous_Ok:
  assumes "check_continuous bs p n = Ok m"
  shows "(\<forall>b\<in>set bs. rb_parent_block_hash b = p) \<and> unat m = unat n + length bs \<and>
    map (\<lambda>b. unat (rb_number b)) bs = [Suc (unat n)..<Suc (unat n + length bs)]"
  using assms
proof (induction bs arbitrary: n)
  case (Cons b bs)
  then have p: "rb_parent_block_hash b = p" and n: "(add_or_panic n 1 :: u64 checked) = Ok (rb_number b)"
    and r: "check_continuous bs p (rb_number b) = Ok m"
    by (auto simp: Let_def split: if_splits)
  show ?case using p next_number [OF n] Cons.IH [OF r] by (simp add: upt_conv_Cons del: upt_Suc)
qed simp

lemma numbers_distinct_keys:
  "map (\<lambda>b. unat (rb_number b)) bs = [m..<n] \<Longrightarrow> distinct (map (compute_smt_key \<circ> rb_number) bs)"
  by (rule distinct_map [THEN iffD2, OF conjI])
    (auto simp: inj_on_def compute_smt_key_inject distinct_map [of "\<lambda>b. unat (rb_number b)"]
      dest: arg_cong [where f = distinct] intro: distinct_map [THEN iffD1, THEN conjunct1])

lemma continuous_numbers:
  assumes "check_continuous rest p (rb_number first) = Ok (n_blocks - 1)"
  shows "distinct (map (compute_smt_key \<circ> rb_number) (first # rest))"
    and "b \<in> set (first # rest) \<Longrightarrow> rb_number first \<le> rb_number b"
    and "rb_number first \<le> m \<Longrightarrow> m < n_blocks \<Longrightarrow> \<exists>b\<in>set (first # rest). rb_number b = m"
proof -
  let ?n = "unat (rb_number first)"
  note c = check_continuous_Ok [OF assms]
  then have l: "map (\<lambda>b. unat (rb_number b)) (first # rest) = [?n..<Suc (?n + length rest)]"
    by (simp add: upt_conv_Cons del: upt_Suc)
  then show "distinct (map (compute_smt_key \<circ> rb_number) (first # rest))"
    by (rule numbers_distinct_keys)
  have s: "(\<lambda>b. unat (rb_number b)) ` set (first # rest) = {?n..<Suc (?n + length rest)}"
    using arg_cong [OF l, of set] by (simp only: set_map set_upt)
  show "rb_number first \<le> rb_number b" if "b \<in> set (first # rest)"
  proof -
    have "unat (rb_number b) \<in> {?n..<Suc (?n + length rest)}" using s that by blast
    then show ?thesis by (simp add: word_le_nat_alt)
  qed
  show "\<exists>b\<in>set (first # rest). rb_number b = m" if "rb_number first \<le> m" "m < n_blocks"
  proof -
    have "unat (n_blocks - 1) = unat n_blocks - 1" using that by (subst unat_sub) (auto simp: word_le_nat_alt word_less_nat_alt)
    then have "unat m \<in> {?n..<Suc (?n + length rest)}"
      using that c by (simp add: word_le_nat_alt word_less_nat_alt)
    then obtain b where "b \<in> set (first # rest)" "unat m = unat (rb_number b)" unfolding s [symmetric] by blast
    then show ?thesis by (metis word_unat_eq_iff)
  qed
qed

text \<open>What the scripts rely on of a sparse Merkle tree; \<open>committed root\<close> is the map with that root.\<close>

definition tree_holds :: "'t smt_tree \<Rightarrow> nat \<Rightarrow> (h256 \<times> h256) list \<Rightarrow> 't \<Rightarrow> bool" where
  "tree_holds M n kvs t \<longleftrightarrow> tree_updates M XMerkleProof kvs (tr_new M n) = Ok t"

locale root_contract =
  fixes M :: "'t smt_tree" and committed :: "h256 \<Rightarrow> h256 \<Rightarrow> h256"
  assumes verified: "tree_holds M n kvs t \<Longrightarrow> distinct (map fst kvs) \<Longrightarrow> tr_verify M root proof t \<Longrightarrow>
      (k, x) \<in> set kvs \<Longrightarrow> committed root k = x"
    and reverified: "tree_holds M n kvs t \<Longrightarrow> tree_holds M n' kvs' t' \<Longrightarrow> map fst kvs' = map fst kvs \<Longrightarrow>
      tr_verify M root proof t \<Longrightarrow> tr_verify M root' proof t' \<Longrightarrow> k \<notin> fst ` set kvs \<Longrightarrow>
      committed root' k = committed root k"
    and recalculated: "tree_holds M n kvs t \<Longrightarrow> tree_holds M n' kvs' t' \<Longrightarrow> map fst kvs' = map fst kvs \<Longrightarrow>
      distinct (map fst kvs) \<Longrightarrow> tr_verify M root proof t \<Longrightarrow> tr_calculate_root M proof t' = Some root' \<Longrightarrow>
      committed root' k = (case map_of kvs' k of Some x \<Rightarrow> x | None \<Rightarrow> committed root k)"

lemma commits_to_status [simp]:
  "commits_to committed hash (g\<lparr> gs_status := x \<rparr>) bs = commits_to committed hash g bs"
  by (simp add: commits_to_def)

context root_contract
begin

lemma leaf_verified: "verify_leaf M n k x root proof = Ok () \<Longrightarrow> committed root k = x"
  using verified [of n "[(k, x)]"] by (auto simp: verify_leaf_def tree_holds_def split: if_splits)

lemma leaf_changed:
  assumes "verify_leaf M n k x root proof = Ok ()" and "verify_leaf M n k x' root' proof = Ok ()"
  shows "committed root' j = (if j = k then x' else committed root j)"
  using reverified [of n "[(k, x)]" _ n "[(k, x')]" _ root "proof" root' j] leaf_verified [OF assms(2)] assms
  by (auto simp: verify_leaf_def tree_holds_def split: if_splits)

lemma tree_verified:
  assumes "verify_tree M kvs root proof = Ok ()" and "distinct (map fst kvs)" and "(k, x) \<in> set kvs"
  shows "committed root k = x"
  using assms verified [of MAX_REVERTED_BLOCKS kvs _ root "proof" k x]
  by (auto simp: verify_tree_def tree_of_def tree_holds_def split: if_splits)

lemma reverted_roots:
  assumes "reverted_block_root_checks M keys hashes args g g' = Ok root" and "distinct keys"
    and "length hashes = length keys"
  shows "(k, x) \<in> set (zip keys hashes) \<Longrightarrow> committed (bms_merkle_root (gs_block g)) k = x"
    and "committed root k = (if k \<in> set keys then 0 else committed (bms_merkle_root (gs_block g)) k)"
proof -
  let ?kvs = "zip keys hashes" and ?zs = "map (\<lambda>key. (key, h256_zero)) keys"
  obtain t where v: "verify_tree M ?kvs (bms_merkle_root (gs_block g)) (rv_block_proof args) = Ok ()"
    and t: "tree_of M ?zs = Ok t" and r: "tr_calculate_root M (rv_block_proof args) t = Some root"
    using assms(1) by (auto simp: reverted_block_root_checks_def Let_def)
  have d: "distinct (map fst ?kvs)" and f: "map fst ?zs = map fst ?kvs"
    using assms(2,3) by (simp_all add: comp_def)
  show "(k, x) \<in> set ?kvs \<Longrightarrow> committed (bms_merkle_root (gs_block g)) k = x"
    by (rule tree_verified [OF v d])
  obtain u where "tree_holds M MAX_REVERTED_BLOCKS ?kvs u" "tr_verify M (bms_merkle_root (gs_block g)) (rv_block_proof args) u"
    using v by (auto simp: verify_tree_def tree_of_def tree_holds_def split: if_splits)
  moreover have "tree_holds M MAX_REVERTED_BLOCKS ?zs t" using t by (simp add: tree_of_def tree_holds_def)
  moreover have "map_of ?zs k = (if k \<in> set keys then Some 0 else None)"
    by (induction keys) (simp_all add: h256_zero_def)
  ultimately show "committed root k = (if k \<in> set keys then 0 else committed (bms_merkle_root (gs_block g)) k)"
    using recalculated [OF _ _ f d _ r, of MAX_REVERTED_BLOCKS u MAX_REVERTED_BLOCKS] by auto
qed

lemma submit_commits:
  assumes "commits_to committed (raw_l2block_hash (ck_externs B)) g bs"
    and ok: "submit_block_verify B M e rollup_type_hash config block g g' = Ok ()"
  shows "commits_to committed (raw_l2block_hash (ck_externs B)) g' (bs @ [lb_raw block])"
proof -
  let ?hash = "raw_l2block_hash (ck_externs B)" and ?b = "lb_raw block" and ?n = "bms_count (gs_block g)"
  obtain ctx kv where l: "load_block_context_and_state B M e rollup_type_hash config block g g' = Ok (ctx, kv)"
    using ok by (rule submit_verified)
  note c = context_loaded [OF l] and p = submit_post_state [OF ok]
  note C = assms(1) [unfolded commits_to_def]
  note k = leaf_changed [OF c(4,5)] and n = next_number [OF c(6)]
  have f: "follows ?hash (last bs) ?b"
    using C c(1,3,7) p(6,7) by (simp add: follows_def)
  have old: "b \<in> set bs \<Longrightarrow> rb_number b \<noteq> ?n" for b
    using C chain_number_le [of ?hash bs b] by auto
  show ?thesis
    unfolding commits_to_def
  proof (intro conjI ballI allI impI)
    show "is_chain ?hash (bs @ [?b])" using C f by (blast intro: is_chain_snoc)
    show "committed (bms_merkle_root (gs_block g')) (compute_smt_key (rb_number b)) = ?hash b" if "b \<in> set (bs @ [?b])" for b
      using that C old [of b] c(1) by (auto simp: k compute_smt_key_inject)
    show "committed (bms_merkle_root (gs_block g')) (compute_smt_key m) = 0" if "bms_count (gs_block g') \<le> m" for m
    proof -
      have "?n \<le> m" "m \<noteq> ?n" using that n by (auto simp: word_le_nat_alt)
      then show ?thesis using C by (simp add: k compute_smt_key_inject)
    qed
  qed (use c(1,8) p(5,6) n in simp_all)
qed

text \<open>A revert takes back the tip, or the tip and the block before it.\<close>

lemma revert_target:
  assumes C: "commits_to committed hash g bs" and S: "inj_on hash S" "set bs \<subseteq> S" "set (first # rest) \<subseteq> S"
    and base: "\<forall>b\<in>S. hash b \<noteq> rb_parent_block_hash (hd bs)"
    and c: "check_continuous rest (hash first) (rb_number first) = Ok (bms_count (gs_block g) - 1)"
    and root: "reverted_block_root_checks M (map (compute_smt_key \<circ> rb_number) (first # rest))
      (map hash (first # rest)) args g g' = Ok root"
  shows "first \<in> set bs" "length rest \<le> 1"
proof -
  note D = C [unfolded commits_to_def]
  note n = check_continuous_Ok [OF c]
  let ?r = "last (first # rest)"
  have keys: "distinct (map (compute_smt_key \<circ> rb_number) (first # rest))"
    using continuous_numbers(1) [OF c] .
  have at: "committed (bms_merkle_root (gs_block g)) (compute_smt_key (rb_number b)) = hash b" if "b \<in> set (first # rest)" for b
    by (rule reverted_roots(1) [OF root keys]) (use that in \<open>auto simp: zip_map_map zip_same_conv_map\<close>)
  have last: "unat (rb_number ?r) = unat (rb_number first) + length rest"
  proof (cases "rest = []")
    case False
    then have "unat (rb_number (last rest)) = last (map (\<lambda>b. unat (rb_number b)) rest)" by (simp add: last_map)
    also have "\<dots> = last [Suc (unat (rb_number first))..<Suc (unat (rb_number first) + length rest)]" using n by simp
    finally show ?thesis using False by (cases rest) simp_all
  qed simp
  moreover have "unat (bms_count (gs_block g) - 1) = unat (rb_number (last bs))"
    using D by (subst unat_sub) (simp_all add: word_le_nat_alt)
  ultimately have "rb_number ?r = rb_number (last bs)"
    using n by (simp add: word_unat_eq_iff)
  moreover have in_bs: "last bs \<in> set bs" using D by (simp add: is_chain_def)
  ultimately have "hash ?r = hash (last bs)" using at [of ?r] D by simp
  then have r: "?r = last bs"
    using inj_onD [OF S(1), of ?r "last bs"] S(2,3) in_bs by (metis last_in_set list.distinct(1) subsetD)
  have "first \<in> set bs \<and> length rest \<le> 1"
  proof (cases "rest = []")
    case True
    then show ?thesis using r in_bs by simp
  next
    case False
    then have "rb_parent_block_hash (last bs) = hash first" using n r by (metis last_ConsR last_in_set)
    moreover have "bs = [] \<or> bs = [last bs] \<or> (\<exists>ys p. bs = ys @ [p, last bs])"
      by (metis append.assoc append_Cons append_Nil rev_exhaust snoc_eq_iff_butlast)
    ultimately obtain ys p where b: "bs = ys @ [p, last bs]"
      using base S(3) in_bs by (metis list.sel(1) list.set_intros(1) empty_iff list.set(1) subsetD)
    then have "follows hash p (last bs)" using D is_chain_split [of hash "ys @ [p]" "last bs" "[]"] by simp
    then have p: "hash p = hash first" "unat (rb_number (last bs)) = Suc (unat (rb_number p))"
      using \<open>rb_parent_block_hash (last bs) = hash first\<close> by (simp_all add: follows_def)
    have "p \<in> set bs" by (subst b) simp
    then have "p = first" using inj_onD [OF S(1) p(1)] S(2,3) by auto
    then show ?thesis using \<open>p \<in> set bs\<close> p(2) last r by simp
  qed
  then show "first \<in> set bs" "length rest \<le> 1" by simp_all
qed

lemma revert_commits:
  assumes C: "commits_to committed (raw_l2block_hash (ck_externs B)) g bs"
    and S: "inj_on (raw_l2block_hash (ck_externs B)) S" "set bs \<subseteq> S" "action_blocks (RollupRevert args) \<subseteq> S"
    and base: "\<forall>b\<in>S. raw_l2block_hash (ck_externs B) b \<noteq> rb_parent_block_hash (hd bs)"
    and ok: "revert_verify B M e rollup_type_hash config args g g' = Ok ()"
  obtains bs1 bs2 where "bs = bs1 @ bs2" "bs1 \<noteq> []" "bs2 \<noteq> []" "length (rv_reverted_blocks args) \<le> 2"
    "commits_to committed (raw_l2block_hash (ck_externs B)) g' bs1"
proof -
  let ?hash = "raw_l2block_hash (ck_externs B)"
  obtain first rest where b: "rv_reverted_blocks args = first # rest"
    and v: "check_reverted_blocks B M e config (first # rest) args g g' = Ok g'"
    using ok by (rule revert_verified)
  obtain root tp where c: "check_continuous rest (?hash first) (rb_number first) = Ok (bms_count (gs_block g) - 1)"
    and root: "reverted_block_root_checks M (map (compute_smt_key \<circ> rb_number) (first # rest))
      (map ?hash (first # rest)) args g g' = Ok root"
    and tip: "?hash (rv_new_tip_block args) = rb_parent_block_hash first"
    and g': "g' = g\<lparr> gs_account := rb_prev_account first,
       gs_block := \<lparr> bms_merkle_root = root, bms_count = rb_number first \<rparr>,
       gs_tip_block_hash := rb_parent_block_hash first,
       gs_tip_block_timestamp := rb_timestamp (rv_new_tip_block args),
       gs_last_finalized_timepoint := full_value tp,
       gs_reverted_block_root := gs_reverted_block_root g', gs_status := 0 \<rparr>"
    using v by (rule reverted_verified)
  have S': "set (first # rest) \<subseteq> S" "rv_new_tip_block args \<in> S" using S(3) b by simp_all
  note f = revert_target [OF C S(1,2) S'(1) base c root]
  note D = C [unfolded commits_to_def] and n = check_continuous_Ok [OF c]
  obtain bs1 bs2 where bs: "bs = bs1 @ first # bs2" using f(1) by (meson split_list)
  have ne: "bs1 \<noteq> []" using base tip S'(2) bs by auto
  have ch: "is_chain ?hash bs1" "follows ?hash (last bs1) first"
    using D ne is_chain_split [of ?hash bs1 first bs2] bs by simp_all
  have "rv_new_tip_block args = last bs1"
    using inj_onD [OF S(1), of "rv_new_tip_block args" "last bs1"] tip ch(2) S'(2) S(2) bs ne
    by (simp add: follows_def subset_iff)
  moreover have "commits_to committed ?hash g' bs1"
  proof -
    have k: "committed root j = (if j \<in> set (map (compute_smt_key \<circ> rb_number) (first # rest)) then 0
        else committed (bms_merkle_root (gs_block g)) j)" for j
      by (rule reverted_roots(2) [OF root continuous_numbers(1) [OF c]]) simp
    have old: "rb_number b < rb_number first" if "b \<in> set bs1" for b
      using chain_number_le [OF ch(1) that] ch(2) by (simp add: follows_def word_less_nat_alt)
    have key: "compute_smt_key m \<in> set (map (compute_smt_key \<circ> rb_number) (first # rest)) \<longleftrightarrow>
        (\<exists>b\<in>set (first # rest). rb_number b = m)" for m
      by (auto simp: compute_smt_key_inject)
    have z: "committed root (compute_smt_key m) = 0" if "rb_number first \<le> m" for m
      using that D continuous_numbers(3) [OF c, of m] unfolding k key by (cases "m < bms_count (gs_block g)") auto
    have h: "committed root (compute_smt_key (rb_number b)) = ?hash b" if "b \<in> set bs1" for b
      using continuous_numbers(2) [OF c] old [OF that] D that bs unfolding k key by fastforce
    have "gs_account g' = rb_prev_account first" "gs_block g' = \<lparr> bms_merkle_root = root, bms_count = rb_number first \<rparr>"
      "gs_tip_block_hash g' = rb_parent_block_hash first" "gs_tip_block_timestamp g' = rb_timestamp (rv_new_tip_block args)"
      by (subst g', simp)+
    then show ?thesis
      unfolding commits_to_def using ch \<open>rv_new_tip_block args = last bs1\<close> z h by (simp add: follows_def)
  qed
  ultimately show thesis using that [OF bs ne] f(2) b by simp
qed

lemma transaction_commits:
  assumes "rollup_transaction B M S e g g'"
    and C: "commits_to committed (raw_l2block_hash (ck_externs B)) g bs"
    and S: "inj_on (raw_l2block_hash (ck_externs B)) S" "set bs \<subseteq> S"
    and base: "\<forall>b\<in>S. raw_l2block_hash (ck_externs B) b \<noteq> rb_parent_block_hash (hd bs)"
  shows "\<exists>bs'. commits_to committed (raw_l2block_hash (ck_externs B)) g' bs' \<and> set bs' \<subseteq> S \<and> hd bs' = hd bs"
proof -
  let ?hash = "raw_l2block_hash (ck_externs B)"
  obtain config action where a: "action_blocks action \<subseteq> S"
    and v: "verify_action B M e (hash_of B (en_script e)) config action g g' = Ok ()"
    using assms(1) by (rule rollup_transaction_action)
  have ne: "bs \<noteq> []" using C by (simp add: commits_to_def is_chain_def)
  show ?thesis
  proof (cases action)
    case (RollupSubmitBlock args)
    then have "submit_block_verify B M e (hash_of B (en_script e)) config (rs_block args) g g' = Ok ()"
      using v by (auto simp: verify_action_def)
    then have "commits_to committed ?hash g' (bs @ [lb_raw (rs_block args)])" by (rule submit_commits [OF C])
    then show ?thesis using a S(2) ne RollupSubmitBlock by (intro exI [of _ "bs @ [lb_raw (rs_block args)]"]) simp
  next
    case (RollupEnterChallenge witness)
    then show ?thesis using v C S(2) by (auto simp: verify_action_def dest!: enter_verified(2))
  next
    case RollupCancelChallenge
    then show ?thesis using v C S(2) by (auto simp: verify_action_def dest!: cancel_verified(2))
  next
    case (RollupRevert args)
    then have "revert_verify B M e (hash_of B (en_script e)) config args g g' = Ok ()"
      and blocks: "action_blocks (RollupRevert args) \<subseteq> S"
      using v a by (auto simp: verify_action_def)
    then obtain bs1 bs2 where "bs = bs1 @ bs2" "bs1 \<noteq> []" "commits_to committed ?hash g' bs1"
      using revert_commits [OF C S blocks base] by metis
    then show ?thesis using S(2) by auto
  qed
qed

lemma run_commits:
  assumes "rollup_run B M S g es g'"
    and C: "commits_to committed (raw_l2block_hash (ck_externs B)) g bs"
    and S: "inj_on (raw_l2block_hash (ck_externs B)) S" "set bs \<subseteq> S"
    and base: "\<forall>b\<in>S. raw_l2block_hash (ck_externs B) b \<noteq> rb_parent_block_hash (hd bs)"
  shows "\<exists>bs'. commits_to committed (raw_l2block_hash (ck_externs B)) g' bs' \<and> set bs' \<subseteq> S \<and> hd bs' = hd bs"
  using assms
proof (induction rule: rollup_run.induct)
  case (run_step g es g1 e g2)
  then obtain bs1 where "commits_to committed (raw_l2block_hash (ck_externs B)) g1 bs1" "set bs1 \<subseteq> S" "hd bs1 = hd bs"
    by blast
  then show ?case using transaction_commits [OF run_step.hyps(2) _ S(1), of bs1] base by auto
qed blast

end

section \<open>What every transaction keeps\<close>

lemma revert_state:
  assumes "revert_verify B M e rollup_type_hash config args g g' = Ok ()"
  shows "gs_status g = 1" "gs_status g' = 0" "gs_rollup_config_hash g' = gs_rollup_config_hash g"
    "gs_version g' = gs_version g" "unat (bms_count (gs_block g')) < unat (bms_count (gs_block g))"
proof -
  obtain first rest where s: "gs_status g = 1"
    and v: "check_reverted_blocks B M e config (first # rest) args g g' = Ok g'"
    using assms by (rule revert_verified)
  show "gs_status g = 1" by (rule s)
  obtain root tp where c: "check_continuous rest (raw_l2block_hash (ck_externs B) first) (rb_number first) =
      Ok (bms_count (gs_block g) - 1)" "1 \<le> bms_count (gs_block g)"
    and g': "g' = g\<lparr> gs_account := rb_prev_account first,
       gs_block := \<lparr> bms_merkle_root = root, bms_count = rb_number first \<rparr>,
       gs_tip_block_hash := rb_parent_block_hash first,
       gs_tip_block_timestamp := rb_timestamp (rv_new_tip_block args),
       gs_last_finalized_timepoint := full_value tp,
       gs_reverted_block_root := gs_reverted_block_root g', gs_status := 0 \<rparr>"
    using v by (rule reverted_verified)
  have "gs_block g' = \<lparr> bms_merkle_root = root, bms_count = rb_number first \<rparr>"
    and "gs_status g' = 0" "gs_rollup_config_hash g' = gs_rollup_config_hash g" "gs_version g' = gs_version g"
    by (subst g', simp)+
  moreover have "unat (bms_count (gs_block g) - 1) < unat (bms_count (gs_block g))"
    using c(2) by (subst unat_sub) (auto simp: word_le_nat_alt)
  ultimately show "gs_status g' = 0" "gs_rollup_config_hash g' = gs_rollup_config_hash g" "gs_version g' = gs_version g"
    "unat (bms_count (gs_block g')) < unat (bms_count (gs_block g))"
    using check_continuous_Ok [OF c(1)] by simp_all
qed

lemma transaction_state:
  assumes "rollup_transaction B M S e g g'"
  shows "gs_rollup_config_hash g' = gs_rollup_config_hash g" "gs_version g \<le> gs_version g'"
    "gs_version g' \<le> MAX_ROLLUP_VERSION" "gs_status g' \<in> {0, 1}"
    "unat (bms_count (gs_block g')) \<le> Suc (unat (bms_count (gs_block g)))"
proof -
  obtain config action where w: "gs_version g \<le> gs_version g'" "gs_version g' \<le> MAX_ROLLUP_VERSION"
    and v: "verify_action B M e (hash_of B (en_script e)) config action g g' = Ok ()"
    using assms by (rule rollup_transaction_action)
  then show "gs_version g \<le> gs_version g'" "gs_version g' \<le> MAX_ROLLUP_VERSION" by simp_all
  have "gs_rollup_config_hash g' = gs_rollup_config_hash g \<and> gs_status g' \<in> {0, 1} \<and>
      unat (bms_count (gs_block g')) \<le> Suc (unat (bms_count (gs_block g)))"
  proof (cases action)
    case (RollupSubmitBlock args)
    then have ok: "submit_block_verify B M e (hash_of B (en_script e)) config (rs_block args) g g' = Ok ()"
      using v by (auto simp: verify_action_def)
    obtain ctx kv where l: "load_block_context_and_state B M e (hash_of B (en_script e)) config (rs_block args) g g' = Ok (ctx, kv)"
      using ok by (rule submit_verified)
    show ?thesis using submit_post_state [OF ok] next_number [OF context_loaded(6) [OF l]] by simp
  next
    case (RollupEnterChallenge witness)
    then show ?thesis using v by (auto simp: verify_action_def dest!: enter_verified(2))
  next
    case RollupCancelChallenge
    then show ?thesis using v by (auto simp: verify_action_def dest!: cancel_verified(2))
  next
    case (RollupRevert args)
    then have "revert_verify B M e (hash_of B (en_script e)) config args g g' = Ok ()"
      using v by (simp add: verify_action_def)
    from revert_state [OF this] show ?thesis by simp
  qed
  then show "gs_rollup_config_hash g' = gs_rollup_config_hash g" "gs_status g' \<in> {0, 1}"
    "unat (bms_count (gs_block g')) \<le> Suc (unat (bms_count (gs_block g)))" by simp_all
qed

end
