(* ===== verification/Gw_Assets.thy ===== *)
theory Gw_Assets
  imports Gw_Submit
begin

text \<open>
  The cells of a block that is submitted on chain: a withdrawal cell for each withdrawal request,
  a custodian cell for each deposit, a deposit cell for each custodian of a reverted block, and
  the assets of the finalised custodians against those of the withdrawals. Together: no asset is
  created or lost.
\<close>

section \<open>Matching loops\<close>

lemma position_checkedD:
  assumes "position_checked f ys = Ok (Some i)"
  shows "i < length ys \<and> f (ys ! i) = Ok True"
  using assms by (induction f ys arbitrary: i rule: position_checked.induct) (auto split: if_splits)

lemma mset_take_out:
  assumes "i < length ys" and "mset (vec_remove i ys) = mset zs + M"
  shows "mset ys = mset (ys ! i # zs) + M"
  using assms by (simp add: mset_vec_remove) (metis add_mset_add_single insert_DiffM nth_mem_mset)

text \<open>What is matched, in the order of the loop, and what is left are the elements of the list.\<close>

lemma match_each_mset:
  assumes "match_each f err xs ys = Ok rest"
  shows "\<exists>zs. list_all2 (\<lambda>x y. f x y = Ok True) xs zs \<and> mset ys = mset zs + mset rest"
  using assms
proof (induction xs arbitrary: ys)
  case (Cons x xs)
  then obtain i where i: "position_checked (f x) ys = Ok (Some i)"
    and r: "match_each f err xs (vec_remove i ys) = Ok rest" by auto
  obtain zs where "list_all2 (\<lambda>x y. f x y = Ok True) xs zs" "mset (vec_remove i ys) = mset zs + mset rest"
    using Cons.IH [OF r] by blast
  with position_checkedD [OF i] show ?case
    by (intro exI [of _ "ys ! i # zs"]) (auto dest: mset_take_out)
qed simp

lemma withdrawal_loop_mset:
  assumes "check_withdrawal_cells_loop ctx requests cells = Ok rest"
  shows "\<exists>zs. list_all2 withdrawal_matches cells zs \<and> mset requests = mset zs + mset rest"
  using assms
proof (induction cells arbitrary: requests)
  case (Cons c cells)
  then obtain i where i: "position (withdrawal_matches c) requests = Some i"
    and r: "check_withdrawal_cells_loop ctx (vec_remove i requests) cells = Ok rest"
    by (auto split: if_splits option.splits)
  obtain zs where "list_all2 withdrawal_matches cells zs" "mset (vec_remove i requests) = mset zs + mset rest"
    using Cons.IH [OF r] by blast
  with i show ?case
    by (intro exI [of _ "requests ! i # zs"]) (auto simp: position_Some_iff dest: mset_take_out)
qed simp

lemma withdrawal_loop_block:
  assumes "check_withdrawal_cells_loop ctx requests cells = Ok rest" and "c \<in> set cells"
  shows "wl_withdrawal_block_hash (wc_args c) = bx_block_hash ctx \<and>
    (\<exists>tp. finalized_timepoint ctx = Ok tp \<and> wl_withdrawal_finalized_timepoint (wc_args c) = full_value tp)"
  using assms by (induction cells arbitrary: requests) (auto split: if_splits option.splits)

section \<open>Assets of cells\<close>

definition worth :: "h256 \<Rightarrow> cell_value \<Rightarrow> nat" where
  "worth k v = (if cv_sudt_script_hash v = k then unat (cv_amount v) else 0) +
     (if k = CKB_SUDT_SCRIPT_ARGS then unat (cv_capacity v) else 0)"

abbreviation total_worth :: "h256 \<Rightarrow> cell_value list \<Rightarrow> nat" where
  "total_worth k vs \<equiv> sum_list (map (worth k) vs)"

lemma entry_simps [simp]:
  "entry_or_zero fmempty k = 0"
  "entry_or_zero (fmupd j v m) k = (if k = j then v else entry_or_zero m k)"
  by (simp_all add: entry_or_zero_def)

lemma build_assets_loop_total:
  assumes "build_assets_loop vs m = Ok m'"
  shows "unat (entry_or_zero m' k) = unat (entry_or_zero m k) + total_worth k vs"
  using assms
proof (induction vs m rule: build_assets_loop.induct)
  case (2 cell cells assets)
  then show ?case
    by (auto simp: checked_add_Some_iff worth_def Let_def unat_add_no_overflow unat_ucast_up split: if_splits)
qed simp

lemma build_assets_total:
  "build_assets_map_from_cells vs = Ok m \<Longrightarrow> unat (entry_or_zero m k) = total_worth k vs"
  by (simp add: build_assets_map_from_cells_def build_assets_loop_total)

lemma sub_assets_loop_total:
  assumes "sub_assets_loop err rows m = Ok m'" and "distinct (map fst rows)"
  shows "unat (entry_or_zero m' k) + (case map_of rows k of Some v \<Rightarrow> unat v | None \<Rightarrow> 0) = unat (entry_or_zero m k)"
  using assms
proof (induction err rows m rule: sub_assets_loop.induct)
  case (2 err j v rows assets)
  then have "map_of rows j = None" by (simp add: map_of_eq_None_iff)
  with 2 show ?case
    by (auto simp: checked_sub_Some_iff unat_sub word_le_nat_alt split: option.splits)
qed simp

lemma sub_assets_total:
  assumes "sub_assets_loop err (fm_rows w) m = Ok m'"
  shows "unat (entry_or_zero m' k) + unat (entry_or_zero w k) = unat (entry_or_zero m k)"
  using sub_assets_loop_total [OF assms fm_rows_distinct, of k]
  by (simp add: fm_rows_map_of entry_or_zero_def split: option.splits)

lemma no_assets_left:
  assumes "list_all (\<lambda>(_, v). v = 0) (fm_rows m)"
  shows "entry_or_zero m k = 0"
proof (cases "fmlookup m k")
  case (Some v)
  then have "(k, v) \<in> set (fm_rows m)" by (metis fm_rows_map_of map_of_SomeD)
  with assms have "v = 0" by (auto simp: list_all_iff)
  with Some show ?thesis by (simp add: entry_or_zero_def)
qed (simp add: entry_or_zero_def)

text \<open>What the rollup owns on one side of a transaction: custodians, deposits and withdrawals.\<close>

definition rollup_assets ::
  "ckb_std \<Rightarrow> ckb_env \<Rightarrow> h256 \<Rightarrow> rollup_config \<Rightarrow> cell_source \<Rightarrow> h256 \<Rightarrow> nat checked" where
  "rollup_assets B e rollup_type_hash config src k =
     obind (collect_custodian_locks B e rollup_type_hash config src) (\<lambda>custodians.
     obind (collect_deposit_locks B e rollup_type_hash config src) (\<lambda>deposits.
     obind (collect_withdrawal_locks B e rollup_type_hash config src) (\<lambda>withdrawals.
     Ok (total_worth k (map cc_value custodians) + total_worth k (map dc_value deposits) + total_worth k (map wc_value withdrawals)))))"

lemma total_partition:
  "total_worth k (map f (filter P xs)) + total_worth k (map f (filter (\<lambda>x. \<not> P x) xs)) = total_worth k (map f xs)"
  by (induction xs) simp_all

lemma total_matched:
  assumes "list_all2 R xs zs" and "mset zs = mset ys" and "\<And>x y. R x y \<Longrightarrow> f x = g y"
  shows "total_worth k (map f xs) = total_worth k (map g ys)"
proof -
  have "map f xs = map g zs"
    using assms(1) by (induction rule: list_all2_induct) (simp_all add: assms(3))
  moreover have "mset (map (worth k) (map g zs)) = mset (map (worth k) (map g ys))"
    using assms(2) by simp
  ultimately show ?thesis by (metis sum_mset_sum_list)
qed

lemma total_match_each:
  assumes "match_each f err xs ys = Ok []" and "\<And>x y. f x y = Ok True \<Longrightarrow> p x = q y"
  shows "total_worth k (map p xs) = total_worth k (map q ys)"
proof -
  obtain zs where "list_all2 (\<lambda>x y. f x y = Ok True) xs zs" "mset zs = mset ys"
    using match_each_mset [OF assms(1)] by auto
  then show ?thesis using assms(2) by (rule total_matched)
qed

lemma input_custodians:
  assumes "check_input_custodian_cells B e config g ctx withdrawal_cells = Ok m"
  obtains cs ds where "collect_custodian_locks B e (bx_rollup_type_hash ctx) config Inputs = Ok cs"
    and "collect_deposit_locks B e (bx_rollup_type_hash ctx) config Outputs = Ok ds"
    and "\<And>k. total_worth k (map cc_value (filter (\<lambda>c. \<not> custodian_finalized config g c) cs)) = total_worth k (map dc_value ds)"
    and "\<And>k. unat (entry_or_zero m k) + total_worth k (map wc_value withdrawal_cells) =
      total_worth k (map cc_value (filter (custodian_finalized config g) cs))"
proof -
  obtain cs ds w a where cs: "collect_custodian_locks B e (bx_rollup_type_hash ctx) config Inputs = Ok cs"
    and ds: "collect_deposit_locks B e (bx_rollup_type_hash ctx) config Outputs = Ok ds"
    and r: "match_each reverts_deposit XInvalidCustodianCell (filter (\<lambda>c. \<not> custodian_finalized config g c) cs) ds = Ok []"
    and w: "build_assets_map_from_cells (map wc_value withdrawal_cells) = Ok w"
    and a: "build_assets_map_from_cells (map cc_value (filter (custodian_finalized config g) cs)) = Ok a"
    and m: "sub_assets_loop XInsufficientInputFinalizedAssets (fm_rows w) a = Ok m"
    using assms by (auto simp: check_input_custodian_cells_def Let_def comp_def split: if_splits)
  show thesis
  proof (rule that [OF cs ds])
    fix k
    show "total_worth k (map cc_value (filter (\<lambda>c. \<not> custodian_finalized config g c) cs)) = total_worth k (map dc_value ds)"
      using r by (rule total_match_each) (simp add: reverts_deposit_def)
    show "unat (entry_or_zero m k) + total_worth k (map wc_value withdrawal_cells) =
        total_worth k (map cc_value (filter (custodian_finalized config g) cs))"
      using sub_assets_total [OF m, of k] build_assets_total [OF w, of k] build_assets_total [OF a, of k] by simp
  qed
qed

lemma output_custodians:
  assumes "check_output_custodian_cells B e config g ctx deposit_cells m = Ok u"
  obtains cs ws where "collect_custodian_locks B e (bx_rollup_type_hash ctx) config Outputs = Ok cs"
    and "collect_withdrawal_locks B e (bx_rollup_type_hash ctx) config Inputs = Ok ws"
    and "match_each (keeps_deposit ctx) XInvalidCustodianCell (filter (\<lambda>c. \<not> custodian_finalized config g c) cs) deposit_cells = Ok []"
    and "\<And>k. unat (entry_or_zero m k) + total_worth k (map wc_value ws) =
      total_worth k (map cc_value (filter (custodian_finalized config g) cs))"
proof -
  obtain cs ws w a a1 a2 where cs: "collect_custodian_locks B e (bx_rollup_type_hash ctx) config Outputs = Ok cs"
    and ws: "collect_withdrawal_locks B e (bx_rollup_type_hash ctx) config Inputs = Ok ws"
    and r: "match_each (keeps_deposit ctx) XInvalidCustodianCell (filter (\<lambda>c. \<not> custodian_finalized config g c) cs) deposit_cells = Ok []"
    and w: "build_assets_map_from_cells (map wc_value ws) = Ok w"
    and a: "build_assets_map_from_cells (map cc_value (filter (custodian_finalized config g) cs)) = Ok a"
    and a1: "sub_assets_loop XInsufficientOutputFinalizedAssets (fm_rows w) a = Ok a1"
    and a2: "sub_assets_loop XInsufficientOutputFinalizedAssets (fm_rows m) a1 = Ok a2"
    and z: "list_all (\<lambda>(_, v). v = 0) (fm_rows a2)"
    using assms by (auto simp: check_output_custodian_cells_def Let_def comp_def split: if_splits)
  show thesis
  proof (rule that [OF cs ws r])
    fix k
    show "unat (entry_or_zero m k) + total_worth k (map wc_value ws) =
        total_worth k (map cc_value (filter (custodian_finalized config g) cs))"
      using sub_assets_total [OF a1, of k] sub_assets_total [OF a2, of k] no_assets_left [OF z, of k]
        build_assets_total [OF w, of k] build_assets_total [OF a, of k] by (simp only: unsigned_0 add_0)
  qed
qed

lemma keeps_deposit_True:
  "keeps_deposit ctx c d = Ok True \<longleftrightarrow>
     cu_deposit_lock_args (cc_args c) = dc_args d \<and> cu_deposit_block_hash (cc_args c) = bx_block_hash ctx \<and>
     (\<exists>tp. finalized_timepoint ctx = Ok tp \<and> cu_deposit_finalized_timepoint (cc_args c) = full_value tp) \<and>
     cc_value c = dc_value d"
  by (auto simp: keeps_deposit_def)

lemma check_cells_conserve:
  assumes "check_cells B e config ctx block g = Ok ds"
  shows "\<exists>n. rollup_assets B e (bx_rollup_type_hash ctx) config Inputs k = Ok n \<and>
    rollup_assets B e (bx_rollup_type_hash ctx) config Outputs k = Ok n"
proof -
  obtain ws m where ws: "collect_withdrawal_locks B e (bx_rollup_type_hash ctx) config Outputs = Ok ws"
    and ds: "collect_deposit_locks B e (bx_rollup_type_hash ctx) config Inputs = Ok ds"
    and i: "check_input_custodian_cells B e config g ctx ws = Ok m"
    and out: "check_output_custodian_cells B e config g ctx ds m = Ok ()"
    using assms by (auto simp: check_cells_def)
  obtain ic od where I: "collect_custodian_locks B e (bx_rollup_type_hash ctx) config Inputs = Ok ic"
    "collect_deposit_locks B e (bx_rollup_type_hash ctx) config Outputs = Ok od"
    "\<And>k. total_worth k (map cc_value (filter (\<lambda>c. \<not> custodian_finalized config g c) ic)) = total_worth k (map dc_value od)"
    "\<And>k. unat (entry_or_zero m k) + total_worth k (map wc_value ws) =
      total_worth k (map cc_value (filter (custodian_finalized config g) ic))"
    by (rule input_custodians [OF i]) (rule that, assumption+)
  obtain oc iw where O: "collect_custodian_locks B e (bx_rollup_type_hash ctx) config Outputs = Ok oc"
    "collect_withdrawal_locks B e (bx_rollup_type_hash ctx) config Inputs = Ok iw"
    "match_each (keeps_deposit ctx) XInvalidCustodianCell (filter (\<lambda>c. \<not> custodian_finalized config g c) oc) ds = Ok []"
    "\<And>k. unat (entry_or_zero m k) + total_worth k (map wc_value iw) =
      total_worth k (map cc_value (filter (custodian_finalized config g) oc))"
    by (rule output_custodians [OF out]) (rule that, assumption+)
  have D: "total_worth k (map cc_value (filter (\<lambda>c. \<not> custodian_finalized config g c) oc)) = total_worth k (map dc_value ds)"
    using O(3) by (rule total_match_each) (simp add: keeps_deposit_True)
  have "total_worth k (map cc_value ic) + total_worth k (map dc_value ds) + total_worth k (map wc_value iw) =
      total_worth k (map cc_value oc) + total_worth k (map dc_value od) + total_worth k (map wc_value ws)"
    using total_partition [of k cc_value "custodian_finalized config g" ic]
      total_partition [of k cc_value "custodian_finalized config g" oc] I(3) [of k] I(4) [of k] O(4) [of k] D by linarith
  then show ?thesis
    unfolding rollup_assets_def I(1,2) O(1,2) ws ds obind.simps by blast
qed

end
