(* ===== verification/Gw_Onchain.thy ===== *)
theory Gw_Onchain
  imports Gw_Submit Gw_Block_Ops
begin

text \<open>
  The account state on chain against the one off chain. A \<open>KVState\<close> knows some of the keys of
  the state: it agrees with a full state when each value it knows is the value there and the
  account counts are equal. A run of the validator that succeeds on the \<open>KVState\<close> is a run on
  the full state, and the deposits and withdrawals it accepts are those the node applies.
\<close>

section \<open>Runs that succeed\<close>

text \<open>
  \<open>m\<close> refines \<open>m'\<close>: where \<open>m\<close> succeeds, \<open>m'\<close> succeeds from every related state, with the same
  result and related final states. Nothing is said of the errors.
\<close>

definition refines ::
  "('s \<Rightarrow> 'v \<Rightarrow> bool) \<Rightarrow> ('s, 'e, 'a) sm \<Rightarrow> ('v, 'f, 'a) sm \<Rightarrow> bool" where
  "refines rel m m' \<longleftrightarrow> (\<forall>s v x s'. rel s v \<longrightarrow> m s = (Ok x, s') \<longrightarrow> (\<exists>v'. m' v = (Ok x, v') \<and> rel s' v'))"

named_theorems ref_intros \<open>closure of refinement under the state monad\<close>

lemma refinesI:
  assumes "\<And>s v x s'. rel s v \<Longrightarrow> m s = (Ok x, s') \<Longrightarrow> \<exists>v'. m' v = (Ok x, v') \<and> rel s' v'"
  shows "refines rel m m'"
  using assms by (auto simp: refines_def)

lemma refinesD:
  assumes "refines rel m m'" and "rel s v" and "m s = (Ok x, s')"
  obtains v' where "m' v = (Ok x, v')" and "rel s' v'"
  using assms unfolding refines_def by blast

lemma refines_prim [ref_intros]:
  "refines rel (ret x) (ret x)"
  "refines rel (fail e) m'"
  "refines rel panic m''"
  by (auto simp: refines_def)

lemma refines_lift [ref_intros]:
  "(\<And>x. r = Ok x \<Longrightarrow> r' = Ok x) \<Longrightarrow> refines rel (lift_o r) (lift_o r')"
  by (auto simp: refines_def)

lemma refines_sbind [ref_intros]:
  assumes "refines rel m m'" and "\<And>x. refines rel (f x) (f' x)"
  shows "refines rel (sbind m f) (sbind m' f')"
proof (rule refinesI)
  fix s v y t
  assume "rel s v" and "sbind m f s = (Ok y, t)"
  then obtain x s1 where m: "m s = (Ok x, s1)" and f: "f x s1 = (Ok y, t)" by (auto simp: sbind_Ok_iff)
  obtain v1 where m': "m' v = (Ok x, v1)" and "rel s1 v1" by (rule refinesD [OF assms(1) \<open>rel s v\<close> m])
  obtain v2 where "f' x v1 = (Ok y, v2)" and "rel t v2" by (rule refinesD [OF assms(2) \<open>rel s1 v1\<close> f])
  with m' show "\<exists>v'. sbind m' f' v = (Ok y, v') \<and> rel t v'" by (auto simp: sbind_Ok_iff)
qed

lemma refines_if [ref_intros]:
  "(b \<Longrightarrow> refines rel m m') \<Longrightarrow> (\<not> b \<Longrightarrow> refines rel n n') \<Longrightarrow>
     refines rel (if b then m else n) (if b then m' else n')"
  by simp

lemma refines_let [ref_intros]:
  "(\<And>x. refines rel (f x) (f' x)) \<Longrightarrow> refines rel (Let t f) (Let t f')"
  by (simp add: Let_def)

lemma refines_case_option [ref_intros]:
  "(q = None \<Longrightarrow> refines rel n n') \<Longrightarrow> (\<And>x. q = Some x \<Longrightarrow> refines rel (f x) (f' x)) \<Longrightarrow>
     refines rel (case q of None \<Rightarrow> n | Some x \<Rightarrow> f x) (case q of None \<Rightarrow> n' | Some x \<Rightarrow> f' x)"
  by (cases q) auto

lemma refines_case_prod [ref_intros]:
  "(\<And>x y. refines rel (f x y) (f' x y)) \<Longrightarrow>
     refines rel (case p of (x, y) \<Rightarrow> f x y) (case p of (x, y) \<Rightarrow> f' x y)"
  by (cases p) auto

lemma refines_case_outcome [ref_intros]:
  "(\<And>x. refines rel (f x) (f' x)) \<Longrightarrow> (\<And>e. refines rel (g e) (g' e)) \<Longrightarrow> refines rel h h' \<Longrightarrow>
     refines rel (case r of Ok x \<Rightarrow> f x | Err e \<Rightarrow> g e | Panic \<Rightarrow> h)
       (case r of Ok x \<Rightarrow> f' x | Err e \<Rightarrow> g' e | Panic \<Rightarrow> h')"
  by (cases r) auto

lemma refines_map_err [ref_intros]:
  "refines rel m m' \<Longrightarrow> refines rel (map_err g m) (map_err g' m')"
  by (simp add: refines_def)

lemma refines_sfor:
  "(\<And>x. refines rel (f x) (f' x)) \<Longrightarrow> refines rel (sfor xs f) (sfor xs f')"
  by (induction xs) (auto intro!: ref_intros)

text \<open>A step on the right alone, that always succeeds and keeps the relation.\<close>

lemma refines_skip:
  assumes "\<And>s v. rel s v \<Longrightarrow> \<exists>x v'. m1 v = (Ok x, v') \<and> rel s v' \<and> f' x = m'" and "refines rel m m'"
  shows "refines rel m (sbind m1 f')"
proof (rule refinesI)
  fix s v x s'
  assume "rel s v" and "m s = (Ok x, s')"
  obtain y w where "m1 v = (Ok y, w)" "rel s w" "f' y = m'" using assms(1) [OF \<open>rel s v\<close>] by blast
  obtain v' where "m' w = (Ok x, v')" and "rel s' v'" by (rule refinesD [OF assms(2) \<open>rel s w\<close> \<open>m s = (Ok x, s')\<close>])
  with \<open>m1 v = (Ok y, w)\<close> \<open>f' y = m'\<close>
  show "\<exists>v'. sbind m1 f' v = (Ok x, v') \<and> rel s' v'" by (auto simp: sbind_Ok_iff)
qed

section \<open>The provided methods of \<open>State\<close> refine their instances\<close>

locale state_refinement =
  fixes T :: "('s, 'x) state_ops_scheme"
    and rel :: "'s \<Rightarrow> view \<Rightarrow> bool"
    and root :: "(h256 \<Rightarrow> h256) \<Rightarrow> h256"
  assumes ref_get_raw [ref_intros]: "refines rel (st_get_raw T k) (st_get_raw (view_ops root) k)"
    and ref_update_raw [ref_intros]: "refines rel (st_update_raw T k x) (st_update_raw (view_ops root) k x)"
    and ref_get_account_count [ref_intros]:
      "refines rel (st_get_account_count T) (st_get_account_count (view_ops root))"
    and ref_set_account_count [ref_intros]:
      "refines rel (st_set_account_count T c) (st_set_account_count (view_ops root) c)"
begin

lemma ref_get_value [ref_intros]:
  "refines rel (get_value T b2b i k) (get_value (view_ops root) b2b i k)"
  unfolding get_value_def by (intro ref_intros)

lemma ref_update_value [ref_intros]:
  "refines rel (update_value T b2b i k x) (update_value (view_ops root) b2b i k x)"
  unfolding update_value_def by (intro ref_intros)

lemma ref_get_nonce [ref_intros]: "refines rel (get_nonce T i) (get_nonce (view_ops root) i)"
  unfolding get_nonce_def by (intro ref_intros)

lemma ref_set_nonce [ref_intros]: "refines rel (set_nonce T i n) (set_nonce (view_ops root) i n)"
  unfolding set_nonce_def by (intro ref_intros)

lemma ref_get_account_id [ref_intros]:
  "refines rel (get_account_id_by_script_hash T b2b h) (get_account_id_by_script_hash (view_ops root) b2b h)"
  unfolding get_account_id_by_script_hash_def by (intro ref_intros)

lemma ref_create_account [ref_intros]:
  "refines rel (create_account T b2b h) (create_account (view_ops root) b2b h)"
  unfolding create_account_def by (intro ref_intros) simp

lemma ref_mint_sudt [ref_intros]:
  "refines rel (mint_sudt T b2b i a n) (mint_sudt (view_ops root) b2b i a n)"
  unfolding mint_sudt_def by (intro ref_intros) simp_all

lemma ref_burn_sudt [ref_intros]:
  "refines rel (burn_sudt T b2b i a n) (burn_sudt (view_ops root) b2b i a n)"
  unfolding burn_sudt_def by (intro ref_intros) simp_all

lemma ref_registry_lookups [ref_intros]:
  "refines rel (get_registry_address_by_script_hash T b2b i h)
     (get_registry_address_by_script_hash (view_ops root) b2b i h)"
  "refines rel (get_script_hash_by_registry_address T b2b a)
     (get_script_hash_by_registry_address (view_ops root) b2b a)"
  unfolding get_registry_address_by_script_hash_def get_script_hash_by_registry_address_def
  by (intro ref_intros, simp)+

lemma ref_mapping_registry [ref_intros]:
  "refines rel (mapping_registry_address_to_script_hash T b2b a h)
     (mapping_registry_address_to_script_hash (view_ops root) b2b a h)"
  unfolding mapping_registry_address_to_script_hash_def by (intro ref_intros) simp

end

section \<open>\<open>KVState\<close>\<close>

text \<open>What the scripts rely on in the tree: it returns what was inserted last, also when normalised.\<close>

locale tree_contract =
  fixes M :: "'t smt_tree"
  assumes get_update: "tr_update M k x t = Some t' \<Longrightarrow> tr_get M j t' = (if j = k then Some x else tr_get M j t)"
    and get_normalize: "tr_get M k (tr_normalize M t) = tr_get M k t"

definition agrees :: "'t smt_tree \<Rightarrow> 't kv_state \<Rightarrow> view \<Rightarrow> bool" where
  "agrees M s v \<longleftrightarrow> (\<forall>k x. tr_get M k (kv_tree s) = Some x \<longrightarrow> vw_map v k = x) \<and>
     vw_has v = (\<lambda>_. True) \<and> vw_count v = kv_account_count s"

sublocale tree_contract \<subseteq> kv: state_refinement "kv_state_ops M" "agrees M" root for root
proof unfold_locales
  show "refines (agrees M) (st_get_raw (kv_state_ops M) k) (st_get_raw (view_ops root) k)" for k
    by (auto simp: refines_def kv_state_ops_def kv_get_raw_def view_ops_run agrees_def)
  show "refines (agrees M) (st_update_raw (kv_state_ops M) k x) (st_update_raw (view_ops root) k x)" for k x
    by (auto simp: refines_def kv_state_ops_def kv_update_raw_def view_ops_run agrees_def sbind_Ok_iff get_update
        split: if_splits)
qed (auto simp: refines_def kv_state_ops_def view_ops_run agrees_def)

text \<open>
  A tree that is a map, zero where it has no entry. The roots of the examples stand for maps:
  \<open>0\<close> for one where block 29 is the only entry, \<open>1\<close> for the map with block 30, and \<open>2\<close> for the map
  with the hash of block 30 marked. The only proof, \<open>[1]\<close>, stands for the map of root \<open>0\<close>
  outside the keys of the tree.
\<close>

definition numbered_hash :: "u8 \<Rightarrow> h256" where "numbered_hash n = tag_hash [1, n]"

definition sample_map :: "h256 \<Rightarrow> h256 \<Rightarrow> h256" where
  "sample_map root = (
     let rest = (\<lambda>_. 0)(compute_smt_key 29 := numbered_hash 29) in
     if root = 1 then rest(compute_smt_key 30 := numbered_hash 30)
     else if root = 2 then rest(numbered_hash 30 := 1)
     else rest)"

definition read_map :: "(h256 \<rightharpoonup> h256) \<Rightarrow> h256 \<Rightarrow> h256" where
  "read_map t k = (case t k of Some x \<Rightarrow> x | None \<Rightarrow> 0)"

definition proves :: "h256 \<Rightarrow> (h256 \<rightharpoonup> h256) \<Rightarrow> bool" where
  "proves root t \<longleftrightarrow> (\<lambda>k. case t k of Some x \<Rightarrow> x | None \<Rightarrow> sample_map 0 k) = sample_map root"

definition function_tree :: "(h256 \<rightharpoonup> h256) smt_tree" where
  "function_tree = \<lparr>
     tr_new = (\<lambda>_. Map.empty),
     tr_update = (\<lambda>k x t. Some (t(k \<mapsto> x))),
     tr_get = (\<lambda>k t. Some (read_map t k)),
     tr_normalize = (\<lambda>t. t),
     tr_calculate_root = (\<lambda>proof t. if proof = [1] then (if proves 0 t then Some 0 else None) else Some 0),
     tr_verify = (\<lambda>root proof t. proof = [1] \<and> proves root t),
     tr_is_empty = (\<lambda>_. False) \<rparr>"

interpretation ftree: tree_contract function_tree
  by unfold_locales (auto simp: function_tree_def read_map_def)

section \<open>Deposits\<close>

text \<open>The request the node reads from a deposit cell.\<close>

definition deposit_of :: "deposit_request_cell \<Rightarrow> deposit_request" where
  "deposit_of cell = \<lparr>
     dr_capacity = cv_capacity (dc_value cell), dr_amount = cv_amount (dc_value cell),
     dr_sudt_script_hash = cv_sudt_script_hash (dc_value cell), dr_script = dc_account_script cell,
     dr_registry_id = dl_registry_id (dc_args cell) \<rparr>"

lemma refines_unit: "refines rel m m' \<Longrightarrow> refines rel m (sbind m' (\<lambda>_. ret ()))"
  by (fastforce simp: refines_def sbind_Ok_iff)

lemma sbind_lift_Ok: "sbind (lift_o (Ok x)) f = f x"
  by (rule ext) simp

lemma l2_sudt_script_eq:
  "l2_sudt_script (rx_rollup_script_hash ctx) (rx_rollup_config ctx) h =
     (if h = CKB_SUDT_SCRIPT_ARGS then None else Some (build_l2_sudt_script ctx h))"
  by (simp add: l2_sudt_script_def build_l2_sudt_script_def)

lemma agrees_insert_script:
  "agrees M s v \<Longrightarrow> \<exists>x v'. in_state (cs_insert_script (view_ops root) h sc) v = (Ok x, v') \<and>
     agrees M s v' \<and> (\<lambda>_. m') x = m'"
  by (auto simp: agrees_def map_err_def view_ops_run)

context tree_contract
begin

lemma ref_deposit_address:
  assumes "rx_rollup_config ctx = config" and "dc_account_script_hash cell = script_hash E (dc_account_script cell)"
  shows "refines (agrees M) (layer2_deposit_address (kv_state_ops M) (blake2b E) config cell)
    (deposit_address (view_ops root) E ctx (deposit_of cell))"
  unfolding layer2_deposit_address_def deposit_address_def Let_def
  using assms
  by (auto simp: deposit_of_def intro!: ref_intros refines_skip [OF agrees_insert_script] kv.ref_create_account)

lemma ref_deposit_sudt_id:
  "refines (agrees M) (layer2_sudt_id (kv_state_ops M) (blake2b E) (script_hash E (build_l2_sudt_script ctx h)))
    (deposit_sudt_id (view_ops root) E ctx h)"
  unfolding layer2_sudt_id_def deposit_sudt_id_def Let_def
  by (intro ref_intros refines_skip [OF agrees_insert_script])

lemma ref_deposit:
  assumes "rx_rollup_config ctx = config" and "rx_rollup_script_hash ctx = rollup_type_hash"
    and "dc_account_script_hash cell = script_hash E (dc_account_script cell)"
  shows "refines (agrees M) (check_layer2_deposit_request (kv_state_ops M) E rollup_type_hash config cell)
    (apply_deposit_request (view_ops root) E ctx (deposit_of cell))"
proof -
  have d: "dr_capacity (deposit_of cell) = cv_capacity (dc_value cell)"
    "dr_sudt_script_hash (deposit_of cell) = cv_sudt_script_hash (dc_value cell)"
    "dr_amount (deposit_of cell) = cv_amount (dc_value cell)" by (simp_all add: deposit_of_def)
  show ?thesis
  proof (cases "sc_hash_type (dc_account_script cell) = script_hash_type_to_byte Type")
    case True
    show ?thesis
    proof (cases "cv_sudt_script_hash (dc_value cell) = CKB_SUDT_SCRIPT_ARGS")
      case ckb: True
      show ?thesis
        unfolding check_layer2_deposit_request_def apply_deposit_request_def Let_def d
        by (simp only: True ckb simp_thms if_True if_False) (intro ref_intros ref_deposit_address assms)
    next
      case False
      then have "l2_sudt_script rollup_type_hash config (cv_sudt_script_hash (dc_value cell)) =
          Some (build_l2_sudt_script ctx (cv_sudt_script_hash (dc_value cell)))"
        using l2_sudt_script_eq [of ctx] assms(1,2) by simp
      then show ?thesis
        using True False
        unfolding check_layer2_deposit_request_def apply_deposit_request_def Let_def d
        by (auto simp: sbind_lift_Ok intro!: ref_intros ref_deposit_address refines_unit ref_deposit_sudt_id assms)
    qed
  qed (simp add: check_layer2_deposit_request_def refines_prim)
qed

lemma ref_withdrawal:
  "refines (agrees M) (check_layer2_withdrawal_request (kv_state_ops M) E rollup_type_hash config q request)
    (check_layer2_withdrawal_request (view_ops root) E rollup_type_hash config q request)"
  unfolding check_layer2_withdrawal_request_def layer2_pay_fee_def layer2_burn_sudt_def
  by (intro ref_intros) simp_all

end

section \<open>Withdrawals\<close>

lemma layer2_pay_fee_Ok:
  "layer2_pay_fee T b2b p q n s = (Ok (), s') \<longleftrightarrow> pay_fee T b2b p q CKB_SUDT_ACCOUNT_ID n s = (Ok (), s')"
  by (auto simp: layer2_pay_fee_def pay_fee_def sbind_Ok_iff)

text \<open>
  The native token has account 1: the node looks the account up where the validator treats the
  native token apart.
\<close>

definition native_token :: "externs \<Rightarrow> rollup_context \<Rightarrow> h256 set \<Rightarrow> view \<Rightarrow> bool" where
  "native_token E ctx H v \<longleftrightarrow> (
     let ckb = script_hash E (build_l2_sudt_script ctx CKB_SUDT_SCRIPT_ARGS) in
     ckb \<in> H \<and> vw_map v (id_key (blake2b E) ckb) = id_value CKB_SUDT_ACCOUNT_ID)"

text \<open>The script of an sUDT does not share its hash with the native token's.\<close>

definition sudt_apart :: "externs \<Rightarrow> rollup_context \<Rightarrow> h256 \<Rightarrow> bool" where
  "sudt_apart E ctx h \<longleftrightarrow> h = CKB_SUDT_SCRIPT_ARGS \<or>
     script_hash E (build_l2_sudt_script ctx h) \<noteq> script_hash E (build_l2_sudt_script ctx CKB_SUDT_SCRIPT_ARGS)"

lemma native_token_frame:
  "token_frame (blake2b E) A H i v v' \<Longrightarrow> native_token E ctx H v' = native_token E ctx H v"
  using token_frameD(5) [of "blake2b E" A H i v v'] by (auto simp: native_token_def Let_def)

text \<open>The sUDT burnt on chain is the one burnt off chain.\<close>

lemma burn_sudt_agrees:
  assumes S: "state_ok (blake2b E) A H v" and N: "native_token E ctx H v" and a: "a \<in> A"
    and hs: "script_hash E (build_l2_sudt_script ctx (rw_sudt_script_hash raw)) \<in> H"
    and apart: "sudt_apart E ctx (rw_sudt_script_hash raw)"
    and run: "layer2_burn_sudt (view_ops root) E (rx_rollup_script_hash ctx) (rx_rollup_config ctx) raw a v = (Ok (), v')"
  obtains j where "get_account_id_by_script_hash (view_ops root) (blake2b E)
      (script_hash E (build_l2_sudt_script ctx (rw_sudt_script_hash raw))) v = (Ok (Some j), v)"
    and "(if j \<noteq> CKB_SUDT_ACCOUNT_ID then in_state (burn_sudt (view_ops root) (blake2b E) j a (ucast (rw_amount raw)))
       else if rw_amount raw \<noteq> 0 then fail (GWithdrawal WithdrawFakedCKB) else ret ()) v = (Ok (), v')"
proof (cases "rw_sudt_script_hash raw = CKB_SUDT_SCRIPT_ARGS")
  case True
  then have "vw_map v (id_key (blake2b E) (script_hash E (build_l2_sudt_script ctx (rw_sudt_script_hash raw)))) =
      id_value CKB_SUDT_ACCOUNT_ID" using N by (simp add: native_token_def Let_def)
  moreover have "rw_amount raw = 0" "v' = v"
    using run True by (auto simp: layer2_burn_sudt_def l2_sudt_script_eq split: if_splits)
  ultimately show thesis
    using that [of CKB_SUDT_ACCOUNT_ID] state_okD(2) [OF S] by (simp add: get_account_id_view)
next
  case False
  let ?s = "script_hash E (build_l2_sudt_script ctx (rw_sudt_script_hash raw))"
  let ?c = "script_hash E (build_l2_sudt_script ctx CKB_SUDT_SCRIPT_ARGS)"
  obtain j w where g: "get_account_id_by_script_hash (view_ops root) (blake2b E) ?s v = (Ok (Some j), w)"
    and b: "burn_sudt (view_ops root) (blake2b E) j a (ucast (rw_amount raw)) w = (Ok (), v')"
    using run False by (auto simp: layer2_burn_sudt_def l2_sudt_script_eq sbind_Ok_iff)
  obtain J: "w = v" "vw_map v (id_key (blake2b E) ?s) = id_value j" "vw_map v (script_field j) = ?s"
    using S hs g by (cases rule: account_id_known) auto
  have "?s \<noteq> ?c" "?c \<in> H" "vw_map v (id_key (blake2b E) ?c) = id_value CKB_SUDT_ACCOUNT_ID"
    using N False apart by (simp_all add: native_token_def sudt_apart_def Let_def)
  moreover from this have "vw_map v (script_field CKB_SUDT_ACCOUNT_ID) = ?c"
    using state_okD(3) [OF S] by (auto simp: accounts_ok_def)
  ultimately have "j \<noteq> CKB_SUDT_ACCOUNT_ID" using J(3) by auto
  then show thesis using that [of j] g b J(1) by simp
qed

lemma onchain_withdrawal_view:
  fixes request :: withdrawal_request
  defines "raw \<equiv> wr_raw request"
  assumes S: "state_ok (blake2b E) A H v" and N: "native_token E ctx H v"
    and h: "rw_account_script_hash raw \<in> H"
    and hs: "script_hash E (build_l2_sudt_script ctx (rw_sudt_script_hash raw)) \<in> H"
    and apart: "sudt_apart E ctx (rw_sudt_script_hash raw)"
    and rid: "rw_registry_id raw = ETH_REGISTRY_ACCOUNT_ID" and q: "q \<in> A"
    and n: "unat (rw_nonce raw) + 1 < 2 ^ 32"
    and run: "check_layer2_withdrawal_request (view_ops root) E (rx_rollup_script_hash ctx) (rx_rollup_config ctx)
      q request v = (Ok (), v')"
  shows "\<exists>r. apply_withdrawal_request (view_journal_ops root) E ctx q request v = (Ok r, v')"
    and "native_token E ctx H v'"
    and "k \<in> H \<Longrightarrow> vw_map v' (id_key (blake2b E) k) = vw_map v (id_key (blake2b E) k) \<and>
      vw_map v' (reg_addr_key (blake2b E) k) = vw_map v (reg_addr_key (blake2b E) k)"
proof -
  let ?b = "blake2b E" and ?h = "rw_account_script_hash raw"
  let ?s = "script_hash E (build_l2_sudt_script ctx (rw_sudt_script_hash raw))"
  let ?ckb = "to_layer2 (from_layer1 (rw_capacity raw))"
  obtain i w1 a w2 v1 v2 m w3 v3
    where i: "get_account_id_by_script_hash (view_ops root) ?b ?h v = (Ok (Some i), w1)"
    and a: "get_registry_address_by_script_hash (view_ops root) ?b ETH_REGISTRY_ACCOUNT_ID ?h w1 = (Ok (Some a), w2)"
    and f: "pay_fee (view_ops root) ?b a q CKB_SUDT_ACCOUNT_ID (ucast (rw_fee raw)) w2 = (Ok (), v1)"
    and c: "burn_sudt (view_ops root) ?b CKB_SUDT_ACCOUNT_ID a ?ckb v1 = (Ok (), v2)"
    and m: "get_nonce (view_ops root) i v2 = (Ok m, w3)" "m = rw_nonce raw"
    and s: "layer2_burn_sudt (view_ops root) E (rx_rollup_script_hash ctx) (rx_rollup_config ctx) raw a w3 = (Ok (), v3)"
    and t: "set_nonce (view_ops root) i (saturating_add m 1) v3 = (Ok (), v')"
    using run rid unfolding check_layer2_withdrawal_request_def Let_def raw_def [symmetric]
    by (auto simp: sbind_Ok_iff layer2_pay_fee_Ok fail_def simp del: sm_prim_simps split: if_splits)
  have I: "w1 = v" "vw_map v (id_key ?b ?h) = id_value i"
    using S h i by (cases rule: account_id_known; auto)+
  have A: "w2 = v" "a \<in> A" using S h a [unfolded I(1)] by (cases rule: registry_address_known; auto)+
  note F = pay_fee_view [OF S A(2) q f [unfolded A(1)]]
  note C = burn_moved [OF F(1) A(2) c]
  have w3: "w3 = v2" "m = to_u32 (vw_map v2 (nonce_field i))"
    using m(1) state_okD(2) [OF C(1)] by (auto simp: get_nonce_view)
  have N2: "native_token E ctx H v2"
    using N native_token_frame [OF F(2)] native_token_frame [OF C(3)] by blast
  obtain j where j: "get_account_id_by_script_hash (view_ops root) ?b ?s v2 = (Ok (Some j), v2)"
    and b: "(if j \<noteq> CKB_SUDT_ACCOUNT_ID then in_state (burn_sudt (view_ops root) ?b j a (ucast (rw_amount raw)))
       else if rw_amount raw \<noteq> 0 then fail (GWithdrawal WithdrawFakedCKB) else ret ()) v2 = (Ok (), v3)"
    by (rule burn_sudt_agrees [OF C(1) N2 A(2) hs apart s [unfolded w3(1)]])
  note B = sudt_burn_view [OF C(1) A(2) b]
  have has: "vw_has v3 k" for k using state_okD(2) [OF B(1)] by simp
  have m3: "get_nonce (view_ops root) i v3 = (Ok m, v3)"
    using has token_frameD(4) [OF B(2), of i] w3(2) by (simp add: get_nonce_view)
  have m1: "checked_add m 1 = Some (m + 1)" "saturating_add m 1 = m + 1"
    using n m(2) by (simp_all add: saturating_add_def checked_add_def)
  have N3: "native_token E ctx H v3" using N2 native_token_frame [OF B(2)] by blast
  have d: "id_key ?b k \<noteq> nonce_field i" "reg_addr_key ?b k \<noteq> nonce_field i" if "k \<in> H" for k
    using table_keys_differ(3,10) [OF state_okD(1) [OF S] that] by simp_all
  have v': "v' = set_key (nonce_field i) (from_u32 (saturating_add m 1)) v3"
    using t has by (simp add: set_nonce_view)
  show "native_token E ctx H v'" using N3 d by (simp add: native_token_def Let_def v')
  show "k \<in> H \<Longrightarrow> vw_map v' (id_key ?b k) = vw_map v (id_key ?b k) \<and>
      vw_map v' (reg_addr_key ?b k) = vw_map v (reg_addr_key ?b k)"
    using d [of k] token_frameD(5,6) [OF F(2), of k] token_frameD(5,6) [OF C(3), of k]
      token_frameD(5,6) [OF B(2), of k] by (simp add: v')
  show "\<exists>r. apply_withdrawal_request (view_journal_ops root) E ctx q request v = (Ok r, v')"
    unfolding apply_withdrawal_request_def Let_def raw_def [symmetric]
      view_journal_methods view_journal_methods2 view_journal_fields rid
    using i [unfolded I(1)] a [unfolded I(1) A(1)] f [unfolded A(1)] c j b m3 m1 t
    by (simp add: sbind_run map_err_def view_ops_run)
qed

text \<open>Conversely, the validator accepts what the node applies, for the right chain and nonce.\<close>

lemma burn_sudt_accepted:
  assumes S: "state_ok (blake2b E) A H v" and N: "native_token E ctx H v"
    and hs: "script_hash E (build_l2_sudt_script ctx (rw_sudt_script_hash raw)) \<in> H"
    and apart: "sudt_apart E ctx (rw_sudt_script_hash raw)"
    and j: "get_account_id_by_script_hash (view_ops root) (blake2b E)
      (script_hash E (build_l2_sudt_script ctx (rw_sudt_script_hash raw))) v = (Ok (Some j), v)"
    and b: "(if j \<noteq> CKB_SUDT_ACCOUNT_ID then in_state (burn_sudt (view_ops root) (blake2b E) j a (ucast (rw_amount raw)))
       else if rw_amount raw \<noteq> 0 then fail (GWithdrawal WithdrawFakedCKB) else ret ()) v = (Ok (), v')"
  shows "layer2_burn_sudt (view_ops root) E (rx_rollup_script_hash ctx) (rx_rollup_config ctx) raw a v = (Ok (), v')"
proof (cases "rw_sudt_script_hash raw = CKB_SUDT_SCRIPT_ARGS")
  case True
  then have "vw_map v (id_key (blake2b E) (script_hash E (build_l2_sudt_script ctx (rw_sudt_script_hash raw)))) =
      id_value CKB_SUDT_ACCOUNT_ID" using N by (simp add: native_token_def Let_def)
  then have "j = CKB_SUDT_ACCOUNT_ID" using j state_okD(2) [OF S] by (simp add: get_account_id_view)
  then show ?thesis
    using b True by (auto simp: layer2_burn_sudt_def l2_sudt_script_eq split: if_splits)
next
  case False
  let ?s = "script_hash E (build_l2_sudt_script ctx (rw_sudt_script_hash raw))"
  let ?c = "script_hash E (build_l2_sudt_script ctx CKB_SUDT_SCRIPT_ARGS)"
  obtain J: "vw_map v (script_field j) = ?s" using S hs j by (cases rule: account_id_known) auto
  have "?s \<noteq> ?c" "?c \<in> H" "vw_map v (id_key (blake2b E) ?c) = id_value CKB_SUDT_ACCOUNT_ID"
    using N False apart by (simp_all add: native_token_def sudt_apart_def Let_def)
  moreover from this have "vw_map v (script_field CKB_SUDT_ACCOUNT_ID) = ?c"
    using state_okD(3) [OF S] by (auto simp: accounts_ok_def)
  ultimately have "j \<noteq> CKB_SUDT_ACCOUNT_ID" using J by auto
  then show ?thesis
    using j b False by (simp add: layer2_burn_sudt_def l2_sudt_script_eq sbind_run map_err_def split: prod.splits outcome.splits)
qed

lemma offchain_withdrawal_view:
  fixes request :: withdrawal_request
  defines "raw \<equiv> wr_raw request"
  assumes S: "state_ok (blake2b E) A H v" and N: "native_token E ctx H v"
    and h: "rw_account_script_hash raw \<in> H"
    and hs: "script_hash E (build_l2_sudt_script ctx (rw_sudt_script_hash raw)) \<in> H"
    and apart: "sudt_apart E ctx (rw_sudt_script_hash raw)"
    and rid: "rw_registry_id raw = ETH_REGISTRY_ACCOUNT_ID" and q: "q \<in> A"
    and chain: "rw_chain_id raw = rc_chain_id (rx_rollup_config ctx)"
    and nonce: "\<And>i. vw_map v (id_key (blake2b E) (rw_account_script_hash raw)) = id_value i \<Longrightarrow>
      to_u32 (vw_map v (nonce_field i)) = rw_nonce raw"
    and run: "apply_withdrawal_request (view_journal_ops root) E ctx q request v = (Ok r, v')"
  shows "check_layer2_withdrawal_request (view_ops root) E (rx_rollup_script_hash ctx) (rx_rollup_config ctx)
      q request v = (Ok (), v')"
proof -
  let ?b = "blake2b E" and ?h = "rw_account_script_hash raw"
  let ?s = "script_hash E (build_l2_sudt_script ctx (rw_sudt_script_hash raw))"
  let ?ckb = "to_layer2 (from_layer1 (rw_capacity raw))"
  obtain a w1 i w2 v1 v2 j w3 v3 m w4 n
    where a: "get_registry_address_by_script_hash (view_ops root) ?b ETH_REGISTRY_ACCOUNT_ID ?h v = (Ok (Some a), w1)"
    and i: "get_account_id_by_script_hash (view_ops root) ?b ?h w1 = (Ok (Some i), w2)"
    and f: "pay_fee (view_ops root) ?b a q CKB_SUDT_ACCOUNT_ID (ucast (rw_fee raw)) w2 = (Ok (), v1)"
    and c: "burn_sudt (view_ops root) ?b CKB_SUDT_ACCOUNT_ID a ?ckb v1 = (Ok (), v2)"
    and j: "get_account_id_by_script_hash (view_ops root) ?b ?s v2 = (Ok (Some j), w3)"
    and s: "(if j \<noteq> CKB_SUDT_ACCOUNT_ID then in_state (burn_sudt (view_ops root) ?b j a (ucast (rw_amount raw)))
       else if rw_amount raw \<noteq> 0 then fail (GWithdrawal WithdrawFakedCKB) else ret ()) w3 = (Ok (), v3)"
    and m: "get_nonce (view_ops root) i v3 = (Ok m, w4)" and n: "checked_add m 1 = Some n"
    and t: "set_nonce (view_ops root) i n w4 = (Ok (), v')"
    using run rid unfolding apply_withdrawal_request_def Let_def raw_def [symmetric]
      view_journal_methods view_journal_methods2 view_journal_fields
    by (auto simp: sbind_Ok_iff view_ops_run)
  have A: "w1 = v" "a \<in> A" using S h a by (cases rule: registry_address_known; auto)+
  have I: "w2 = v" "vw_map v (id_key ?b ?h) = id_value i"
    using S h i [unfolded A(1)] by (cases rule: account_id_known; auto)+
  note F = pay_fee_view [OF S A(2) q f [unfolded I(1)]]
  note C = burn_moved [OF F(1) A(2) c]
  have J: "w3 = v2" using C(1) hs j by (cases rule: account_id_known; auto)+
  note B = sudt_burn_view [OF C(1) A(2) s [unfolded J(1)]]
  have N2: "native_token E ctx H v2"
    using N native_token_frame [OF F(2)] native_token_frame [OF C(3)] by blast
  have has: "vw_has v2 k" "vw_has v3 k" for k using state_okD(2) [OF C(1)] state_okD(2) [OF B(1)] by simp_all
  have m2: "m = rw_nonce raw" "w4 = v3"
    using m nonce [OF I(2)] has token_frameD(4) [OF F(2)] token_frameD(4) [OF C(3)] token_frameD(4) [OF B(2)]
    by (auto simp: get_nonce_view)
  have g: "get_nonce (view_ops root) i v2 = (Ok (rw_nonce raw), v2)"
    using nonce [OF I(2)] has token_frameD(4) [OF F(2)] token_frameD(4) [OF C(3)] by (simp add: get_nonce_view)
  have n': "saturating_add (rw_nonce raw) 1 = n" using n m2(1) by (simp add: saturating_add_def)
  have l: "layer2_pay_fee (view_ops root) ?b a q (ucast (rw_fee raw)) v = (Ok (), v1)"
    using f I(1) by (simp add: layer2_pay_fee_Ok)
  show ?thesis
    unfolding check_layer2_withdrawal_request_def Let_def raw_def [symmetric] rid
    using chain a [unfolded A(1)] i [unfolded A(1) I(1)] l c g n' t [unfolded m2(2)]
      burn_sudt_accepted [OF C(1) N2 hs apart j [unfolded J] s [unfolded J]]
    by (simp add: sbind_run map_err_def)
qed

definition withdrawal_known :: "externs \<Rightarrow> rollup_context \<Rightarrow> h256 set \<Rightarrow> withdrawal_request \<Rightarrow> bool" where
  "withdrawal_known E ctx H request \<longleftrightarrow> (
     let raw = wr_raw request in
     rw_account_script_hash raw \<in> H \<and> script_hash E (build_l2_sudt_script ctx (rw_sudt_script_hash raw)) \<in> H \<and>
     sudt_apart E ctx (rw_sudt_script_hash raw) \<and>
     rw_registry_id raw = ETH_REGISTRY_ACCOUNT_ID \<and> unat (rw_nonce raw) + 1 < 2 ^ 32)"

abbreviation apply_withdrawals ::
  "('s, 'x) finalise_ops_scheme \<Rightarrow> externs \<Rightarrow> rollup_context \<Rightarrow> registry_address \<Rightarrow> withdrawal_request list \<Rightarrow>
     ('s, generator_error, unit) sm" where
  "apply_withdrawals T E ctx q requests \<equiv>
     sfor requests (\<lambda>request. sbind (apply_withdrawal_request T E ctx q request) (\<lambda>_. ret ()))"

lemma onchain_withdrawals_view:
  assumes "state_ok (blake2b E) A H v" and "native_token E ctx H v" and q: "q \<in> A"
    and "\<forall>request\<in>set requests. withdrawal_known E ctx H request"
    and "sfor requests (check_layer2_withdrawal_request (view_ops root) E (rx_rollup_script_hash ctx)
      (rx_rollup_config ctx) q) v = (Ok (), v')"
  shows "apply_withdrawals (view_journal_ops root) E ctx q requests v = (Ok (), v')"
  using assms
proof (induction requests arbitrary: v)
  case (Cons request requests)
  obtain v1 where run: "check_layer2_withdrawal_request (view_ops root) E (rx_rollup_script_hash ctx)
      (rx_rollup_config ctx) q request v = (Ok (), v1)"
    and rest: "sfor requests (check_layer2_withdrawal_request (view_ops root) E (rx_rollup_script_hash ctx)
      (rx_rollup_config ctx) q) v1 = (Ok (), v')"
    using Cons.prems(5) by (auto simp: sbind_Ok_iff)
  have k: "rw_account_script_hash (wr_raw request) \<in> H"
    "script_hash E (build_l2_sudt_script ctx (rw_sudt_script_hash (wr_raw request))) \<in> H"
    "sudt_apart E ctx (rw_sudt_script_hash (wr_raw request))"
    "rw_registry_id (wr_raw request) = ETH_REGISTRY_ACCOUNT_ID" "unat (rw_nonce (wr_raw request)) + 1 < 2 ^ 32"
    using Cons.prems(4) by (simp_all add: withdrawal_known_def Let_def)
  note W = onchain_withdrawal_view [OF Cons.prems(1,2) k(1-4) q k(5) run]
  obtain r where r: "apply_withdrawal_request (view_journal_ops root) E ctx q request v = (Ok r, v1)"
    using W(1) by blast
  have "state_ok (blake2b E) A H v1" using apply_withdrawal_view [OF Cons.prems(1) k(1,2,4) q r] by blast
  from Cons.IH [OF this W(2) q _ rest] Cons.prems(4) r show ?case by (simp add: sbind_run)
qed simp

section \<open>A block on chain and off chain\<close>

context block_journal
begin

lemmas sim_block_withdrawal = bj.sim_apply_withdrawal
lemmas sim_block_deposit = bj.sim_apply_deposit

end

lemma runs_as_view:
  assumes "simulates good view m m'" and "good db" and "m' (view db) = (r, v')"
  shows "\<exists>db'. m db = (r, db') \<and> good db' \<and> view db' = v'"
  using simulatesD [OF assms(1,2)] assms(3) by (metis prod.inject surj_pair)

text \<open>
  C5. The validator and the node agree on the deposits and withdrawals of a block. Let the kv
  pairs of the block agree with the state the node holds, on a rollup whose account 1 is the
  native token. When the on-chain check accepts the withdrawals and then the deposits of the
  block, the node applies the same withdrawals and deposits without an error, and the kv state
  the validator ends with agrees with the state the node ends with. The tree of the validator
  only has to return what was inserted last.
\<close>

theorem accepted_block_runs_off_chain:
  assumes "smt_contract S sem tgood root" and "tx_store K absf good sc" and "hash_iter_ok it"
    and g: "block_state_good tgood absf good sc db" and M: "tree_contract M"
    and S: "state_ok (blake2b E) A H (block_state_view sem absf sc db)"
    and N: "native_token E ctx H (block_state_view sem absf sc db)"
    and p: "from_slice (rb_block_producer (lb_raw block)) = Some q" and q: "q \<in> A"
    and W: "\<forall>request\<in>set (lb_withdrawals block). withdrawal_known E ctx H request"
    and D: "\<forall>cell\<in>set cells. dc_account_script_hash cell = script_hash E (dc_account_script cell)"
    and a: "agrees M s (block_state_view sem absf sc db)"
    and run: "sbind (check_layer2_withdrawal (kv_state_ops M) E (rx_rollup_script_hash ctx) (rx_rollup_config ctx) block)
      (\<lambda>_. check_layer2_deposit (kv_state_ops M) E (rx_rollup_script_hash ctx) (rx_rollup_config ctx) cells) s = (Ok (), s')"
  shows "\<exists>db'. sbind (apply_withdrawals (block_journal_ops S K sc it) E ctx q (lb_withdrawals block))
      (\<lambda>_. sfor (map deposit_of cells) (apply_deposit_request (block_journal_ops S K sc it) E ctx)) db = (Ok (), db') \<and>
    block_state_good tgood absf good sc db' \<and> agrees M s' (block_state_view sem absf sc db')"
proof -
  let ?h = "rx_rollup_script_hash ctx" and ?c = "rx_rollup_config ctx" and ?v = "block_state_view sem absf sc db"
  obtain s1 where w: "check_layer2_withdrawal (kv_state_ops M) E ?h ?c block s = (Ok (), s1)"
    and d: "check_layer2_deposit (kv_state_ops M) E ?h ?c cells s1 = (Ok (), s')"
    using run by (auto simp: sbind_Ok_iff)
  have w1: "sfor (lb_withdrawals block) (check_layer2_withdrawal_request (kv_state_ops M) E ?h ?c q) s = (Ok (), s1)"
    using w p by (auto simp: check_layer2_withdrawal_def Let_def split: if_splits)
  obtain v1 where v1: "sfor (lb_withdrawals block) (check_layer2_withdrawal_request (view_ops root) E ?h ?c q) ?v = (Ok (), v1)"
    and a1: "agrees M s1 v1"
    by (rule refinesD [OF refines_sfor [OF tree_contract.ref_withdrawal [OF M]] a w1])
  have vw: "apply_withdrawals (view_journal_ops root) E ctx q (lb_withdrawals block) ?v = (Ok (), v1)"
    by (rule onchain_withdrawals_view [OF S N q W v1])
  have "\<exists>v2. sfor (map deposit_of cells) (apply_deposit_request (view_ops root) E ctx) v1 = (Ok (), v2) \<and> agrees M s' v2"
    using D d a1 unfolding check_layer2_deposit_def
  proof (induction cells arbitrary: s1 v1)
    case (Cons cell cells)
    then obtain s2 where d1: "check_layer2_deposit_request (kv_state_ops M) E ?h ?c cell s1 = (Ok (), s2)"
      and d2: "sfor cells (check_layer2_deposit_request (kv_state_ops M) E ?h ?c) s2 = (Ok (), s')"
      by (auto simp: sbind_Ok_iff)
    have h: "dc_account_script_hash cell = script_hash E (dc_account_script cell)" using Cons.prems(1) by simp
    obtain v2 where v2: "apply_deposit_request (view_ops root) E ctx (deposit_of cell) v1 = (Ok (), v2)" "agrees M s2 v2"
      by (rule refinesD [OF tree_contract.ref_deposit [OF M refl refl h] Cons.prems(3) d1])
    with Cons.IH [OF _ d2 v2(2)] Cons.prems(1) show ?case by (auto simp: sbind_run)
  qed simp
  then obtain v2 where v2: "sfor (map deposit_of cells) (apply_deposit_request (view_ops root) E ctx) v1 = (Ok (), v2)"
    and a2: "agrees M s' v2" by blast
  let ?w = "\<lambda>T. apply_withdrawals T E ctx q (lb_withdrawals block)"
  let ?d = "\<lambda>T. sfor (map deposit_of cells) (apply_deposit_request T E ctx)"
  have v: "sbind (?w (view_journal_ops root)) (\<lambda>_. ?d (view_ops root)) ?v = (Ok (), v2)"
    using vw v2 by (simp add: sbind_run)
  have sim: "simulates (block_state_good tgood absf good sc) (block_state_view sem absf sc)
      (sbind (?w (block_journal_ops S K sc it)) (\<lambda>_. ?d (block_journal_ops S K sc it)))
      (sbind (?w (view_journal_ops root)) (\<lambda>_. ?d (view_ops root)))"
    using block_journalI [OF assms(1-3)]
    by (intro simulates_sbind simulates_sfor simulates_prim block_journal.sim_block_withdrawal
        block_journal.sim_block_deposit)
  show ?thesis using runs_as_view [OF sim g v] a2 by auto
qed


text \<open>The tree that is the whole map runs as the map does.\<close>

context state_contract
begin

lemma sim_check_layer2_withdrawal_request [sim_intros]:
  "simulates good view (check_layer2_withdrawal_request T E rollup_type_hash config q request)
     (check_layer2_withdrawal_request (view_ops root) E rollup_type_hash config q request)"
  unfolding check_layer2_withdrawal_request_def layer2_pay_fee_def layer2_burn_sudt_def
  by (intro sim_intros)

lemma sim_check_layer2_deposit_request [sim_intros]:
  "simulates good view (check_layer2_deposit_request T E rollup_type_hash config cell)
     (check_layer2_deposit_request (view_ops root) E rollup_type_hash config cell)"
  unfolding check_layer2_deposit_request_def layer2_deposit_address_def layer2_sudt_id_def
  by (intro sim_intros)

lemma sim_check_layer2:
  "simulates good view (check_layer2_withdrawal T E rollup_type_hash config block)
     (check_layer2_withdrawal (view_ops root) E rollup_type_hash config block)"
  "simulates good view (check_layer2_deposit T E rollup_type_hash config cells)
     (check_layer2_deposit (view_ops root) E rollup_type_hash config cells)"
  unfolding check_layer2_withdrawal_def check_layer2_deposit_def by (intro sim_intros)+

end

definition full_view :: "(h256 \<rightharpoonup> h256) kv_state \<Rightarrow> view" where
  "full_view s = \<lparr> vw_map = read_map (kv_tree s), vw_has = \<lambda>_. True, vw_count = kv_account_count s,
     vw_scripts = \<lambda>_. Some sample_script, vw_data = \<lambda>_. None \<rparr>"

interpretation fkvs: state_contract "kv_state_ops function_tree" full_view "\<lambda>s. kv_proof s = []" "\<lambda>_. 0"
  by unfold_locales (auto simp: simulates_def kv_state_ops_def kv_get_raw_def kv_update_raw_def view_ops_run
    function_tree_def full_view_def set_key_def read_map_def fun_eq_iff)


definition sample_kv :: "(h256 \<rightharpoonup> h256) kv_state" where
  "sample_kv = \<lparr> kv_tree = Some \<circ> vw_map (sample_view sample_rollup), kv_proof = [], kv_account_count = 2,
     kv_previous_root = None \<rparr>"

definition sample_deposit_cell :: deposit_request_cell where
  "sample_deposit_cell = \<lparr> dc_index = 0,
     dc_args = \<lparr> dl_owner_lock_hash = 0, dl_layer2_lock = sample_script, dl_cancel_timeout = 0, dl_registry_id = 2 \<rparr>,
     dc_value = \<lparr> cv_sudt_script_hash = 0, cv_amount = 0, cv_capacity = 200 \<rparr>,
     dc_account_script = sample_script, dc_account_script_hash = sample_script_hash \<rparr>"

definition sample_raw_block :: raw_l2block where
  "sample_raw_block = \<lparr> rb_number = 30, rb_block_producer = ra_encoding sample_address, rb_parent_block_hash = numbered_hash 29,
     rb_stake_cell_owner_lock_hash = 13, rb_timestamp = 20000000,
     rb_prev_account = \<lparr> ams_merkle_root = 0, ams_count = 2 \<rparr>,
     rb_post_account = \<lparr> ams_merkle_root = 0, ams_count = 2 \<rparr>,
     rb_state_checkpoint_list = [state_checkpoint_of tag_hash 0 2],
     rb_submit_withdrawals = \<lparr> sw_withdrawal_witness_root = 0, sw_withdrawal_count = 1 \<rparr>,
     rb_submit_transactions = \<lparr> st_tx_witness_root = 0, st_tx_count = 0,
       st_prev_state_checkpoint = state_checkpoint_of tag_hash 0 2 \<rparr> \<rparr>"

definition sample_block :: l2block where
  "sample_block = \<lparr> lb_raw = sample_raw_block, lb_kv_state = [], lb_kv_state_proof = [], lb_transactions = [],
     lb_block_proof = [], lb_withdrawals = [sample_withdrawal] \<rparr>"

lemma sample_kv_view:
  "vw_map (full_view sample_kv) = vw_map (sample_view sample_rollup)"
  "vw_count (full_view sample_kv) = vw_count (sample_view sample_rollup)"
  "state_ok tag_hash sample_A sample_H (full_view sample_kv)"
proof -
  show m: "vw_map (full_view sample_kv) = vw_map (sample_view sample_rollup)"
    and c: "vw_count (full_view sample_kv) = vw_count (sample_view sample_rollup)"
    using sample_rollup_state(8) by (simp_all add: full_view_def sample_kv_def read_map_def fun_eq_iff)
  have "vw_has (full_view sample_kv) = vw_has (sample_view sample_rollup)"
    using state_okD(2) [OF sample_rollup_state(2)] by (simp add: full_view_def)
  moreover have "scripts_ok (full_view sample_kv)" by (simp add: scripts_ok_def full_view_def)
  ultimately show "state_ok tag_hash sample_A sample_H (full_view sample_kv)"
    using sample_rollup_state(2) m c
    by (simp add: state_ok_def holdings_def tot_supply_def accounts_ok_def account_keys_ok_def
        registry_ok_def registry_keys_ok_def)
qed

lemma sample_native:
  assumes "vw_map v = vw_map (sample_view sample_rollup)"
  shows "native_token sample_externs sample_context sample_H v"
  using sample_rollup_state(4) assms by (simp add: native_token_def Let_def)

lemma sample_withdrawal_fields:
  "rw_account_script_hash (wr_raw sample_withdrawal) = sample_script_hash"
  "rw_sudt_script_hash (wr_raw sample_withdrawal) = CKB_SUDT_SCRIPT_ARGS"
  "rw_registry_id (wr_raw sample_withdrawal) = ETH_REGISTRY_ACCOUNT_ID"
  "rw_chain_id (wr_raw sample_withdrawal) = rc_chain_id (rx_rollup_config sample_context)"
  "rw_nonce (wr_raw sample_withdrawal) = 0" "rw_capacity (wr_raw sample_withdrawal) = 300"
  "rw_fee (wr_raw sample_withdrawal) = 10" "rw_amount (wr_raw sample_withdrawal) = 0"
  by (simp_all add: sample_withdrawal_def CKB_SUDT_SCRIPT_ARGS_def ETH_REGISTRY_ACCOUNT_ID_def sample_context_def
      sample_config_def)

lemma sample_onchain_withdrawal:
  obtains v where "check_layer2_withdrawal_request (view_ops (\<lambda>_. 0)) sample_externs
      (rx_rollup_script_hash sample_context) (rx_rollup_config sample_context) sample_address sample_withdrawal
      (full_view sample_kv) = (Ok (), v)"
    and "state_ok tag_hash sample_A sample_H v"
    and "vw_map v (id_key tag_hash sample_script_hash) = id_value 0"
    and "vw_map v (reg_addr_key tag_hash sample_script_hash) = reg_value sample_address"
    and "tot_supply tag_hash CKB_SUDT_ACCOUNT_ID v \<le> 500 * 10 ^ 10 + 10"
proof -
  let ?v = "full_view sample_kv" and ?r = "\<lambda>_ :: h256 \<Rightarrow> h256. 0 :: h256"
  note w = sample_withdrawal_fields and m = sample_kv_view(1) and S = sample_kv_view(3)
  have S': "state_ok (blake2b sample_externs) sample_A sample_H ?v" using S by simp
  have N: "native_token sample_externs sample_context sample_H ?v" by (rule sample_native [OF m])
  have h: "rw_account_script_hash (wr_raw sample_withdrawal) \<in> sample_H"
    "script_hash sample_externs (build_l2_sudt_script sample_context (rw_sudt_script_hash (wr_raw sample_withdrawal))) \<in> sample_H"
    "sudt_apart sample_externs sample_context (rw_sudt_script_hash (wr_raw sample_withdrawal))"
    by (simp_all add: w sudt_apart_def)
  have q: "sample_address \<in> sample_A" by simp
  obtain r v where run: "apply_withdrawal_request (view_journal_ops ?r) sample_externs sample_context sample_address
      sample_withdrawal ?v = (Ok r, v)"
    using apply_withdrawal_runs [OF S' h(1,2) w(3) q q sample_address_eth, of 0 CKB_SUDT_ACCOUNT_ID ?r]
    by (auto simp: w m sample_rollup_state to_u32_0)
  have n: "to_u32 (vw_map ?v (nonce_field i)) = rw_nonce (wr_raw sample_withdrawal)"
    if "vw_map ?v (id_key (blake2b sample_externs) (rw_account_script_hash (wr_raw sample_withdrawal))) = id_value i" for i
    using that by (simp add: w m sample_rollup_state to_u32_0)
  note on = offchain_withdrawal_view [OF S' N h w(3) q w(4) n run]
  note V = onchain_withdrawal_view(3) [OF S' N h w(3) q _ on]
  note P = apply_withdrawal_view [OF S' h(1,2) w(3) q run]
  have S1: "state_ok tag_hash sample_A sample_H v" using P by simp
  obtain db where "moved tag_hash sample_A (credit CKB_SUDT_ACCOUNT_ID sample_address 10) db ?v v"
    using P by (auto simp: w)
  from moved_supply [OF S S1 this, of CKB_SUDT_ACCOUNT_ID]
  have "tot_supply tag_hash CKB_SUDT_ACCOUNT_ID v \<le> tot_supply tag_hash CKB_SUDT_ACCOUNT_ID ?v + 10"
    by (simp add: credit_def)
  moreover have "tot_supply tag_hash CKB_SUDT_ACCOUNT_ID ?v = 500 * 10 ^ 10"
  proof -
    have "holdings tag_hash CKB_SUDT_ACCOUNT_ID sample_A ?v = tot_supply tag_hash CKB_SUDT_ACCOUNT_ID ?v"
      using S unfolding state_ok_def by blast
    then show ?thesis by (simp add: holdings_def m sample_rollup_state)
  qed
  ultimately show thesis
    using that [OF on S1] V [of sample_script_hash] by (simp add: w m sample_rollup_state)
qed

lemma sample_onchain_deposit:
  assumes "state_ok tag_hash sample_A sample_H v"
    and "vw_map v (id_key tag_hash sample_script_hash) = id_value 0"
    and "vw_map v (reg_addr_key tag_hash sample_script_hash) = reg_value sample_address"
    and "tot_supply tag_hash CKB_SUDT_ACCOUNT_ID v \<le> 500 * 10 ^ 10 + 10"
  shows "\<exists>v'. check_layer2_deposit_request (view_ops root) sample_externs h config sample_deposit_cell v = (Ok (), v')"
proof -
  have room: "tot_supply tag_hash CKB_SUDT_ACCOUNT_ID v + unat (to_layer2 (from_layer1 200)) < 2 ^ 256"
    using assms(4) by (simp add: unat_from_layer1)
  obtain v' where "mint_sudt (view_ops root) tag_hash CKB_SUDT_ACCOUNT_ID sample_address
      (to_layer2 (from_layer1 200)) v = (Ok (), v')"
    by (rule mint_state_ok [OF assms(1) _ room]) auto
  moreover have "layer2_deposit_address (view_ops root) tag_hash config sample_deposit_cell v = (Ok sample_address, v)"
    using assms(2,3) state_okD(2) [OF assms(1)]
      get_registry_address_by_script_hash_view [of v tag_hash sample_script_hash root, unfolded ETH_REGISTRY_ACCOUNT_ID_def]
    by (simp add: layer2_deposit_address_def sample_deposit_cell_def sbind_run map_err_def get_account_id_view)
  ultimately show ?thesis
    by (simp add: check_layer2_deposit_request_def sbind_run map_err_def sample_deposit_cell_def sample_script_def
        CKB_SUDT_SCRIPT_ARGS_def)
qed

lemma sample_onchain_run:
  obtains s where "sbind (check_layer2_withdrawal (kv_state_ops function_tree) sample_externs
      (rx_rollup_script_hash sample_context) (rx_rollup_config sample_context) sample_block)
      (\<lambda>_. check_layer2_deposit (kv_state_ops function_tree) sample_externs (rx_rollup_script_hash sample_context)
        (rx_rollup_config sample_context) [sample_deposit_cell]) sample_kv = (Ok (), s)"
proof -
  let ?h = "rx_rollup_script_hash sample_context" and ?c = "rx_rollup_config sample_context"
  let ?T = "view_ops (\<lambda>_. 0)"
  obtain v where w: "check_layer2_withdrawal_request ?T sample_externs ?h ?c sample_address sample_withdrawal
      (full_view sample_kv) = (Ok (), v)"
    and S: "state_ok tag_hash sample_A sample_H v"
      "vw_map v (id_key tag_hash sample_script_hash) = id_value 0"
      "vw_map v (reg_addr_key tag_hash sample_script_hash) = reg_value sample_address"
      "tot_supply tag_hash CKB_SUDT_ACCOUNT_ID v \<le> 500 * 10 ^ 10 + 10"
    by (rule sample_onchain_withdrawal)
  obtain v' where d: "check_layer2_deposit_request ?T sample_externs ?h ?c sample_deposit_cell v = (Ok (), v')"
    using sample_onchain_deposit [OF S] by blast
  have "from_slice (ra_encoding sample_address) = Some sample_address"
    using from_slice_encoding [of sample_address "[]"] eth_address_fits [of sample_address] by simp
  then have "sbind (check_layer2_withdrawal ?T sample_externs ?h ?c sample_block)
      (\<lambda>_. check_layer2_deposit ?T sample_externs ?h ?c [sample_deposit_cell]) (full_view sample_kv) = (Ok (), v')"
    using w d by (simp add: check_layer2_withdrawal_def check_layer2_deposit_def sample_block_def
        sample_raw_block_def sbind_run)
  from runs_as_view [OF simulates_sbind [OF fkvs.sim_check_layer2(1) fkvs.sim_check_layer2(2)] _ this]
  show thesis using that by (auto simp: sample_kv_def)
qed

theorem accepted_block_runs_off_chain_witness:
  "\<exists>s db'. sbind (check_layer2_withdrawal (kv_state_ops function_tree) sample_externs
      (rx_rollup_script_hash sample_context) (rx_rollup_config sample_context) sample_block)
      (\<lambda>_. check_layer2_deposit (kv_state_ops function_tree) sample_externs (rx_rollup_script_hash sample_context)
        (rx_rollup_config sample_context) [sample_deposit_cell]) sample_kv = (Ok (), s) \<and>
    agrees function_tree s (sample_view db')"
proof -
  obtain s where run: "sbind (check_layer2_withdrawal (kv_state_ops function_tree) sample_externs
      (rx_rollup_script_hash sample_context) (rx_rollup_config sample_context) sample_block)
      (\<lambda>_. check_layer2_deposit (kv_state_ops function_tree) sample_externs (rx_rollup_script_hash sample_context)
        (rx_rollup_config sample_context) [sample_deposit_cell]) sample_kv = (Ok (), s)"
    by (rule sample_onchain_run)
  have "state_ok (blake2b sample_externs) sample_A sample_H (sample_view sample_rollup)"
    using sample_rollup_state(2) by simp
  moreover have "native_token sample_externs sample_context sample_H (sample_view sample_rollup)"
    by (rule sample_native) simp
  moreover have "from_slice (rb_block_producer (lb_raw sample_block)) = Some sample_address"
    using from_slice_encoding [of sample_address "[]"] eth_address_fits [of sample_address]
    by (simp add: sample_block_def sample_raw_block_def)
  moreover have "\<forall>request\<in>set (lb_withdrawals sample_block). withdrawal_known sample_externs sample_context sample_H request"
    by (simp add: sample_block_def withdrawal_known_def sample_withdrawal_fields sudt_apart_def)
  moreover have "\<forall>cell\<in>set [sample_deposit_cell].
      dc_account_script_hash cell = script_hash sample_externs (dc_account_script cell)"
    by (simp add: sample_deposit_cell_def)
  moreover have "agrees function_tree sample_kv (sample_view sample_rollup)"
    using state_okD(2) [OF sample_rollup_state(2)] sample_rollup_state(8)
    by (simp add: agrees_def function_tree_def sample_kv_def read_map_def)
  ultimately obtain db' where "agrees function_tree s (sample_view db')"
    using accepted_block_runs_off_chain [OF mtree.smt_contract_axioms ftx.tx_store_axioms fbj.it
        sample_rollup_state(1) ftree.tree_contract_axioms _ _ _ _ _ _ _ run, of sample_A sample_H sample_address]
    by auto
  with run show ?thesis by blast
qed

end
