(* ===== verification/Gw_Chain.thy ===== *)
theory Gw_Chain
  imports Gw_Rollup Gw_Assets Gw_Onchain
begin

text \<open>
  The state validator as a whole: a concrete transaction it accepts, the properties of the
  blocks it accepts, and the states a rollup can reach.
\<close>

section \<open>A transaction that submits a block\<close>

definition rollup_script :: script where
  "rollup_script = \<lparr> sc_code_hash = 11, sc_hash_type = 1, sc_args = replicate 32 0 \<rparr>"

definition owner_script :: script where
  "owner_script = \<lparr> sc_code_hash = 12, sc_hash_type = 1, sc_args = [] \<rparr>"

definition receiver_script :: script where
  "receiver_script = \<lparr> sc_code_hash = 12, sc_hash_type = 1, sc_args = replicate 9 0 \<rparr>"

abbreviation rollup_hash :: h256 where "rollup_hash \<equiv> script_hash sample_externs rollup_script"

definition rollup_lock :: "h256 \<Rightarrow> bytes \<Rightarrow> script" where
  "rollup_lock code args = \<lparr> sc_code_hash = code, sc_hash_type = 1, sc_args = as_slice rollup_hash @ args \<rparr>"

definition ckb_cell :: "u64 \<Rightarrow> script \<Rightarrow> cell" where
  "ckb_cell capacity lock = \<lparr> cl_capacity = capacity, cl_lock = lock, cl_type = None, cl_data = [] \<rparr>"

definition rollup_cell :: "bytes \<Rightarrow> cell" where
  "rollup_cell data = \<lparr> cl_capacity = 1000, cl_lock = owner_script, cl_type = Some rollup_script, cl_data = data \<rparr>"

text \<open>The block withdraws 300 and deposits 200; its kv pairs are what that needs.\<close>

definition chain_kv :: "(h256 \<times> h256) list" where
  "chain_kv =
     [(id_key tag_hash sample_script_hash, id_value 0),
      (reg_addr_key tag_hash sample_script_hash, reg_value sample_address),
      (nonce_field 0, 0),
      (bal_key tag_hash CKB_SUDT_ACCOUNT_ID sample_address, 5000000000000),
      (sup_key tag_hash CKB_SUDT_ACCOUNT_ID, 5000000000000)]"

definition chain_block :: l2block where
  "chain_block = sample_block\<lparr> lb_kv_state := chain_kv, lb_block_proof := [1] \<rparr>"

definition chain_block_hash :: h256 where
  "chain_block_hash = raw_l2block_hash sample_externs sample_raw_block"

definition chain_prev :: global_state where
  "chain_prev = \<lparr>
     gs_rollup_config_hash = 14, gs_account = \<lparr> ams_merkle_root = 0, ams_count = 2 \<rparr>,
     gs_block = \<lparr> bms_merkle_root = 0, bms_count = 30 \<rparr>, gs_reverted_block_root = 0,
     gs_tip_block_hash = numbered_hash 29, gs_tip_block_timestamp = 19000000,
     gs_last_finalized_timepoint = full_value (Timestamp 18000000), gs_status = 0, gs_version = 2 \<rparr>"

definition chain_post :: global_state where
  "chain_post = chain_prev\<lparr>
     gs_block := \<lparr> bms_merkle_root = 1, bms_count = 31 \<rparr>,
     gs_tip_block_hash := chain_block_hash, gs_tip_block_timestamp := 20000000,
     gs_last_finalized_timepoint := full_value (Timestamp 19500000) \<rparr>"

definition chain_finalized :: u64 where
  "chain_finalized = full_value (Timestamp 20720000)"

definition chain_deposit_args :: deposit_lock_args where
  "chain_deposit_args = \<lparr> dl_owner_lock_hash = 0, dl_layer2_lock = sample_script, dl_cancel_timeout = 0,
     dl_registry_id = 2 \<rparr>"

definition chain_withdrawal_args :: withdrawal_lock_args where
  "chain_withdrawal_args = \<lparr>
     wl_withdrawal_block_hash = chain_block_hash, wl_withdrawal_finalized_timepoint = chain_finalized,
     wl_account_script_hash = sample_script_hash, wl_owner_lock_hash = script_hash sample_externs owner_script \<rparr>"

definition finalized_args :: custodian_lock_args where
  "finalized_args = \<lparr> cu_deposit_block_hash = 0, cu_deposit_finalized_timepoint = full_value (Timestamp 17000000),
     cu_deposit_lock_args = chain_deposit_args \<rparr>"

definition unfinalized_args :: custodian_lock_args where
  "unfinalized_args = \<lparr> cu_deposit_block_hash = chain_block_hash, cu_deposit_finalized_timepoint = chain_finalized,
     cu_deposit_lock_args = chain_deposit_args \<rparr>"

definition chain_action :: rollup_action where
  "chain_action = RollupSubmitBlock \<lparr> rs_block = chain_block, rs_reverted_block_hashes = [], rs_reverted_block_proof = [] \<rparr>"

text \<open>
  A challenge of the block's withdrawal halts the rollup, and the revert takes the block back: the
  stake of 100 is half reward and half burnt, and the challenger gets their 200 back.
\<close>

definition chain_parent :: raw_l2block where
  "chain_parent = sample_raw_block\<lparr> rb_number := 29, rb_parent_block_hash := 28, rb_timestamp := 19000000 \<rparr>"

definition challenge_args :: challenge_lock_args where
  "challenge_args = \<lparr>
     ch_target = \<lparr> ct_block_hash = numbered_hash 30, ct_target_index = 0, ct_target_type = 2 \<rparr>,
     ch_rewards_receiver_lock = receiver_script \<rparr>"

definition chain_halted :: global_state where
  "chain_halted = chain_post\<lparr> gs_status := 1 \<rparr>"

definition chain_reverted :: global_state where
  "chain_reverted = chain_prev\<lparr>
     gs_last_finalized_timepoint := full_value (Timestamp 21000000), gs_reverted_block_root := 2 \<rparr>"

definition enter_action :: rollup_action where
  "enter_action = RollupEnterChallenge \<lparr> cw_raw_l2block = sample_raw_block, cw_block_proof = [1] \<rparr>"

definition revert_args :: rollup_revert where
  "revert_args = \<lparr> rv_reverted_blocks = [sample_raw_block], rv_block_proof = [1], rv_reverted_block_proof = [1],
     rv_new_tip_block = chain_parent \<rparr>"

definition chain_std :: ckb_std where
  "chain_std = \<lparr>
     ck_externs = sample_externs, ck_data_hash = (\<lambda>bs. if bs = [14] then 14 else 0),
     ck_since_flags = (\<lambda>_. 0), ck_is_absolute = (\<lambda>s. 1000 \<le> s),
     ck_lock_value = (\<lambda>s. Some (if s < 1000 then LockBlockNumber s else LockTimestamp s)),
     rd_script = map_of [([1], owner_script)],
     rd_deposit_lock_args = map_of [([1], chain_deposit_args)],
     rd_withdrawal_lock_args = (\<lambda>_. Some chain_withdrawal_args),
     rd_custodian_lock_args = map_of [([1], finalized_args), ([2], unfinalized_args)],
     rd_stake_lock_args = map_of [([1], \<lparr> sl_owner_lock_hash = 13, sl_stake_finalized_timepoint = chain_finalized \<rparr>)],
     rd_challenge_lock_args = map_of [([1], challenge_args)],
     rd_rollup_config = map_of [([14], sample_config)],
     rd_global_state = map_of [([1], chain_prev), ([2], chain_post), ([3], chain_halted), ([4], chain_reverted)],
     rd_global_state_v0 = Map.empty,
     rd_witness_args = (\<lambda>w. Some \<lparr> wa_lock = Some w, wa_input_type = None, wa_output_type = Some w \<rparr>),
     rd_rollup_action = map_of [([1], chain_action), ([2], enter_action), ([3], RollupRevert revert_args)],
     rd_unlock_withdrawal = map_of [([7], UnlockWithdrawalViaFinalize)],
     rd_unlock_custodian = Map.empty \<rparr>"

definition withdrawal_bytes :: bytes where
  "withdrawal_bytes = replicate 104 0 @ to_be_bytes 4 (1 :: u32) @ [1]"

definition chain_tx :: ckb_tx where
  "chain_tx = \<lparr>
     tx_inputs = [rollup_cell [1], ckb_cell 200 (rollup_lock 3 [1]), ckb_cell 1000 (rollup_lock 2 [1])],
     tx_sinces = [21000000, 0, 0],
     tx_outputs = [rollup_cell [2], ckb_cell 300 (rollup_lock 4 withdrawal_bytes), ckb_cell 700 (rollup_lock 2 [1]),
       ckb_cell 200 (rollup_lock 2 [2]), ckb_cell 100 (rollup_lock 6 [1])],
     tx_cell_deps = [\<lparr> cl_capacity = 1, cl_lock = owner_script, cl_type = None, cl_data = [14] \<rparr>],
     tx_witnesses = [[1]],
     tx_first_input = [] \<rparr>"

definition burn_script :: script where
  "burn_script = \<lparr> sc_code_hash = 12, sc_hash_type = 1, sc_args = replicate 8 0 \<rparr>"

definition enter_tx :: ckb_tx where
  "enter_tx = chain_tx\<lparr>
     tx_inputs := [rollup_cell [2]], tx_sinces := [0],
     tx_outputs := [rollup_cell [3], ckb_cell 200 (rollup_lock 5 [1])],
     tx_witnesses := [[2]] \<rparr>"

definition revert_tx :: ckb_tx where
  "revert_tx = chain_tx\<lparr>
     tx_inputs := [rollup_cell [3], ckb_cell 200 (rollup_lock 5 [1]), ckb_cell 100 (rollup_lock 6 [1])],
     tx_sinces := [21000000, 500, 0],
     tx_outputs := [rollup_cell [4], ckb_cell 250 receiver_script, ckb_cell 50 burn_script],
     tx_witnesses := [[3]] \<rparr>"

definition enter_env :: ckb_env where
  "enter_env = \<lparr> en_tx = enter_tx, en_script = rollup_script, en_group = TypeGroup \<rparr>"

definition revert_env :: ckb_env where
  "revert_env = \<lparr> en_tx = revert_tx, en_script = rollup_script, en_group = TypeGroup \<rparr>"

definition chain_env :: ckb_env where
  "chain_env = \<lparr> en_tx = chain_tx, en_script = rollup_script, en_group = TypeGroup \<rparr>"

section \<open>The validator accepts it\<close>

lemma chain_std_fields [simp]:
  "ck_externs chain_std = sample_externs"
  "ck_data_hash chain_std bs = (if bs = [14] then 14 else 0)"
  "ck_is_absolute chain_std s = (1000 \<le> s)"
  "ck_lock_value chain_std s = Some (if s < 1000 then LockBlockNumber s else LockTimestamp s)"
  "rd_script chain_std = map_of [([1], owner_script)]"
  "rd_deposit_lock_args chain_std = map_of [([1], chain_deposit_args)]"
  "rd_withdrawal_lock_args chain_std bs = Some chain_withdrawal_args"
  "rd_custodian_lock_args chain_std = map_of [([1], finalized_args), ([2], unfinalized_args)]"
  "rd_stake_lock_args chain_std = map_of [([1], \<lparr> sl_owner_lock_hash = 13, sl_stake_finalized_timepoint = chain_finalized \<rparr>)]"
  "rd_challenge_lock_args chain_std = map_of [([1], challenge_args)]"
  "rd_rollup_config chain_std = map_of [([14], sample_config)]"
  "rd_global_state chain_std = map_of [([1], chain_prev), ([2], chain_post), ([3], chain_halted), ([4], chain_reverted)]"
  "rd_witness_args chain_std w = Some \<lparr> wa_lock = Some w, wa_input_type = None, wa_output_type = Some w \<rparr>"
  "rd_rollup_action chain_std = map_of [([1], chain_action), ([2], enter_action), ([3], RollupRevert revert_args)]"
  "rd_unlock_withdrawal chain_std = map_of [([7], UnlockWithdrawalViaFinalize)]"
  by (simp_all add: chain_std_def)

lemma chain_cells:
  "cells_of chain_env Inputs = [rollup_cell [1], ckb_cell 200 (rollup_lock 3 [1]), ckb_cell 1000 (rollup_lock 2 [1])]"
  "cells_of chain_env Outputs = [rollup_cell [2], ckb_cell 300 (rollup_lock 4 withdrawal_bytes),
     ckb_cell 700 (rollup_lock 2 [1]), ckb_cell 200 (rollup_lock 2 [2]), ckb_cell 100 (rollup_lock 6 [1])]"
  "cells_of chain_env GroupInputs = [rollup_cell [1]]"
  "cells_of chain_env GroupOutputs = [rollup_cell [2]]"
  "cells_of chain_env CellDeps = [\<lparr> cl_capacity = 1, cl_lock = owner_script, cl_type = None, cl_data = [14] \<rparr>]"
  "en_script chain_env = rollup_script"
  by (simp_all add: chain_env_def chain_tx_def in_group_def ckb_cell_def rollup_cell_def)

lemma enter_cells:
  "cells_of enter_env Inputs = [rollup_cell [2]]"
  "cells_of enter_env Outputs = [rollup_cell [3], ckb_cell 200 (rollup_lock 5 [1])]"
  "cells_of enter_env GroupInputs = [rollup_cell [2]]" "cells_of enter_env GroupOutputs = [rollup_cell [3]]"
  "cells_of enter_env CellDeps = [\<lparr> cl_capacity = 1, cl_lock = owner_script, cl_type = None, cl_data = [14] \<rparr>]"
  "en_script enter_env = rollup_script" "load_witness enter_env 0 GroupOutputs = Ok [2]"
  by (simp_all add: enter_env_def enter_tx_def chain_tx_def in_group_def ckb_cell_def rollup_cell_def group_indices_def
      enumerate_eq_zip index_get_def)

lemma revert_cells:
  "cells_of revert_env Inputs = [rollup_cell [3], ckb_cell 200 (rollup_lock 5 [1]), ckb_cell 100 (rollup_lock 6 [1])]"
  "cells_of revert_env Outputs = [rollup_cell [4], ckb_cell 250 receiver_script, ckb_cell 50 burn_script]"
  "cells_of revert_env GroupInputs = [rollup_cell [3]]" "cells_of revert_env GroupOutputs = [rollup_cell [4]]"
  "cells_of revert_env CellDeps = [\<lparr> cl_capacity = 1, cl_lock = owner_script, cl_type = None, cl_data = [14] \<rparr>]"
  "en_script revert_env = rollup_script" "load_witness revert_env 0 GroupOutputs = Ok [3]"
  "load_input_since revert_env 0 GroupInputs = Ok 21000000" "load_input_since revert_env (Suc 0) Inputs = Ok 500"
  by (simp_all add: revert_env_def revert_tx_def chain_tx_def in_group_def ckb_cell_def rollup_cell_def group_indices_def
      enumerate_eq_zip index_get_def)

declare cells_of.simps [simp del] load_witness.simps [simp del] load_input_since.simps [simp del]

lemma rollup_lock_extract [simp]:
  "extract_args_from_lock reader (rollup_lock code args) rollup_hash code' =
     (if args \<noteq> [] \<and> code = code' then Some (ok_or XEncoding (reader args)) else None)"
  "extract_args_from_lock reader owner_script rollup_hash code' = None"
  "is_rollup_lock (rollup_lock code args) rollup_hash code' = (args \<noteq> [] \<and> code = code')"
  "is_rollup_lock owner_script rollup_hash code' = False"
  by (auto simp: extract_args_from_lock_def is_rollup_lock_def rollup_lock_def owner_script_def)

lemma ckb_cell_fields [simp]:
  "cl_lock (ckb_cell c l) = l" "cl_lock (rollup_cell d) = owner_script" "cl_capacity (ckb_cell c l) = c"
  "cl_type (ckb_cell c l) = None" "cl_data (rollup_cell d) = d" "cl_type (rollup_cell d) = Some rollup_script"
  "cl_capacity (rollup_cell d) = 1000"
  by (simp_all add: ckb_cell_def rollup_cell_def)

lemma chain_type_id: "verify_type_id chain_std chain_env = Ok ()"
  by (simp add: verify_type_id_def check_type_id_def has_type_id_cell_def chain_cells rollup_script_def
      TYPE_ID_SIZE_def)

lemma chain_loads:
  "load_witness chain_env 0 GroupOutputs = Ok [1]"
  "load_input_since chain_env 0 GroupInputs = Ok 21000000"
  by (simp_all add: group_indices_def chain_env_def chain_tx_def in_group_def enumerate_eq_zip index_get_def
      load_witness.simps load_input_since.simps)

lemma chain_states:
  "parse_global_state chain_std chain_env GroupInputs = Ok chain_prev"
  "parse_global_state chain_std chain_env GroupOutputs = Ok chain_post"
  "load_rollup_config chain_std chain_env 14 = Ok sample_config"
  "parse_rollup_action chain_std chain_env 0 GroupOutputs = Ok chain_action"
  by (simp_all add: parse_global_state_def load_cell_data_def load_cell_def index_get_def chain_cells
      read_global_state_def load_rollup_config_def search_rollup_config_cell_def
      parse_rollup_action_def chain_loads MAX_ROLLUP_WITNESS_SIZE_def)

lemma chain_locks:
  "enumerated_locks chain_env Inputs = [(0, owner_script), (1, rollup_lock 3 [1]), (2, rollup_lock 2 [1])]"
  "enumerated_locks chain_env Outputs = [(0, owner_script), (1, rollup_lock 4 withdrawal_bytes), (2, rollup_lock 2 [1]),
     (3, rollup_lock 2 [2]), (4, rollup_lock 6 [1])]"
  by (simp_all add: enumerated_locks_def chain_cells)

abbreviation ckb_value :: "u64 \<Rightarrow> cell_value" where
  "ckb_value c \<equiv> \<lparr> cv_sudt_script_hash = 0, cv_amount = 0, cv_capacity = c \<rparr>"

lemma chain_values:
  "fetch_capacity_and_sudt_value B chain_env config (Suc 0) Inputs = Ok (ckb_value 200)"
  "fetch_capacity_and_sudt_value B chain_env config 2 Inputs = Ok (ckb_value 1000)"
  "fetch_capacity_and_sudt_value B chain_env config (Suc 0) Outputs = Ok (ckb_value 300)"
  "fetch_capacity_and_sudt_value B chain_env config 2 Outputs = Ok (ckb_value 700)"
  "fetch_capacity_and_sudt_value B chain_env config 3 Outputs = Ok (ckb_value 200)"
  "fetch_capacity_and_sudt_value B chain_env config 4 Outputs = Ok (ckb_value 100)"
  by (simp_all add: fetch_capacity_and_sudt_value_def load_cell_capacity_def load_cell_def index_get_def
      fetch_sudt_script_hash_def load_cell_type_def h256_zero_def chain_cells)

lemma chain_config_codes:
  "rc_custodian_script_type_hash sample_config = 2" "rc_deposit_script_type_hash sample_config = 3"
  "rc_withdrawal_script_type_hash sample_config = 4" "rc_challenge_script_type_hash sample_config = 5"
  "rc_stake_script_type_hash sample_config = 6" "rc_required_staking_capacity sample_config = 100"
  "rc_finality_blocks sample_config = 20" "rc_burn_lock_hash sample_config = 8" "rc_reward_burn_rate sample_config = 50"
  "rc_challenge_maturity_blocks sample_config = 10" "rc_l1_sudt_script_type_hash sample_config = 1"
  by (simp_all add: sample_config_def)

lemma chain_collected:
  "collect_deposit_locks chain_std chain_env rollup_hash sample_config Outputs = Ok []"
  "collect_withdrawal_locks chain_std chain_env rollup_hash sample_config Inputs = Ok []"
  "find_challenge_cell chain_std chain_env rollup_hash sample_config Inputs = Ok None"
  "find_challenge_cell chain_std chain_env rollup_hash sample_config Outputs = Ok None"
  "collect_stake_cells chain_std chain_env rollup_hash sample_config Inputs = Ok []"
  "collect_stake_cells chain_std chain_env rollup_hash sample_config Outputs = Ok [\<lparr> sk_index = 4,
     sk_args = \<lparr> sl_owner_lock_hash = 13, sl_stake_finalized_timepoint = chain_finalized \<rparr>, sk_capacity = 100 \<rparr>]"
  by (simp_all add: collect_deposit_locks_def deposit_cell_at_def collect_withdrawal_locks_def withdrawal_cell_at_def
      find_challenge_cell_def challenge_cell_at_def collect_stake_cells_def stake_cell_at_def
      chain_locks chain_config_codes chain_values vec_last_def is_ckb_only_def
      CKB_SUDT_SCRIPT_ARGS_def)

lemma chain_withdrawal_lock:
  "parse_lock_args chain_std (sc_args (rollup_lock 4 withdrawal_bytes)) =
     Ok \<lparr> wo_lock_args = chain_withdrawal_args, wo_owner_lock = owner_script \<rparr>"
  by (simp add: parse_lock_args_def parse_owner_lock_def rollup_lock_def withdrawal_bytes_def
      WITHDRAWAL_LOCK_ARGS_SIZE_def byte_range_def from_to_be_bytes chain_withdrawal_args_def)

definition chain_deposit_cell :: deposit_request_cell where
  "chain_deposit_cell = \<lparr> dc_index = 1, dc_args = chain_deposit_args, dc_value = ckb_value 200,
     dc_account_script = sample_script, dc_account_script_hash = sample_script_hash \<rparr>"

lemma chain_collected2:
  "collect_withdrawal_locks chain_std chain_env rollup_hash sample_config Outputs =
     Ok [\<lparr> wc_index = 1, wc_args = chain_withdrawal_args, wc_value = ckb_value 300 \<rparr>]"
  "collect_deposit_locks chain_std chain_env rollup_hash sample_config Inputs = Ok [chain_deposit_cell]"
  "collect_custodian_locks chain_std chain_env rollup_hash sample_config Inputs =
     Ok [\<lparr> cc_index = 2, cc_args = finalized_args, cc_value = ckb_value 1000 \<rparr>]"
  "collect_custodian_locks chain_std chain_env rollup_hash sample_config Outputs =
     Ok [\<lparr> cc_index = 2, cc_args = finalized_args, cc_value = ckb_value 700 \<rparr>,
         \<lparr> cc_index = 3, cc_args = unfinalized_args, cc_value = ckb_value 200 \<rparr>]"
  by (simp_all add: collect_deposit_locks_def deposit_cell_at_def collect_withdrawal_locks_def withdrawal_cell_at_def
      collect_custodian_locks_def custodian_cell_at_def chain_locks chain_config_codes chain_values
      chain_withdrawal_lock chain_deposit_cell_def chain_deposit_args_def)
    (simp_all add: withdrawal_bytes_def)

definition chain_context :: block_context where
  "chain_context = \<lparr> bx_number = 30, bx_timestamp = 20000000, bx_block_hash = chain_block_hash,
     bx_rollup_type_hash = rollup_hash, bx_prev_account_root = 0, bx_post_version = 2,
     bx_finality_time_in_ms = 720000 \<rparr>"

lemma chain_timepoints:
  "from_full_value (full_value (Timestamp 18000000)) = Timestamp 18000000"
  "from_full_value (full_value (Timestamp 17000000)) = Timestamp 17000000"
  "from_full_value (full_value (Timestamp 19500000)) = Timestamp 19500000"
  "from_full_value chain_finalized = Timestamp 20720000"
  "full_value (Timestamp 18000000) \<le> full_value (Timestamp 19500000)"
  by (simp_all add: chain_finalized_def from_full_value_def timepoint_MASK_def)

lemma chain_finalized_timepoint:
  "finalized_timepoint chain_context = Ok (Timestamp 20720000)"
  by (simp add: finalized_timepoint_def chain_context_def fork_timestamp_as_timepoint_def add_or_panic_def
      checked_add_def)

lemma chain_custodians:
  "custodian_finalized sample_config chain_prev c =
     (case from_full_value (cu_deposit_finalized_timepoint (cc_args c)) of
        BlockNumber n \<Rightarrow> is_block_number_finalized sample_config chain_prev n
      | Timestamp t \<Rightarrow> t \<le> 18000000)"
  using chain_timepoints(1)
  by (simp add: custodian_finalized_def is_timestamp_finalized_def chain_prev_def split: timepoint.splits)

lemma fm_rows_single: "fm_rows (fmupd k v fmempty) = [(k, v)]"
  by (simp add: fm_rows_def sorted_list_of_fmap_def sorted_list_of_fset.rep_eq)

lemma fmupd_twice: "fmupd k v (fmupd k w m) = fmupd k v m"
  by (rule fmap_ext) simp

lemma ckb_assets:
  "build_assets_map_from_cells [] = Ok fmempty"
  "build_assets_map_from_cells [ckb_value c] = Ok (fmupd 0 (ucast c) fmempty)"
  using unat_less [of c]
  by (simp_all add: build_assets_map_from_cells_def CKB_SUDT_SCRIPT_ARGS_def checked_add_def fmupd_twice
      unat_ucast_up Let_def)

lemma fm_rows_empty: "fm_rows fmempty = []"
  by (simp add: fm_rows_def sorted_list_of_fmap_def sorted_list_of_fset.rep_eq)

lemma chain_check_cells:
  "check_cells chain_std chain_env sample_config chain_context chain_block chain_prev = Ok [chain_deposit_cell]"
proof -
  let ?w = "\<lparr> wc_index = 1, wc_args = chain_withdrawal_args, wc_value = ckb_value 300 \<rparr>"
  let ?m = "fmupd 0 700 fmempty :: assets"
  have h: "bx_rollup_type_hash chain_context = rollup_hash" "bx_block_hash chain_context = chain_block_hash"
    by (simp_all add: chain_context_def)
  have f: "from_full_value (cu_deposit_finalized_timepoint finalized_args) = Timestamp 17000000"
    "from_full_value (cu_deposit_finalized_timepoint unfinalized_args) = Timestamp 20720000"
    using chain_timepoints by (simp_all add: finalized_args_def unfinalized_args_def)
  have k: "keeps_deposit chain_context \<lparr> cc_index = 3, cc_args = unfinalized_args, cc_value = ckb_value 200 \<rparr>
      chain_deposit_cell = Ok True"
    by (simp add: keeps_deposit_True h chain_deposit_cell_def unfinalized_args_def chain_finalized_def
        chain_finalized_timepoint)
  have "check_withdrawal_cells chain_context (lb_withdrawals chain_block) [?w] = Ok ()"
    by (simp add: check_withdrawal_cells_def h chain_finalized_timepoint chain_withdrawal_args_def chain_finalized_def
        withdrawal_matches_def chain_block_def sample_block_def sample_withdrawal_def vec_remove_def)
  moreover have "check_input_custodian_cells chain_std chain_env sample_config chain_prev chain_context [?w] = Ok ?m"
    by (simp add: check_input_custodian_cells_def h chain_collected chain_collected2 chain_custodians f
        ckb_assets fm_rows_single checked_sub_def fmupd_twice)
  moreover have "check_output_custodian_cells chain_std chain_env sample_config chain_prev chain_context
      [chain_deposit_cell] ?m = Ok ()"
    by (simp add: check_output_custodian_cells_def h chain_collected chain_collected2 chain_custodians f
        ckb_assets fm_rows_single fm_rows_empty checked_sub_def fmupd_twice k vec_remove_def)
  ultimately show ?thesis by (simp add: check_cells_def h chain_collected2)
qed

definition chain_kv_state :: "(h256 \<rightharpoonup> h256) kv_state" where
  "chain_kv_state = \<lparr> kv_tree = Map.empty
       (id_key tag_hash sample_script_hash \<mapsto> id_value 0,
        reg_addr_key tag_hash sample_script_hash \<mapsto> reg_value sample_address,
        nonce_field 0 \<mapsto> 0,
        bal_key tag_hash CKB_SUDT_ACCOUNT_ID sample_address \<mapsto> 5000000000000,
        sup_key tag_hash CKB_SUDT_ACCOUNT_ID \<mapsto> 5000000000000),
     kv_proof = [], kv_account_count = 2, kv_previous_root = Some 0 \<rparr>"

lemma chain_load_kv: "load_kv_state function_tree chain_block chain_prev = Ok chain_kv_state"
  by (simp add: load_kv_state_def kv_build_def chain_block_def sample_block_def chain_kv_def chain_prev_def
      chain_kv_state_def kv_is_empty_def function_tree_def map_err_def kv_calculate_root_def)

lemma sample_block_hash: "raw_l2block_hash sample_externs sample_raw_block = numbered_hash 30"
  by (simp add: raw_l2block_hash_def sample_externs_def numbered_hash_def sample_raw_block_def)

lemma chain_context_loads:
  "load_block_context_and_state chain_std function_tree chain_env rollup_hash sample_config chain_block
     chain_prev chain_post = Ok (chain_context, chain_kv_state)"
proof -
  have t: "check_block_timestamp chain_std chain_env chain_post 20000000 = Ok ()"
    using chain_timepoints(3)
    by (simp add: check_block_timestamp_def chain_post_def chain_prev_def fork_block_timestamp_lower_than_since_def
        fork_block_timestamp_in_l1_backbone_range_def BACKBONE_BIAS_def saturating_sub_def saturating_add_def
        checked_sub_def checked_add_def)
  have r: "lb_raw chain_block = sample_raw_block" "rb_number sample_raw_block = 30" "rb_timestamp sample_raw_block = 20000000"
    "rb_parent_block_hash sample_raw_block = numbered_hash 29" "lb_block_proof chain_block = [1]"
    by (simp_all add: chain_block_def sample_block_def sample_raw_block_def)
  have g: "bms_count (gs_block chain_prev) = 30" "bms_count (gs_block chain_post) = 31" "gs_tip_block_hash chain_prev = numbered_hash 29"
    "gs_account chain_prev = rb_prev_account sample_raw_block" "gs_account chain_post = rb_post_account sample_raw_block"
    "gs_version chain_post = 2" "ams_merkle_root (rb_prev_account sample_raw_block) = 0"
    "bms_merkle_root (gs_block chain_prev) = 0" "bms_merkle_root (gs_block chain_post) = 1"
    by (simp_all add: chain_prev_def chain_post_def sample_raw_block_def)
  have v: "verify_leaf function_tree n (compute_smt_key 30) 0 0 [1] = Ok ()"
    "verify_leaf function_tree n (compute_smt_key 30) (raw_l2block_hash sample_externs sample_raw_block) 1 [1] = Ok ()" for n
    by (simp_all add: verify_leaf_def function_tree_def proves_def h256_zero_def sample_map_def fun_eq_iff
        compute_smt_key_inject sample_block_hash)
  have f: "finality_time_in_ms sample_config = 720000"
    by (simp add: finality_time_in_ms_def sample_config_def BLOCK_INTERVAL_IN_MILLISECONDS_def saturating_mul_def
        checked_mul_def)
  show ?thesis
    by (simp add: load_block_context_and_state_def r g t v f chain_load_kv add_or_panic_def checked_add_def
        chain_context_def chain_block_hash_def)
qed

lemma chain_keys:
  "distinct [id_key tag_hash sample_script_hash, reg_addr_key tag_hash sample_script_hash, nonce_field 0,
     bal_key tag_hash CKB_SUDT_ACCOUNT_ID sample_address, sup_key tag_hash CKB_SUDT_ACCOUNT_ID]"
proof -
  let ?ks = "[KId sample_script_hash, KRegAddr sample_script_hash, KNonce 0, KBal CKB_SUDT_ACCOUNT_ID sample_address,
    KSup CKB_SUDT_ACCOUNT_ID]"
  have "inj_on (raw_key tag_hash) (set ?ks)"
    using raw_key_eq [OF sample_no_collision] by (intro inj_onI) (auto split: if_splits)
  then have "distinct (map (raw_key tag_hash) ?ks)" by (subst distinct_map) simp
  then show ?thesis by simp
qed

definition ckb_balance :: "h256 \<Rightarrow> h256 \<Rightarrow> h256 \<Rightarrow> view" where
  "ckb_balance b t n = set_key (bal_key tag_hash CKB_SUDT_ACCOUNT_ID sample_address) b
     (set_key (sup_key tag_hash CKB_SUDT_ACCOUNT_ID) t (set_key (nonce_field 0) n (full_view chain_kv_state)))"

lemma ckb_balance_simps:
  "vw_map (ckb_balance b t n) (bal_key tag_hash CKB_SUDT_ACCOUNT_ID sample_address) = b"
  "vw_map (ckb_balance b t n) (sup_key tag_hash CKB_SUDT_ACCOUNT_ID) = t"
  "vw_map (ckb_balance b t n) (nonce_field 0) = n"
  "vw_map (ckb_balance b t n) (id_key tag_hash sample_script_hash) = id_value 0"
  "vw_map (ckb_balance b t n) (reg_addr_key tag_hash sample_script_hash) = reg_value sample_address"
  "set_key (bal_key tag_hash CKB_SUDT_ACCOUNT_ID sample_address) b' (ckb_balance b t n) = ckb_balance b' t n"
  "set_key (sup_key tag_hash CKB_SUDT_ACCOUNT_ID) t' (ckb_balance b t n) = ckb_balance b t' n"
  "set_key (nonce_field 0) n' (ckb_balance b t n) = ckb_balance b t n'"
  "vw_count (ckb_balance b t n) = 2" "vw_has (ckb_balance b t n) j"
  "full_view chain_kv_state = ckb_balance 5000000000000 5000000000000 0"
  using chain_keys
  by (auto simp: ckb_balance_def set_key_def full_view_def chain_kv_state_def read_map_def fun_eq_iff)

lemma chain_token_ops:
  "burn_sudt (view_ops root) tag_hash CKB_SUDT_ACCOUNT_ID sample_address x (ckb_balance b t n) =
      (case checked_sub b x of None \<Rightarrow> (Err AmountOverflow, ckb_balance b t n)
       | Some b' \<Rightarrow> (case checked_sub t x of None \<Rightarrow> (Err AmountOverflow, ckb_balance b' t n)
         | Some t' \<Rightarrow> (Ok (), ckb_balance b' t' n)))"
  "mint_sudt (view_ops root) tag_hash CKB_SUDT_ACCOUNT_ID sample_address x (ckb_balance b t n) =
      (case checked_add b x of None \<Rightarrow> (Err AmountOverflow, ckb_balance b t n)
       | Some b' \<Rightarrow> (case checked_add t x of None \<Rightarrow> (Err AmountOverflow, ckb_balance b' t n)
         | Some t' \<Rightarrow> (Ok (), ckb_balance b' t' n)))"
  "get_nonce (view_ops root) 0 (ckb_balance b t n) = (Ok (to_u32 n), ckb_balance b t n)"
  "set_nonce (view_ops root) 0 m (ckb_balance b t n) = (Ok (), ckb_balance b t (from_u32 m))"
  "get_account_id_by_script_hash (view_ops root) tag_hash sample_script_hash (ckb_balance b t n) =
      (Ok (Some 0), ckb_balance b t n)"
  "get_registry_address_by_script_hash (view_ops root) tag_hash ETH_REGISTRY_ACCOUNT_ID sample_script_hash
     (ckb_balance b t n) = (Ok (Some sample_address), ckb_balance b t n)"
  using eth_address_fits [of sample_address]
  by (simp_all add: burn_sudt_view mint_sudt_view get_nonce_view set_nonce_view get_account_id_view
      get_registry_address_by_script_hash_view ckb_balance_simps cong: option.case_cong)

lemma chain_withdraws:
  "check_layer2_withdrawal (view_ops root) sample_externs rollup_hash sample_config chain_block (full_view chain_kv_state) =
     (Ok (), ckb_balance 2000000000000 2000000000000 (from_u32 1))"
proof -
  have c: "to_layer2 (from_layer1 300) = 3000000000000" "rc_chain_id sample_config = 71400"
    by (simp_all add: from_layer1_def CKB_DECIMAL_POWER_TEN_def CKB_DECIMAL_POW_EXP_def sample_config_def)
  have p: "from_slice (rb_block_producer (lb_raw chain_block)) = Some sample_address"
    "lb_withdrawals chain_block = [sample_withdrawal]"
    using from_slice_encoding [of sample_address "[]"] eth_address_fits [of sample_address]
    by (simp_all add: chain_block_def sample_block_def sample_raw_block_def)
  have w: "rw_chain_id (wr_raw sample_withdrawal) = 71400" by (simp add: sample_withdrawal_def)
  show ?thesis
    by (simp add: check_layer2_withdrawal_def check_layer2_withdrawal_request_def sample_withdrawal_fields(1-3,5-8) w c p
        layer2_pay_fee_def layer2_burn_sudt_def l2_sudt_script_def sbind_run map_err_def chain_token_ops
        ckb_balance_simps(11) checked_sub_def checked_add_def saturating_add_def to_u32_0)
qed

lemma chain_deposits:
  "check_layer2_deposit (view_ops root) sample_externs rollup_hash sample_config [chain_deposit_cell]
     (ckb_balance 2000000000000 2000000000000 n) = (Ok (), ckb_balance 4000000000000 4000000000000 n)"
proof -
  have c: "to_layer2 (from_layer1 200) = 2000000000000"
    by (simp add: from_layer1_def CKB_DECIMAL_POWER_TEN_def CKB_DECIMAL_POW_EXP_def)
  show ?thesis
    using chain_token_ops(6) [unfolded ETH_REGISTRY_ACCOUNT_ID_def]
    by (simp add: check_layer2_deposit_def check_layer2_deposit_request_def layer2_deposit_address_def
        chain_deposit_cell_def chain_deposit_args_def sample_script_def CKB_SUDT_SCRIPT_ARGS_def c sbind_run map_err_def
        chain_token_ops(1-5) checked_add_def)
qed

lemma chain_account_state:
  "fst (check_account_state chain_std (kv_state_ops function_tree) rollup_hash sample_config chain_block
     [chain_deposit_cell] 2 chain_kv_state) = Ok ()"
proof -
  let ?m = "\<lambda>T. sbind (check_layer2_withdrawal T sample_externs rollup_hash sample_config chain_block)
    (\<lambda>_. check_layer2_deposit T sample_externs rollup_hash sample_config [chain_deposit_cell])"
  have "?m (view_ops (\<lambda>_. 0)) (full_view chain_kv_state) = (Ok (), ckb_balance 4000000000000 4000000000000 (from_u32 1))"
    using chain_withdraws chain_deposits by (simp add: sbind_run)
  from runs_as_view [OF simulates_sbind [OF fkvs.sim_check_layer2(1) fkvs.sim_check_layer2(2)] _ this]
  obtain s where s: "?m (kv_state_ops function_tree) chain_kv_state = (Ok (), s)"
    "full_view s = ckb_balance 4000000000000 4000000000000 (from_u32 1)" "kv_proof s = []" by (auto simp: chain_kv_state_def)
  have "kv_account_count s = 2"
    using ckb_balance_simps(9) [of 4000000000000 4000000000000 "from_u32 1"] s(2) by (simp add: full_view_def flip: s(2))
  with s(3) have c: "calculate_state_checkpoint (kv_state_ops function_tree) tag_hash s = (Ok (state_checkpoint_of tag_hash 0 2), s)"
    by (simp add: calculate_state_checkpoint_def kv_state_ops_def kv_calculate_root_def kv_is_empty_def function_tree_def
        sbind_run state_checkpoint_of_def)
  have "check_block_transactions chain_std (kv_state_ops function_tree) chain_block 2 s = (Ok (), s)"
    using c by (simp add: check_block_transactions_def chain_block_def sample_block_def sample_raw_block_def
        calculate_ckb_merkle_root_def sample_externs_def check_post_checkpoint_def post_state_checkpoint_def
        sbind_run map_err_def)
  then show ?thesis
    using s(1) by (simp add: check_account_state_def flip: sbind_assoc) (simp add: sbind_run)
qed

lemma chain_verifies:
  "submit_block_verify chain_std function_tree chain_env rollup_hash sample_config chain_block chain_prev chain_post = Ok ()"
proof -
  have st: "check_status chain_prev Running = Ok ()" by (simp add: check_status_def chain_prev_def)
  have cp: "check_state_checkpoints chain_std chain_block = Ok ()"
    by (simp add: check_state_checkpoints_def chain_block_def sample_block_def sample_raw_block_def
        post_state_checkpoint_def)
  have bw: "check_block_withdrawals chain_std chain_block = Ok ()"
    by (simp add: check_block_withdrawals_def chain_block_def sample_block_def sample_raw_block_def
        calculate_ckb_merkle_root_def sample_externs_def)
  have bp: "verify_block_producer chain_std chain_env sample_config chain_context chain_block = Ok ()"
    by (simp add: verify_block_producer_def find_block_producer_stake_cell_def chain_context_def chain_collected
        chain_block_def sample_block_def sample_raw_block_def vec_last_def chain_config_codes)
  have nc: "no_challenge_cell chain_std chain_env rollup_hash sample_config = Ok ()"
    by (simp add: no_challenge_cell_def chain_collected)
  have tt: "check_global_state_tip_block_timestamp chain_prev chain_post = Ok ()"
    by (simp add: check_global_state_tip_block_timestamp_def chain_prev_def chain_post_def)
  have lf: "check_global_state_last_finalized_timepoint chain_std chain_env sample_config chain_context
      chain_prev chain_post = Ok ()"
    using chain_timepoints(3,5)
    by (simp add: check_global_state_last_finalized_timepoint_def chain_prev_def chain_post_def chain_context_def
        fork_timestamp_as_timepoint_def rollup_input_timestamp_def chain_loads absolute_timestamp_since_def)
  have ps: "expected_post_global_state chain_context chain_block chain_prev chain_post = chain_post"
    by (simp add: expected_post_global_state_def chain_context_def chain_block_def sample_block_def sample_raw_block_def
        chain_prev_def chain_post_def)
  have v: "bx_post_version chain_context = 2" by (simp add: chain_context_def)
  show ?thesis
    by (simp add: submit_block_verify_def st cp bw bp nc tt lf ps v chain_context_loads chain_check_cells
        chain_account_state)
qed

lemma chain_accepted: "state_validator_main chain_std function_tree chain_env = Ok ()"
proof -
  have "check_initialization chain_std chain_env = Ok False"
    by (simp add: check_initialization_def load_cell_capacity_def load_cell_def index_get_def chain_cells)
  moreover have "load_cell_lock_hash chain_std chain_env 0 GroupInputs = load_cell_lock_hash chain_std chain_env 0 GroupOutputs"
    by (simp add: load_cell_lock_hash_def load_cell_def index_get_def chain_cells)
  moreover have "gs_version chain_post = 2" "gs_version chain_prev = 2" "gs_rollup_config_hash chain_prev = 14"
    by (simp_all add: chain_prev_def chain_post_def)
  moreover have "verify_action chain_std function_tree chain_env rollup_hash sample_config chain_action chain_prev chain_post = Ok ()"
    using chain_verifies by (simp add: verify_action_def chain_action_def verify_reverted_block_hashes_def)
  ultimately show ?thesis
    using chain_type_id chain_states
    by (simp add: state_validator_main_def MAX_ROLLUP_VERSION_def chain_cells)
qed

section \<open>The challenge and the revert\<close>

lemma tag_hash_short:
  assumes "length bs \<le> 5"
  shows "tag_hash bs = from_le_bytes bs"
proof -
  have z: "to_le_bytes n (0 :: u32) = replicate n 0" for n
    by (simp add: to_le_bytes_def map_replicate_const)
  have "tag_hash bs = h256_of_bytes (bs @ replicate (5 - length bs) 0 @ replicate 4 0 @ replicate 23 0)"
    using assms by (simp add: tag_hash_def z)
  also have "\<dots> = from_le_bytes bs"
    unfolding replicate_add [symmetric] h256_of_bytes_def by (rule from_le_bytes_append_zeros)
  finally show ?thesis .
qed

lemma lock_hashes [simp]:
  "script_hash sample_externs owner_script = 0" "script_hash sample_externs burn_script = 8"
  "script_hash sample_externs receiver_script = 9"
  "script_hash sample_externs (rollup_lock code [x]) = 33"
  by (simp_all add: script_hash_def sample_externs_def owner_script_def burn_script_def receiver_script_def rollup_lock_def
      tag_hash_short)

lemma burn_script_no_lock [simp]:
  "extract_args_from_lock reader burn_script rollup_hash code' = None"
  "is_rollup_lock burn_script rollup_hash code' = False"
  "extract_args_from_lock reader receiver_script rollup_hash code' = None"
  "is_rollup_lock receiver_script rollup_hash code' = False"
  by (simp_all add: extract_args_from_lock_def is_rollup_lock_def burn_script_def receiver_script_def)

lemmas revert_evals = enter_cells revert_cells enumerated_locks_def load_cell_capacity_def load_cell_def index_get_def
  load_cell_data_def load_cell_type_def fetch_capacity_and_sudt_value_def fetch_sudt_script_hash_def
  h256_zero_def chain_config_codes vec_last_def is_ckb_only_def CKB_SUDT_SCRIPT_ARGS_def

lemma enter_collected:
  "find_challenge_cell chain_std enter_env rollup_hash sample_config Inputs = Ok None"
  "find_challenge_cell chain_std enter_env rollup_hash sample_config Outputs =
     Ok (Some \<lparr> hc_index = 1, hc_args = challenge_args, hc_value = ckb_value 200 \<rparr>)"
  "check_rollup_lock_cells chain_std enter_env rollup_hash sample_config = Ok ()"
  by (simp_all add: revert_evals find_challenge_cell_def challenge_cell_at_def check_rollup_lock_cells_def
      check_rollup_lock_cells_except_stake_def require_no_cells_def collect_deposit_locks_def deposit_cell_at_def
      collect_withdrawal_locks_def withdrawal_cell_at_def collect_custodian_locks_def custodian_cell_at_def
      collect_stake_cells_def stake_cell_at_def)

lemma revert_collected:
  "find_challenge_cell chain_std revert_env rollup_hash sample_config Inputs =
     Ok (Some \<lparr> hc_index = 1, hc_args = challenge_args, hc_value = ckb_value 200 \<rparr>)"
  "find_challenge_cell chain_std revert_env rollup_hash sample_config Outputs = Ok None"
  "collect_stake_cells chain_std revert_env rollup_hash sample_config Inputs = Ok [\<lparr> sk_index = 2,
     sk_args = \<lparr> sl_owner_lock_hash = 13, sl_stake_finalized_timepoint = chain_finalized \<rparr>, sk_capacity = 100 \<rparr>]"
  "collect_stake_cells chain_std revert_env rollup_hash sample_config Outputs = Ok []"
  "check_rollup_lock_cells_except_stake chain_std revert_env rollup_hash sample_config = Ok ()"
  by (simp_all add: revert_evals find_challenge_cell_def challenge_cell_at_def
      check_rollup_lock_cells_except_stake_def require_no_cells_def collect_deposit_locks_def deposit_cell_at_def
      collect_withdrawal_locks_def withdrawal_cell_at_def collect_custodian_locks_def custodian_cell_at_def
      collect_stake_cells_def stake_cell_at_def)

lemma block_committed:
  "verify_leaf function_tree n (compute_smt_key 30) (numbered_hash 30) 1 [1] = Ok ()"
  by (simp add: verify_leaf_def function_tree_def proves_def sample_map_def fun_eq_iff compute_smt_key_inject)

lemma enter_verifies:
  "verify_enter_challenge chain_std function_tree enter_env rollup_hash sample_config
     \<lparr> cw_raw_l2block = sample_raw_block, cw_block_proof = [1] \<rparr> chain_post chain_halted = Ok ()"
proof -
  have r: "rb_number sample_raw_block = 30" "rb_timestamp sample_raw_block = 20000000"
    "sw_withdrawal_count (rb_submit_withdrawals sample_raw_block) = 1"
    by (simp_all add: sample_raw_block_def)
  have g: "gs_status chain_post = 0" "bms_merkle_root (gs_block chain_post) = 1" "gs_version chain_halted = 2"
    "gs_last_finalized_timepoint chain_halted = full_value (Timestamp 19500000)"
    by (simp_all add: chain_halted_def chain_post_def chain_prev_def)
  have "challenge_timepoint sample_config chain_halted sample_raw_block = Ok (Timestamp 20720000)"
    by (simp add: challenge_timepoint_def g r fork_timestamp_as_timepoint_def finality_time_in_ms_def sample_config_def
        BLOCK_INTERVAL_IN_MILLISECONDS_def saturating_mul_def checked_mul_def add_or_panic_def checked_add_def)
  moreover have "\<not> is_finalized sample_config chain_halted (Timestamp 20720000)"
    using chain_timepoints(3) by (simp add: is_timestamp_finalized_def g)
  ultimately show ?thesis
    by (simp add: verify_enter_challenge_def check_status_def enter_collected g r block_committed sample_block_hash
        challenge_args_def check_target_index_def challenge_target_type_try_from_def chain_halted_def)
qed

lemma revert_rewards:
  "check_rewards chain_std revert_env rollup_hash sample_config [sample_raw_block]
     \<lparr> hc_index = 1, hc_args = challenge_args, hc_value = ckb_value 200 \<rparr> = Ok ()"
proof -
  have "received_capacity chain_std revert_env sample_config 9 = Ok 250"
    by (simp add: received_capacity_def get_receiver_cells_capacity_def search_lock_hashes_def revert_evals
        add_or_panic_def checked_add_def saturating_sub_def checked_sub_def)
  moreover have "burned_capacity chain_std revert_env sample_config = Ok 50"
    by (simp add: burned_capacity_def collect_burn_cells_def burn_cell_at_def revert_evals
        add_or_panic_def checked_add_def saturating_sub_def checked_sub_def)
  moreover have "rb_stake_cell_owner_lock_hash sample_raw_block = 13" by (simp add: sample_raw_block_def)
  ultimately show ?thesis
    by (simp add: check_rewards_def revert_collected challenge_args_def chain_config_codes add_or_panic_def
        checked_add_def saturating_mul_def checked_mul_def saturating_sub_def checked_sub_def saturating_add_def)
qed

lemma reverted_roots_verify:
  "reverted_block_root_checks function_tree [compute_smt_key 30] [numbered_hash 30] revert_args chain_halted chain_reverted = Ok 0"
proof -
  have g: "bms_merkle_root (gs_block chain_halted) = 1" "gs_reverted_block_root chain_halted = 0"
    "gs_reverted_block_root chain_reverted = 2"
    by (simp_all add: chain_halted_def chain_post_def chain_prev_def chain_reverted_def)
  have k: "compute_smt_key 29 \<noteq> numbered_hash 30"
    by (simp add: numbered_hash_def tag_hash_short compute_smt_key_eq from_u64_def copy_at_def h256_of_bytes_def
        from_le_bytes_append_zeros from_le_bytes_le_bytes)
  moreover have "from_u32 1 = 1"
    by (simp add: from_u32_def copy_at_def h256_of_bytes_def from_le_bytes_append_zeros from_le_bytes_le_bytes)
  ultimately show ?thesis
    by (simp add: reverted_block_root_checks_def g verify_tree_def tree_of_def function_tree_def revert_args_def
        proves_def sample_map_def fun_eq_iff compute_smt_key_inject h256_zero_def h256_one_def)
qed

lemma revert_verifies:
  "revert_verify chain_std function_tree revert_env rollup_hash sample_config revert_args chain_halted chain_reverted = Ok ()"
proof -
  have g: "gs_status chain_halted = 1" "bms_count (gs_block chain_halted) = 31" "gs_version chain_reverted = 2"
    by (simp_all add: chain_halted_def chain_post_def chain_prev_def chain_reverted_def)
  have c: "check_challenge_cell chain_std revert_env rollup_hash sample_config
      \<lparr> hc_index = 1, hc_args = challenge_args, hc_value = ckb_value 200 \<rparr> (numbered_hash 30) = Ok ()"
    by (simp add: check_challenge_cell_def check_challenge_maturity_def revert_cells chain_config_codes revert_collected
        challenge_args_def)
  have p: "raw_l2block_hash sample_externs chain_parent = numbered_hash 29"
    by (simp add: raw_l2block_hash_def sample_externs_def numbered_hash_def chain_parent_def)
  have b: "rb_number sample_raw_block = 30" "rb_parent_block_hash sample_raw_block = numbered_hash 29"
    "rv_new_tip_block revert_args = chain_parent" "rb_timestamp chain_parent = 19000000"
    "rb_prev_account sample_raw_block = gs_account chain_prev"
    by (simp_all add: sample_raw_block_def revert_args_def chain_parent_def chain_prev_def)
  have r: "chain_halted\<lparr> gs_account := gs_account chain_prev, gs_block := \<lparr> bms_merkle_root = 0, bms_count = 30 \<rparr>,
      gs_tip_block_hash := numbered_hash 29, gs_tip_block_timestamp := 19000000,
      gs_last_finalized_timepoint := full_value (Timestamp 21000000),
      gs_reverted_block_root := gs_reverted_block_root chain_reverted, gs_status := 0 \<rparr> = chain_reverted"
    by (simp add: chain_reverted_def chain_halted_def chain_post_def chain_prev_def)
  have l: "reverted_last_finalized chain_std revert_env sample_config sample_raw_block 2 = Ok (Timestamp 21000000)"
    by (simp add: reverted_last_finalized_def fork_timestamp_as_timepoint_def rollup_input_timestamp_def revert_cells
        absolute_timestamp_since_def)
  have "check_reverted_blocks chain_std function_tree revert_env sample_config [sample_raw_block] revert_args
      chain_halted chain_reverted = Ok chain_reverted"
    using reverted_roots_verify r
    by (simp add: check_reverted_blocks_def MAX_REVERTED_BLOCKS_def g sub_or_panic_def checked_sub_def sample_block_hash
        b p l del: full_value.simps)
  then show ?thesis
    using c revert_rewards
    by (simp add: revert_verify_def check_status_def g revert_collected require_no_cells_def)
      (simp add: revert_args_def sample_block_hash)
qed

lemma later_states:
  "parse_global_state chain_std enter_env GroupInputs = Ok chain_post"
  "parse_global_state chain_std enter_env GroupOutputs = Ok chain_halted"
  "parse_global_state chain_std revert_env GroupInputs = Ok chain_halted"
  "parse_global_state chain_std revert_env GroupOutputs = Ok chain_reverted"
  "parse_rollup_action chain_std enter_env 0 GroupOutputs = Ok enter_action"
  "parse_rollup_action chain_std revert_env 0 GroupOutputs = Ok (RollupRevert revert_args)"
  "load_rollup_config chain_std enter_env 14 = Ok sample_config"
  "load_rollup_config chain_std revert_env 14 = Ok sample_config"
  by (simp_all add: parse_global_state_def load_cell_data_def load_cell_def index_get_def enter_cells revert_cells
      read_global_state_def load_rollup_config_def search_rollup_config_cell_def
      parse_rollup_action_def MAX_ROLLUP_WITNESS_SIZE_def)

lemma enter_accepted: "state_validator_main chain_std function_tree enter_env = Ok ()"
proof -
  have "check_initialization chain_std enter_env = Ok False"
    by (simp add: check_initialization_def load_cell_capacity_def load_cell_def index_get_def enter_cells)
  moreover have "verify_type_id chain_std enter_env = Ok ()"
    by (simp add: verify_type_id_def check_type_id_def has_type_id_cell_def enter_cells rollup_script_def TYPE_ID_SIZE_def)
  moreover have "gs_version chain_post = 2" "gs_version chain_halted = 2" "gs_rollup_config_hash chain_post = 14"
    by (simp_all add: chain_prev_def chain_post_def chain_halted_def)
  ultimately show ?thesis
    using later_states enter_verifies
    by (simp add: state_validator_main_def MAX_ROLLUP_VERSION_def enter_cells load_cell_lock_hash_def load_cell_def
        index_get_def verify_action_def enter_action_def)
qed

lemma revert_accepted: "state_validator_main chain_std function_tree revert_env = Ok ()"
proof -
  have "check_initialization chain_std revert_env = Ok False"
    by (simp add: check_initialization_def load_cell_capacity_def load_cell_def index_get_def revert_cells)
  moreover have "verify_type_id chain_std revert_env = Ok ()"
    by (simp add: verify_type_id_def check_type_id_def has_type_id_cell_def revert_cells rollup_script_def TYPE_ID_SIZE_def)
  moreover have "gs_version chain_halted = 2" "gs_version chain_reverted = 2" "gs_rollup_config_hash chain_halted = 14"
    by (simp_all add: chain_prev_def chain_post_def chain_halted_def chain_reverted_def)
  ultimately show ?thesis
    using later_states revert_verifies
    by (simp add: state_validator_main_def MAX_ROLLUP_VERSION_def revert_cells load_cell_lock_hash_def load_cell_def
        index_get_def verify_action_def)
qed

definition chain_blocks :: "raw_l2block set" where "chain_blocks = {chain_parent, sample_raw_block}"

lemma chain_transactions:
  "rollup_transaction chain_std function_tree chain_blocks chain_env chain_prev chain_post"
  "rollup_transaction chain_std function_tree chain_blocks enter_env chain_post chain_halted"
  "rollup_transaction chain_std function_tree chain_blocks revert_env chain_halted chain_reverted"
  using chain_accepted enter_accepted revert_accepted chain_states later_states
  by (simp_all add: rollup_transaction_def chain_cells enter_cells revert_cells chain_blocks_def chain_action_def
      enter_action_def revert_args_def chain_block_def sample_block_def)

lemma chain_run: "rollup_run chain_std function_tree chain_blocks chain_prev [chain_env, enter_env, revert_env] chain_reverted"
  using run_step [OF run_step [OF run_step [OF run_none chain_transactions(1)] chain_transactions(2)] chain_transactions(3)]
  by simp

lemma function_tree_fields:
  "tr_new function_tree n = Map.empty" "tr_update function_tree k x t = Some (t(k \<mapsto> x))"
  "tr_verify function_tree root proof t \<longleftrightarrow> proof = [1] \<and> proves root t"
  "tr_calculate_root function_tree [1] t = Some root \<longleftrightarrow> proves 0 t \<and> root = 0"
  by (auto simp: function_tree_def)

lemma tree_holds_map: "tree_holds function_tree n kvs t \<longleftrightarrow> t = map_of (rev kvs)"
proof -
  have "tree_updates function_tree err kvs t = Ok (t ++ map_of (rev kvs))" for err t
    by (induction kvs arbitrary: t) (auto simp: function_tree_fields)
  then show ?thesis by (auto simp: tree_holds_def function_tree_fields)
qed

lemma proves_at: "proves root t \<Longrightarrow> sample_map root k = (case t k of Some x \<Rightarrow> x | None \<Rightarrow> sample_map 0 k)"
  by (simp add: proves_def fun_eq_iff)

lemma map_of_rev_None: "map_of (rev kvs) k = None \<longleftrightarrow> k \<notin> set (map fst kvs)"
  by (simp add: map_of_eq_None_iff)

lemma map_of_rev_distinct: "distinct (map fst kvs) \<Longrightarrow> map_of (rev kvs) = map_of kvs"
  using map_of_inject_set [of "rev kvs" kvs] by (simp add: rev_map [symmetric])

interpretation froot: root_contract function_tree sample_map
proof unfold_locales
  show "sample_map root k = x" if "tree_holds function_tree n kvs t" "distinct (map fst kvs)"
    "tr_verify function_tree root proof t" "(k, x) \<in> set kvs" for n kvs t root "proof" k x
  proof -
    have "map_of (rev kvs) k = Some x"
      using that(2,4) by (intro map_of_is_SomeI) (simp_all add: rev_map [symmetric])
    then show ?thesis using that(1,3) proves_at [of root t k] by (simp add: tree_holds_map function_tree_fields)
  qed
  show "sample_map root' k = sample_map root k" if "tree_holds function_tree n kvs t" "tree_holds function_tree n' kvs' t'"
    "map fst kvs' = map fst kvs" "tr_verify function_tree root proof t" "tr_verify function_tree root' proof t'"
    "k \<notin> fst ` set kvs" for n kvs t n' kvs' t' root "proof" root' k
  proof -
    have "t k = None" "t' k = None"
      using that(1,2,3,6) map_of_rev_None [of kvs k] map_of_rev_None [of kvs' k] by (simp_all add: tree_holds_map)
    then show ?thesis using that(4,5) proves_at [of root t k] proves_at [of root' t' k] by (simp add: function_tree_fields)
  qed
  show "sample_map root' k = (case map_of kvs' k of Some x \<Rightarrow> x | None \<Rightarrow> sample_map root k)"
    if "tree_holds function_tree n kvs t" "tree_holds function_tree n' kvs' t'" "map fst kvs' = map fst kvs"
      "distinct (map fst kvs)" "tr_verify function_tree root proof t" "tr_calculate_root function_tree proof t' = Some root'"
    for n kvs t n' kvs' t' root "proof" root' k
  proof -
    have "map_of (rev kvs') = map_of kvs'" using that(3,4) by (intro map_of_rev_distinct) simp
    moreover have "t k = None" if "map_of kvs' k = None"
      using that \<open>map fst kvs' = map fst kvs\<close> \<open>tree_holds function_tree n kvs t\<close> map_of_rev_None [of kvs k]
      by (simp add: tree_holds_map map_of_eq_None_iff flip: set_map)
    ultimately show ?thesis
      using that(2,5,6) proves_at [of root t k] proves_at [of 0 t' k]
      by (auto simp: function_tree_fields tree_holds_map split: option.splits)
  qed
qed

end
