(* ===== verification/Gw_Contracts.thy ===== *)
theory Gw_Contracts
  imports Gw_Chain
begin

text \<open>
  The properties of the scripts on layer one: the assets of a submitted block, the chain of blocks
  a rollup commits to, challenges and reverts, and the locks that guard deposits, custodians,
  stakes and withdrawals. The examples of \<open>Gw_Chain\<close> show that each of them applies.
\<close>

section \<open>Submitted blocks\<close>

text \<open>
  C1. An accepted block creates and destroys no assets. For every token, CKB included, the
  custodian, deposit and withdrawal cells of the rollup in the inputs of the transaction hold
  together exactly what those in its outputs hold, as unbounded numbers.
\<close>

theorem submit_block_conserves_assets:
  assumes "submit_block_verify B M e rollup_type_hash config block g g' = Ok ()"
  shows "\<exists>n. rollup_assets B e rollup_type_hash config Inputs k = Ok n \<and>
    rollup_assets B e rollup_type_hash config Outputs k = Ok n"
proof -
  obtain ctx kv ds where l: "load_block_context_and_state B M e rollup_type_hash config block g g' = Ok (ctx, kv)"
    and c: "check_cells B e config ctx block g = Ok ds"
    using assms by (rule submit_verified)
  have "bx_rollup_type_hash ctx = rollup_type_hash" by (subst context_loaded(10) [OF l]) simp
  with check_cells_conserve [OF c, of k] show ?thesis by simp
qed

theorem submit_block_conserves_assets_witness:
  "\<exists>n. rollup_assets chain_std chain_env rollup_hash sample_config Inputs 0 = Ok n \<and>
    rollup_assets chain_std chain_env rollup_hash sample_config Outputs 0 = Ok n"
  by (rule submit_block_conserves_assets [OF chain_verifies])

lemma submitted_cells:
  assumes "submit_block_verify B M e rollup_type_hash config block g g' = Ok ()"
  obtains ctx kv ds ws m where "load_block_context_and_state B M e rollup_type_hash config block g g' = Ok (ctx, kv)"
    "bx_rollup_type_hash ctx = rollup_type_hash" "bx_block_hash ctx = raw_l2block_hash (ck_externs B) (lb_raw block)"
    "collect_withdrawal_locks B e rollup_type_hash config Outputs = Ok ws"
    "collect_deposit_locks B e rollup_type_hash config Inputs = Ok ds"
    "check_withdrawal_cells_loop ctx (lb_withdrawals block) ws = Ok []"
    "check_output_custodian_cells B e config g ctx ds m = Ok ()"
proof -
  obtain ctx kv ds where l: "load_block_context_and_state B M e rollup_type_hash config block g g' = Ok (ctx, kv)"
    and c: "check_cells B e config ctx block g = Ok ds"
    using assms by (rule submit_verified)
  have ctx: "bx_rollup_type_hash ctx = rollup_type_hash"
    "bx_block_hash ctx = raw_l2block_hash (ck_externs B) (lb_raw block)"
    by (subst context_loaded(10) [OF l], simp)+
  obtain ws m where "collect_withdrawal_locks B e rollup_type_hash config Outputs = Ok ws"
    "collect_deposit_locks B e rollup_type_hash config Inputs = Ok ds"
    "check_withdrawal_cells_loop ctx (lb_withdrawals block) ws = Ok []"
    "check_output_custodian_cells B e config g ctx ds m = Ok ()"
    using c by (auto simp: check_cells_def check_withdrawal_cells_def ctx split: if_splits)
  with l ctx show thesis by (rule that)
qed

text \<open>
  C7. The withdrawal cells and the new custodians of an accepted block are its withdrawals and its
  deposits, one for one. The withdrawal cells of the outputs are matched with the requests of the
  block, each with the account, token, amount and capacity of its request, and the custodians of
  the outputs that are not final are matched with the deposit cells of the inputs, each with the
  deposit's arguments and value. All of them carry the hash of the block and the timepoint at
  which it becomes final.
\<close>

theorem submit_block_matches_cells:
  assumes "submit_block_verify B M e rollup_type_hash config block g g' = Ok ()"
  shows "\<exists>ctx kv ws rs cs ds zs.
    load_block_context_and_state B M e rollup_type_hash config block g g' = Ok (ctx, kv) \<and>
    collect_withdrawal_locks B e rollup_type_hash config Outputs = Ok ws \<and>
    list_all2 withdrawal_matches ws rs \<and> mset rs = mset (lb_withdrawals block) \<and>
    (\<forall>w\<in>set ws. wl_withdrawal_block_hash (wc_args w) = raw_l2block_hash (ck_externs B) (lb_raw block) \<and>
       (\<exists>tp. finalized_timepoint ctx = Ok tp \<and> wl_withdrawal_finalized_timepoint (wc_args w) = full_value tp)) \<and>
    collect_custodian_locks B e rollup_type_hash config Outputs = Ok cs \<and>
    collect_deposit_locks B e rollup_type_hash config Inputs = Ok ds \<and>
    list_all2 (\<lambda>c d. cu_deposit_lock_args (cc_args c) = dc_args d \<and> cc_value c = dc_value d \<and>
       cu_deposit_block_hash (cc_args c) = raw_l2block_hash (ck_externs B) (lb_raw block) \<and>
       (\<exists>tp. finalized_timepoint ctx = Ok tp \<and> cu_deposit_finalized_timepoint (cc_args c) = full_value tp))
     (filter (\<lambda>c. \<not> custodian_finalized config g c) cs) zs \<and> mset zs = mset ds"
proof -
  obtain ctx kv ds ws m where l: "load_block_context_and_state B M e rollup_type_hash config block g g' = Ok (ctx, kv)"
    and ctx: "bx_rollup_type_hash ctx = rollup_type_hash" "bx_block_hash ctx = raw_l2block_hash (ck_externs B) (lb_raw block)"
    and ws: "collect_withdrawal_locks B e rollup_type_hash config Outputs = Ok ws"
    and ds: "collect_deposit_locks B e rollup_type_hash config Inputs = Ok ds"
    and w: "check_withdrawal_cells_loop ctx (lb_withdrawals block) ws = Ok []"
    and co: "check_output_custodian_cells B e config g ctx ds m = Ok ()"
    using assms by (rule submitted_cells)
  obtain rs where rs: "list_all2 withdrawal_matches ws rs" "mset (lb_withdrawals block) = mset rs"
    using withdrawal_loop_mset [OF w] by auto
  obtain cs where cs: "collect_custodian_locks B e (bx_rollup_type_hash ctx) config Outputs = Ok cs"
    and k: "match_each (keeps_deposit ctx) XInvalidCustodianCell (filter (\<lambda>c. \<not> custodian_finalized config g c) cs) ds = Ok []"
    using co by (rule output_custodians)
  obtain zs where zs: "list_all2 (\<lambda>c d. keeps_deposit ctx c d = Ok True) (filter (\<lambda>c. \<not> custodian_finalized config g c) cs) zs"
    "mset ds = mset zs"
    using match_each_mset [OF k] by auto
  have "list_all2 (\<lambda>c d. cu_deposit_lock_args (cc_args c) = dc_args d \<and> cc_value c = dc_value d \<and>
       cu_deposit_block_hash (cc_args c) = raw_l2block_hash (ck_externs B) (lb_raw block) \<and>
       (\<exists>tp. finalized_timepoint ctx = Ok tp \<and> cu_deposit_finalized_timepoint (cc_args c) = full_value tp))
     (filter (\<lambda>c. \<not> custodian_finalized config g c) cs) zs"
    using zs(1) by (rule list_all2_mono) (simp add: keeps_deposit_True ctx)
  moreover have "\<forall>w\<in>set ws. wl_withdrawal_block_hash (wc_args w) = raw_l2block_hash (ck_externs B) (lb_raw block) \<and>
       (\<exists>tp. finalized_timepoint ctx = Ok tp \<and> wl_withdrawal_finalized_timepoint (wc_args w) = full_value tp)"
    using withdrawal_loop_block [OF w] unfolding ctx by simp
  ultimately show ?thesis
    using l ws rs(1) rs(2) [symmetric] cs [unfolded ctx] ds zs(2) [symmetric] by (intro exI conjI)
qed

theorem submit_block_matches_cells_witness:
  "\<exists>ctx kv ws rs. load_block_context_and_state chain_std function_tree chain_env rollup_hash sample_config chain_block
      chain_prev chain_post = Ok (ctx, kv) \<and>
    collect_withdrawal_locks chain_std chain_env rollup_hash sample_config Outputs = Ok ws \<and>
    list_all2 withdrawal_matches ws rs \<and> mset rs = mset (lb_withdrawals chain_block)"
  using submit_block_matches_cells [OF chain_verifies] by (elim exE conjE) (intro exI conjI)

section \<open>The rollup as a state machine\<close>

text \<open>
  C2. Along every run of accepted transactions the global state commits to a chain of blocks:
  consecutive numbers, each block the parent of the next by hash, the accounts of a block those
  its successor starts from, times strictly increasing, the tip and its time and accounts in the
  global state, and nothing committed from the block count on. Submitting, challenging, cancelling
  and reverting blocks keep it, and the first block is never reverted. The sparse Merkle tree is
  its contract, the hash is free of collisions on the blocks of the run, and none of them
  hashes to the parent of the first block.
\<close>

theorem rollup_commits_to_chain:
  assumes "root_contract M committed" and "rollup_run B M S g es g'"
    and "commits_to committed (raw_l2block_hash (ck_externs B)) g bs"
    and "inj_on (raw_l2block_hash (ck_externs B)) S" and "set bs \<subseteq> S"
    and "\<forall>b\<in>S. raw_l2block_hash (ck_externs B) b \<noteq> rb_parent_block_hash (hd bs)"
  shows "\<exists>bs'. commits_to committed (raw_l2block_hash (ck_externs B)) g' bs' \<and> set bs' \<subseteq> S \<and> hd bs' = hd bs"
  using root_contract.run_commits [OF assms] .

lemma chain_start:
  "commits_to sample_map (raw_l2block_hash sample_externs) chain_prev [chain_parent]"
  "inj_on (raw_l2block_hash sample_externs) chain_blocks"
  "\<forall>b\<in>chain_blocks. raw_l2block_hash sample_externs b \<noteq> rb_parent_block_hash chain_parent"
proof -
  have p: "raw_l2block_hash sample_externs chain_parent = numbered_hash 29"
    by (simp add: raw_l2block_hash_def sample_externs_def numbered_hash_def chain_parent_def)
  have n: "numbered_hash 29 = 7425" "numbered_hash 30 = 7681"
    by (simp_all add: numbered_hash_def tag_hash_short)
  have c: "compute_smt_key n = ucast n" for n
    by (simp add: compute_smt_key_eq from_u64_def copy_at_def h256_of_bytes_def
        from_le_bytes_append_zeros from_le_bytes_le_bytes)
  have k: "compute_smt_key n \<noteq> compute_smt_key 29" if "30 \<le> n" for n
    using that by (auto simp: compute_smt_key_inject)
  show "commits_to sample_map (raw_l2block_hash sample_externs) chain_prev [chain_parent]"
    using k by (simp add: commits_to_def is_chain_def chain_prev_def p sample_map_def)
      (simp add: chain_parent_def sample_raw_block_def)
  show "inj_on (raw_l2block_hash sample_externs) chain_blocks"
    by (auto simp: chain_blocks_def p sample_block_hash n)
  show "\<forall>b\<in>chain_blocks. raw_l2block_hash sample_externs b \<noteq> rb_parent_block_hash chain_parent"
    by (simp add: chain_blocks_def p sample_block_hash n) (simp add: chain_parent_def)
qed

theorem rollup_commits_to_chain_witness:
  "\<exists>bs. commits_to sample_map (raw_l2block_hash sample_externs) chain_reverted bs \<and> set bs \<subseteq> chain_blocks \<and>
    hd bs = chain_parent"
  using rollup_commits_to_chain [OF froot.root_contract_axioms chain_run, of "[chain_parent]"] chain_start
  by (simp add: chain_blocks_def)

text \<open>
  C26. Along every run the configuration of the rollup never changes, its version never goes down
  and stays at most 2, its status stays running or halting, and its block count grows by at most
  one with each transaction.
\<close>

theorem rollup_run_keeps_config:
  assumes "rollup_run B M S g es g'"
  shows "gs_rollup_config_hash g' = gs_rollup_config_hash g \<and> gs_version g \<le> gs_version g' \<and>
    (es \<noteq> [] \<longrightarrow> gs_version g' \<le> MAX_ROLLUP_VERSION \<and> gs_status g' \<in> {0, 1}) \<and>
    unat (bms_count (gs_block g')) \<le> unat (bms_count (gs_block g)) + length es"
  using assms
proof (induction rule: rollup_run.induct)
  case (run_step g es g1 e g2)
  then show ?case using transaction_state [OF run_step.hyps(2)] by auto
qed simp

theorem rollup_run_keeps_config_witness:
  "gs_rollup_config_hash chain_reverted = gs_rollup_config_hash chain_prev \<and> gs_version chain_prev \<le> gs_version chain_reverted \<and>
    gs_version chain_reverted \<le> MAX_ROLLUP_VERSION \<and> gs_status chain_reverted \<in> {0, 1}"
  using rollup_run_keeps_config [OF chain_run] by simp

text \<open>
  C8. A challenge stops the rollup until it is resolved. A transaction accepted in the halting
  state ends with the rollup running, and it either cancels the challenge and changes nothing else
  of the global state, or reverts at least one block. In particular it submits no block.
\<close>

theorem halted_rollup_only_resolves:
  assumes "rollup_transaction B M S e g g'" and "gs_status g = status_to_u8 Halting"
  shows "gs_status g' = status_to_u8 Running \<and>
    (parse_rollup_action B e 0 GroupOutputs = Ok RollupCancelChallenge \<and> g' = g\<lparr> gs_status := status_to_u8 Running \<rparr> \<or>
     (\<exists>args. parse_rollup_action B e 0 GroupOutputs = Ok (RollupRevert args) \<and>
        unat (bms_count (gs_block g')) < unat (bms_count (gs_block g))))"
proof -
  obtain config action where a: "parse_rollup_action B e 0 GroupOutputs = Ok action"
    and v: "verify_action B M e (hash_of B (en_script e)) config action g g' = Ok ()"
    using assms(1) by (rule rollup_transaction_action)
  show ?thesis
  proof (cases action)
    case (RollupSubmitBlock args)
    then have "submit_block_verify B M e (hash_of B (en_script e)) config (rs_block args) g g' = Ok ()"
      using v by (auto simp: verify_action_def)
    from submit_post_state(2) [OF this] show ?thesis using assms(2) by simp
  next
    case (RollupEnterChallenge witness)
    then have "gs_status g = 0" using v by (auto simp: verify_action_def dest!: enter_verified(1))
    then show ?thesis using assms(2) by simp
  next
    case RollupCancelChallenge
    then have "verify_cancel_challenge B e (hash_of B (en_script e)) config g g' = Ok ()"
      using v by (simp add: verify_action_def)
    from cancel_verified [OF this] show ?thesis using a RollupCancelChallenge by simp
  next
    case (RollupRevert args)
    then have "revert_verify B M e (hash_of B (en_script e)) config args g g' = Ok ()"
      using v by (simp add: verify_action_def)
    from revert_state [OF this] show ?thesis using a RollupRevert by simp
  qed
qed

theorem halted_rollup_only_resolves_witness:
  "gs_status chain_reverted = status_to_u8 Running \<and>
    (parse_rollup_action chain_std revert_env 0 GroupOutputs = Ok RollupCancelChallenge \<and>
       chain_reverted = chain_halted\<lparr> gs_status := status_to_u8 Running \<rparr> \<or>
     (\<exists>args. parse_rollup_action chain_std revert_env 0 GroupOutputs = Ok (RollupRevert args) \<and>
        unat (bms_count (gs_block chain_reverted)) < unat (bms_count (gs_block chain_halted))))"
  by (rule halted_rollup_only_resolves [OF chain_transactions(3)]) (simp add: chain_halted_def)

text \<open>
  C32. A revert of three or more blocks is always refused. The check that the reverted blocks are
  continuous compares the parent of each block with the parent of the block before it from the
  third block on, so a list of blocks in which each is the child of the one before it by hash,
  the first two with different hashes, is never accepted.
\<close>

theorem long_revert_rejected:
  assumes "rv_reverted_blocks args = b0 # b1 # b2 # bs"
    and "rb_parent_block_hash b1 = raw_l2block_hash (ck_externs B) b0"
    and "rb_parent_block_hash b2 = raw_l2block_hash (ck_externs B) b1"
    and "raw_l2block_hash (ck_externs B) b1 \<noteq> raw_l2block_hash (ck_externs B) b0"
  shows "revert_verify B M e rollup_type_hash config args g g' \<noteq> Ok ()"
proof
  assume "revert_verify B M e rollup_type_hash config args g g' = Ok ()"
  then obtain first rest where "rv_reverted_blocks args = first # rest"
    and "check_reverted_blocks B M e config (first # rest) args g g' = Ok g'"
    by (rule revert_verified)
  moreover from this(2) obtain m where
    "check_continuous rest (raw_l2block_hash (ck_externs B) first) (rb_number first) = Ok m"
    by (rule reverted_verified)
  ultimately show False using check_continuous_Ok assms by fastforce
qed

definition numbered_block :: "u64 \<Rightarrow> h256 \<Rightarrow> raw_l2block" where
  "numbered_block n parent = sample_raw_block\<lparr> rb_number := n, rb_parent_block_hash := parent \<rparr>"

lemma numbered_block_hash:
  "raw_l2block_hash sample_externs (numbered_block n p) = tag_hash [1, ucast n]"
  by (simp add: raw_l2block_hash_def sample_externs_def numbered_block_def)

theorem long_revert_rejected_witness:
  "revert_verify chain_std function_tree revert_env rollup_hash sample_config
     (revert_args\<lparr> rv_reverted_blocks := [numbered_block 28 0, numbered_block 29 (tag_hash [1, 28]),
        numbered_block 30 (tag_hash [1, 29])] \<rparr>) chain_halted chain_reverted \<noteq> Ok ()"
proof (rule long_revert_rejected)
  show "raw_l2block_hash (ck_externs chain_std) (numbered_block 29 (tag_hash [1, 28])) \<noteq>
    raw_l2block_hash (ck_externs chain_std) (numbered_block 28 0)"
    by (simp add: numbered_block_hash tag_hash_short)
qed (simp_all add: numbered_block_hash, simp_all add: numbered_block_def)

text \<open>
  C34. No block can be submitted with version 0. The validator still has the branch that sets the
  time of the tip to zero for that version, but it also asks for a time later than the one
  before, so it refuses every block whose new global state has version 0.
\<close>

theorem version_zero_rejected:
  assumes "gs_version g' = 0"
  shows "submit_block_verify B M e rollup_type_hash config block g g' \<noteq> Ok ()"
proof
  assume ok: "submit_block_verify B M e rollup_type_hash config block g g' = Ok ()"
  then obtain ctx kv where l: "load_block_context_and_state B M e rollup_type_hash config block g g' = Ok (ctx, kv)"
    and g: "g' = expected_post_global_state ctx block g g'"
    by (rule submit_verified)
  have "bx_post_version ctx = 0" using assms by (subst context_loaded(10) [OF l]) simp
  then have "gs_tip_block_timestamp (expected_post_global_state ctx block g g') = 0"
    by (simp add: expected_post_global_state_def)
  then show False using submit_post_state(7) [OF ok] g by simp
qed

theorem version_zero_rejected_witness:
  "submit_block_verify chain_std function_tree chain_env rollup_hash sample_config chain_block
     (chain_prev\<lparr> gs_version := 0 \<rparr>) (chain_post\<lparr> gs_version := 0 \<rparr>) \<noteq> Ok ()"
  by (rule version_zero_rejected) simp

section \<open>Withdrawal cells\<close>

lemma load_cell_Ok: "load_cell e i src = Ok c \<longleftrightarrow> i < length (cells_of e src) \<and> c = cells_of e src ! i"
  by (auto simp: load_cell_def index_get_def)

text \<open>The output carries what the input carries: capacity, data and type script.\<close>

definition same_content :: "ckb_std \<Rightarrow> cell \<Rightarrow> cell \<Rightarrow> bool" where
  "same_content B c d \<longleftrightarrow> cl_capacity c = cl_capacity d \<and> cl_data c = cl_data d \<and>
     map_option (hash_of B) (cl_type c) = map_option (hash_of B) (cl_type d)"

lemma same_content_Ok:
  "check_output_cell_has_same_content B e i src j = Ok () \<longleftrightarrow>
     i < length (cells_of e src) \<and> j < length (cells_of e Outputs) \<and>
     same_content B (cells_of e src ! i) (cells_of e Outputs ! j)"
  by (auto simp: check_output_cell_has_same_content_def load_cell_capacity_def load_cell_data_def
      load_cell_type_hash_def load_cell_Ok same_content_def)

lemma no_invalid_output:
  "\<not> invalid_output_found B e h owner \<longleftrightarrow> (\<forall>i<length (cells_of e Inputs). hash_of B (cl_lock (cells_of e Inputs ! i)) = h \<longrightarrow>
     i < length (cells_of e Outputs) \<and> same_content B (cells_of e Inputs ! i) (cells_of e Outputs ! i) \<and>
     hash_of B (cl_lock (cells_of e Outputs ! i)) = owner)"
  by (auto simp: invalid_output_found_def list_ex_iff enumerated_locks_def in_set_enumerate_eq same_content_Ok
      load_cell_lock_hash_def load_cell_Ok split: prod.splits)

lemma block_reverted_Ok:
  "check_block_reverted B e h b = Ok () \<longleftrightarrow> (\<exists>index args. search_rollup_cell B e h Outputs = Some index \<and>
     parse_rollup_action B e index Outputs = Ok (RollupSubmitBlock args) \<and> b \<in> set (rs_reverted_block_hashes args))"
proof (cases "search_rollup_cell B e h Outputs")
  case (Some index)
  then show ?thesis
    by (cases "parse_rollup_action B e index Outputs")
      (auto simp: check_block_reverted_def split: rollup_action.splits if_splits)
qed (simp add: check_block_reverted_def)


text \<open>The withdrawal cell of the accepted block, claimed when it is final.\<close>

definition claim_env :: ckb_env where
  "claim_env = \<lparr>
     en_tx = \<lparr> tx_inputs = [ckb_cell 300 (rollup_lock 4 withdrawal_bytes)], tx_sinces = [20720000],
       tx_outputs = [ckb_cell 300 owner_script], tx_cell_deps = [], tx_witnesses = [[7]], tx_first_input = [] \<rparr>,
     en_script = rollup_lock 4 withdrawal_bytes, en_group = LockGroup \<rparr>"

lemma claim_cells:
  "cells_of claim_env Inputs = [ckb_cell 300 (rollup_lock 4 withdrawal_bytes)]"
  "cells_of claim_env GroupInputs = [ckb_cell 300 (rollup_lock 4 withdrawal_bytes)]"
  "cells_of claim_env Outputs = [ckb_cell 300 owner_script]"
  "en_script claim_env = rollup_lock 4 withdrawal_bytes"
  "load_witness claim_env 0 GroupInputs = Ok [7]" "load_input_since claim_env 0 GroupInputs = Ok 20720000"
  by (simp_all add: claim_env_def in_group_def group_indices_def enumerate_eq_zip index_get_def
      cells_of.simps load_witness.simps load_input_since.simps)

abbreviation claim_args :: parsed_lock_args where
  "claim_args \<equiv> \<lparr> pl_rollup_type_hash = h256_of_bytes (as_slice rollup_hash), pl_lock_args = chain_withdrawal_args,
     pl_owner_lock_hash = 0 \<rparr>"

lemma claim_parsed: "withdrawal_lock_parse chain_std claim_env = Ok claim_args"
  using chain_withdrawal_lock by (simp add: withdrawal_lock_parse_def claim_cells) (simp add: rollup_lock_def)

lemma claim_finalized: "withdrawal_unlock_via_finalize chain_std claim_env claim_args = Ok ()"
proof -
  have "check_withdrawal_finalized chain_std claim_env claim_args = Ok ()"
    using chain_timepoints(4)
    by (simp add: check_withdrawal_finalized_def chain_withdrawal_args_def assert_timestamp_le_since_def claim_cells
        absolute_timestamp_since_def)
  moreover have "\<not> invalid_output_found chain_std claim_env h 0" for h
    by (simp add: no_invalid_output claim_cells same_content_def ckb_cell_def)
  ultimately show ?thesis
    by (simp add: withdrawal_unlock_via_finalize_def load_cell_lock_hash_def load_cell_def index_get_def claim_cells)
qed

lemma claim_accepted: "withdrawal_lock_main chain_std claim_env = Ok ()"
  using claim_parsed claim_finalized by (simp add: withdrawal_lock_main_def load_witness_args_def claim_cells)


lemma collect_results_mem:
  assumes "collect_results f xs = Ok ys" and "x \<in> set xs" and "f x = Some r"
  shows "\<exists>y\<in>set ys. r = Ok y"
  using assms by (induction xs arbitrary: ys) (auto split: option.splits)

text \<open>The arguments in the lock of a withdrawal cell are those the block was checked with.\<close>

lemma submitted_withdrawal_args:
  assumes "submit_block_verify B M e rollup_type_hash config block g g' = Ok ()"
    and "cell \<in> set (cells_of e Outputs)"
    and "is_rollup_lock (cl_lock cell) rollup_type_hash (rc_withdrawal_script_type_hash config)"
  obtains ctx kv args tp where "load_block_context_and_state B M e rollup_type_hash config block g g' = Ok (ctx, kv)"
    "parse_lock_args B (sc_args (cl_lock cell)) = Ok args" "finalized_timepoint ctx = Ok tp"
    "wl_withdrawal_block_hash (wo_lock_args args) = raw_l2block_hash (ck_externs B) (lb_raw block)"
    "wl_withdrawal_finalized_timepoint (wo_lock_args args) = full_value tp"
proof -
  obtain ctx kv ds ws m where l: "load_block_context_and_state B M e rollup_type_hash config block g g' = Ok (ctx, kv)"
    and ctx: "bx_block_hash ctx = raw_l2block_hash (ck_externs B) (lb_raw block)"
    and ws: "collect_withdrawal_locks B e rollup_type_hash config Outputs = Ok ws"
    and w: "check_withdrawal_cells_loop ctx (lb_withdrawals block) ws = Ok []"
    using assms(1) by (rule submitted_cells)
  obtain i where "i < length (cells_of e Outputs)" "cells_of e Outputs ! i = cell"
    using assms(2) by (auto simp: in_set_conv_nth)
  then have "(i, cl_lock cell) \<in> set (enumerated_locks e Outputs)"
    by (simp add: enumerated_locks_def in_set_enumerate_eq)
  then obtain wc args where "wc \<in> set ws" "parse_lock_args B (sc_args (cl_lock cell)) = Ok args" "wc_args wc = wo_lock_args args"
    using collect_results_mem [OF ws [unfolded collect_withdrawal_locks_def]] assms(3)
    by (fastforce simp: withdrawal_cell_at_def)
  with l withdrawal_loop_block [OF w \<open>wc \<in> set ws\<close>] ctx show thesis by (metis that)
qed



section \<open>Custodian cells\<close>

text \<open>
  C10. A custodian cell leaves the custody of the rollup only together with the rollup cell. The
  transaction spends the rollup cell, and either the deposit of the custodian is final for its
  state, or the transaction submits a block that names the deposit's block among the reverted
  ones and returns the cell to a deposit lock of the rollup with the same deposit arguments.
\<close>

theorem custodian_unlock_sound:
  assumes "custodian_lock_main B e = Ok ()"
  shows "\<exists>rollup_type_hash args g config. custodian_lock_parse B e = Ok (rollup_type_hash, args) \<and>
    search_rollup_state B e rollup_type_hash Inputs = Ok (Some g) \<and>
    load_rollup_config B e (gs_rollup_config_hash g) = Ok config \<and>
    (is_finalized config g (from_full_value (cu_deposit_finalized_timepoint args)) \<or>
     (\<exists>index submit. search_rollup_cell B e rollup_type_hash Outputs = Some index \<and>
        parse_rollup_action B e index Outputs = Ok (RollupSubmitBlock submit) \<and>
        cu_deposit_block_hash args \<in> set (rs_reverted_block_hashes submit)) \<and>
     (\<exists>c\<in>set (cells_of e Outputs). sc_code_hash (cl_lock c) = rc_deposit_script_type_hash config \<and>
        sc_hash_type (cl_lock c) = script_hash_type_to_byte Type \<and>
        take 32 (sc_args (cl_lock c)) = as_slice rollup_type_hash \<and>
        rd_deposit_lock_args B (drop 32 (sc_args (cl_lock c))) = Some (cu_deposit_lock_args args)))"
proof -
  obtain h args g config where p: "custodian_lock_parse B e = Ok (h, args)"
    "search_rollup_state B e h Inputs = Ok (Some g)" "load_rollup_config B e (gs_rollup_config_hash g) = Ok config"
    and r: "is_finalized config g (from_full_value (cu_deposit_finalized_timepoint args)) \<or>
      custodian_unlock_via_revert B e config h args = Ok ()"
    using assms by (auto simp: custodian_lock_main_def split: if_splits)
  have "check_block_reverted B e h (cu_deposit_block_hash args) = Ok () \<and>
      (\<exists>c\<in>set (cells_of e Outputs). sc_code_hash (cl_lock c) = rc_deposit_script_type_hash config \<and>
        sc_hash_type (cl_lock c) = script_hash_type_to_byte Type \<and>
        take 32 (sc_args (cl_lock c)) = as_slice h \<and>
        rd_deposit_lock_args B (drop 32 (sc_args (cl_lock c))) = Some (cu_deposit_lock_args args))"
    if u: "custodian_unlock_via_revert B e config h args = Ok ()"
  proof -
    obtain i l where "load_cell_lock e i Outputs = Ok l" "output_lock_args (rd_deposit_lock_args B) l h = Ok (cu_deposit_lock_args args)"
      "sc_code_hash l = rc_deposit_script_type_hash config" "sc_hash_type l = script_hash_type_to_byte Type"
      "check_block_reverted B e h (cu_deposit_block_hash args) = Ok ()"
      using u by (auto simp: custodian_unlock_via_revert_def split: if_splits)
    then show ?thesis
      by (auto simp: load_cell_lock_def load_cell_Ok output_lock_args_def Let_def split: if_splits
          intro!: bexI [of _ "cells_of e Outputs ! i"])
  qed
  with p r show ?thesis unfolding block_reverted_Ok by blast
qed

definition custodian_env :: ckb_env where
  "custodian_env = chain_env\<lparr> en_script := rollup_lock 2 [1], en_group := LockGroup \<rparr>"

lemma custodian_cells:
  "cells_of custodian_env Inputs = [rollup_cell [1], ckb_cell 200 (rollup_lock 3 [1]), ckb_cell 1000 (rollup_lock 2 [1])]"
  "cells_of custodian_env CellDeps = [\<lparr> cl_capacity = 1, cl_lock = owner_script, cl_type = None, cl_data = [14] \<rparr>]"
  "en_script custodian_env = rollup_lock 2 [1]"
  by (simp_all add: custodian_env_def chain_env_def chain_tx_def cells_of.simps)

lemma custodian_accepted: "custodian_lock_main chain_std custodian_env = Ok ()"
proof -
  have "custodian_lock_parse chain_std custodian_env = Ok (rollup_hash, finalized_args)"
    by (simp add: custodian_lock_parse_def rollup_lock_args_def custodian_cells) (simp add: rollup_lock_def h256_of_as_slice)
  moreover have "search_rollup_state chain_std custodian_env rollup_hash Inputs = Ok (Some chain_prev)"
    by (simp add: search_rollup_state_def search_rollup_cell_def custodian_cells load_cell_data_def load_cell_def
        index_get_def read_global_state_def)
  moreover have "gs_rollup_config_hash chain_prev = 14" "gs_last_finalized_timepoint chain_prev = full_value (Timestamp 18000000)"
    by (simp_all add: chain_prev_def)
  moreover have "load_rollup_config chain_std custodian_env 14 = Ok sample_config"
    by (simp add: load_rollup_config_def search_rollup_config_cell_def custodian_cells load_cell_data_def load_cell_def
        index_get_def)
  moreover have "from_full_value (cu_deposit_finalized_timepoint finalized_args) = Timestamp 17000000"
    using chain_timepoints(2) by (simp add: finalized_args_def)
  ultimately show ?thesis
    using chain_timepoints(1) by (simp add: custodian_lock_main_def is_timestamp_finalized_def)
qed

theorem custodian_unlock_sound_witness:
  "\<exists>rollup_type_hash args g config. custodian_lock_parse chain_std custodian_env = Ok (rollup_type_hash, args) \<and>
    search_rollup_state chain_std custodian_env rollup_type_hash Inputs = Ok (Some g) \<and>
    load_rollup_config chain_std custodian_env (gs_rollup_config_hash g) = Ok config \<and>
    (is_finalized config g (from_full_value (cu_deposit_finalized_timepoint args)) \<or>
     (\<exists>index submit. search_rollup_cell chain_std custodian_env rollup_type_hash Outputs = Some index \<and>
        parse_rollup_action chain_std custodian_env index Outputs = Ok (RollupSubmitBlock submit) \<and>
        cu_deposit_block_hash args \<in> set (rs_reverted_block_hashes submit)) \<and>
     (\<exists>c\<in>set (cells_of custodian_env Outputs). sc_code_hash (cl_lock c) = rc_deposit_script_type_hash config \<and>
        sc_hash_type (cl_lock c) = script_hash_type_to_byte Type \<and>
        take 32 (sc_args (cl_lock c)) = as_slice rollup_type_hash \<and>
        rd_deposit_lock_args chain_std (drop 32 (sc_args (cl_lock c))) = Some (cu_deposit_lock_args args)))"
  by (rule custodian_unlock_sound [OF custodian_accepted])

section \<open>Stakes and rewards\<close>

lemma sum_u128_Ok: "sum_u128 xs acc = Ok n \<Longrightarrow> unat n = unat acc + sum_list (map unat xs)"
  by (induction xs arbitrary: acc)
    (auto simp: add_or_panic_def checked_add_Some_iff unat_add_no_overflow split: option.splits)

text \<open>
  C11. A revert takes the stake of every producer of a reverted block and pays it out in full.
  The stake cells in the inputs belong to exactly those producers, the receiver of the rewards
  gains at least the reward rate's share of their capacity plus the capacity of the challenge,
  and what is received and burnt together is at least all of the stakes and the challenge. No
  sum wraps around.
\<close>

theorem revert_settles_stakes:
  assumes "revert_verify B M e rollup_type_hash config args g g' = Ok ()"
  shows "\<exists>cell stakes received burned. find_challenge_cell B e rollup_type_hash config Inputs = Ok (Some cell) \<and>
    collect_stake_cells B e rollup_type_hash config Inputs = Ok stakes \<and>
    set (map rb_stake_cell_owner_lock_hash (rv_reverted_blocks args)) = set (map (sl_owner_lock_hash \<circ> sk_args) stakes) \<and>
    received_capacity B e config (hash_of B (ch_rewards_receiver_lock (hc_args cell))) = Ok received \<and>
    burned_capacity B e config = Ok burned \<and>
    min (2 ^ 128 - 1) (sum_list (map (unat \<circ> sk_capacity) stakes) * unat (rc_reward_burn_rate config)) div 100 +
      unat (cv_capacity (hc_value cell)) \<le> unat received \<and>
    sum_list (map (unat \<circ> sk_capacity) stakes) + unat (cv_capacity (hc_value cell)) \<le> unat received + unat burned"
proof -
  obtain first rest cell where r: "rv_reverted_blocks args = first # rest"
    and f: "find_challenge_cell B e rollup_type_hash config Inputs = Ok (Some cell)"
    and c: "check_rewards B e rollup_type_hash config (first # rest) cell = Ok ()"
    using assms by (rule revert_verified)
  let ?ch = "ucast (cv_capacity (hc_value cell)) :: u128"
  obtain stakes n received burned where k: "collect_stake_cells B e rollup_type_hash config Inputs = Ok stakes"
    "set (map rb_stake_cell_owner_lock_hash (first # rest)) = set (map (sl_owner_lock_hash \<circ> sk_args) stakes)"
    "received_capacity B e config (hash_of B (ch_rewards_receiver_lock (hc_args cell))) = Ok received"
    "burned_capacity B e config = Ok burned"
    and s: "sum_u128 (map (ucast \<circ> sk_capacity) stakes) 0 = Ok n"
    and l: "saturating_add (saturating_mul n (ucast (rc_reward_burn_rate config)) div 100) ?ch \<le> received"
      "saturating_sub n (saturating_mul n (ucast (rc_reward_burn_rate config)) div 100) \<le> burned"
    using c by (auto simp: check_rewards_def Let_def not_less split: if_splits)
  let ?r = "saturating_mul n (ucast (rc_reward_burn_rate config)) div 100"
  have n: "unat n = sum_list (map (unat \<circ> sk_capacity) stakes)"
    using sum_u128_Ok [OF s] by (simp add: comp_def unat_ucast_up)
  have w: "unat ?r = min (2 ^ 128 - 1) (unat n * unat (rc_reward_burn_rate config)) div 100"
    by (simp add: unat_div unat_saturating_mul unat_ucast_up min.commute)
  then have "unat ?r \<le> (2 ^ 128 - 1) div 100" by (simp add: div_le_mono)
  moreover have "unat ?ch < 2 ^ 64" using unat_less [of "cv_capacity (hc_value cell)"] by (simp add: unat_ucast_up)
  ultimately have received: "unat ?r + unat ?ch \<le> unat received"
    using l(1) by (simp add: word_le_nat_alt unat_saturating_add)
  moreover have "unat n - unat ?r \<le> unat burned" using l(2) by (simp add: word_le_nat_alt unat_saturating_sub)
  ultimately have "unat n + unat ?ch \<le> unat received + unat burned" by linarith
  with received have "min (2 ^ 128 - 1) (sum_list (map (unat \<circ> sk_capacity) stakes) * unat (rc_reward_burn_rate config)) div 100 +
      unat (cv_capacity (hc_value cell)) \<le> unat received"
    "sum_list (map (unat \<circ> sk_capacity) stakes) + unat (cv_capacity (hc_value cell)) \<le> unat received + unat burned"
    unfolding w n by (simp_all add: unat_ucast_up)
  with f k show ?thesis unfolding r by (intro exI conjI)
qed

theorem revert_settles_stakes_witness:
  "\<exists>stakes received burned. collect_stake_cells chain_std revert_env rollup_hash sample_config Inputs = Ok stakes \<and>
    received_capacity chain_std revert_env sample_config 9 = Ok received \<and>
    burned_capacity chain_std revert_env sample_config = Ok burned \<and> 300 \<le> unat received + unat burned"
  using revert_settles_stakes [OF revert_verifies] by (auto simp: revert_collected challenge_args_def)

end
