(* ===== verification/Gw_Cancel.thy ===== *)
theory Gw_Cancel
  imports Gw_Challenge Gw_Contracts Gw_Verify
begin

text \<open>
  What cancels a challenge: the evidence the challenge lock asks for, what an EIP-712 signature
  of a withdrawal binds, and the part of the evidence the lock does not check. The two parsers
  of the arguments of a withdrawal cell, the node's and the scripts', are shown to agree.
\<close>

section \<open>Parsers of withdrawal cells\<close>

text \<open>
  C28. The node and the scripts read the arguments of a withdrawal lock alike. When they share
  the molecule reader of scripts and the script hash, and the reader of the fixed-size arguments
  accepts exactly 104 bytes, the script accepts what the node accepts, with the same arguments and
  the same owner lock, and refuses everything else.
\<close>

theorem withdrawal_parsers_agree:
  assumes "rd_script B = ve_script_of_slice V" and "ck_externs B = E"
    and "rd_withdrawal_lock_args B = (\<lambda>bs. if length bs = 104 then Some (withdrawal_lock_args_new_unchecked bs) else None)"
  shows "Gw_Cells.parse_lock_args B args = (case Gw_Verify.parse_lock_args V E args of
      Ok p \<Rightarrow> Ok \<lparr> wo_lock_args = pw_lock_args p, wo_owner_lock = pw_owner_lock p \<rparr>
    | Err _ \<Rightarrow> Err XInvalidArgs
    | Panic \<Rightarrow> Panic)"
  using assms
  by (auto simp: Gw_Cells.parse_lock_args_def Gw_Verify.parse_lock_args_def parse_owner_lock_def Let_def byte_range_def
      WITHDRAWAL_LOCK_ARGS_SIZE_def WITHDRAWAL_LOCK_ARGS_TOTAL_SIZE_def split: option.splits)

definition node_std :: ckb_std where
  "node_std = chain_std\<lparr> rd_script := ve_script_of_slice sample_verify_externs,
     rd_withdrawal_lock_args := (\<lambda>bs. if length bs = 104 then Some (withdrawal_lock_args_new_unchecked bs) else None) \<rparr>"

theorem withdrawal_parsers_agree_witness:
  "Gw_Cells.parse_lock_args node_std (replicate 139 0 @ [1, 1]) =
    (case Gw_Verify.parse_lock_args sample_verify_externs sample_externs (replicate 139 0 @ [1, 1]) of
      Ok p \<Rightarrow> Ok \<lparr> wo_lock_args = pw_lock_args p, wo_owner_lock = pw_owner_lock p \<rparr>
    | Err _ \<Rightarrow> Err XInvalidArgs
    | Panic \<Rightarrow> Panic)"
  by (rule withdrawal_parsers_agree) (simp_all add: node_std_def)

section \<open>What a signed withdrawal binds\<close>

text \<open>The ABI encoding of a value that fits a word is that word: 32 bytes, and different for different values.\<close>

locale abi_encoder =
  fixes K :: challenge_std
  assumes uint_length: "length (abi_uint K n) = 32"
    and uint_inject: "m < 2 ^ 256 \<Longrightarrow> n < 2 ^ 256 \<Longrightarrow> abi_uint K m = abi_uint K n \<longleftrightarrow> m = n"
    and bytes32_length: "length (abi_bytes32 K h) = 32"
    and bytes32_inject: "abi_bytes32 K h = abi_bytes32 K h' \<longleftrightarrow> h = h'"
    and address_inject: "length a = 20 \<Longrightarrow> length a' = 20 \<Longrightarrow> abi_address K a = abi_address K a' \<longleftrightarrow> a = a'"

text \<open>The byte strings hashed for a struct, and for a withdrawal with all its members.\<close>

definition struct_preimages :: "challenge_std \<Rightarrow> eip712_struct \<Rightarrow> bytes set" where
  "struct_preimages K s = {es_type s, as_slice (keccak256 K (es_type s)) @ es_data s}"

definition withdrawal_preimages :: "challenge_std \<Rightarrow> eip712_withdrawal \<Rightarrow> h256 \<Rightarrow> bytes set" where
  "withdrawal_preimages K w d =
     struct_preimages K (withdrawal_eip712 K w) \<union> struct_preimages K (address_eip712 K (ew_address w)) \<union>
     struct_preimages K (script_eip712 K (ew_layer1_owner_lock w)) \<union> struct_preimages K (asset_eip712 K (ew_withdraw w)) \<union>
     {string_bytes (er_registry (ew_address w)), string_bytes (ec_hash_type (ew_layer1_owner_lock w)),
      ec_args (ew_layer1_owner_lock w), [0x19, 0x01] @ as_slice d @ as_slice (hash_struct K (withdrawal_eip712 K w))}"

lemma string_bytes_inject: "string_bytes s = string_bytes t \<longleftrightarrow> s = t"
proof
  have "inj (of_char :: char \<Rightarrow> 8 word)"
  proof (rule injI)
    fix c d assume e: "(of_char c :: 8 word) = of_char d"
    have "unat (of_char x :: 8 word) = of_char x" for x :: char
    proof -
      have "(of_char x :: 8 word) = of_nat (of_char x)" by (rule of_nat_of_char [symmetric])
      moreover have "(of_char x :: nat) < 256" by (rule nat_of_char_less_256)
      ultimately show ?thesis by (simp add: unat_of_nat)
    qed
    with e have "(of_char c :: nat) = of_char d" by metis
    then show "c = d" by simp
  qed
  then show "string_bytes s = string_bytes t \<Longrightarrow> s = t" by (simp add: string_bytes_def inj_map_eq_map)
qed simp

lemma as_slice_append_inject: "as_slice a @ x = as_slice b @ y \<longleftrightarrow> a = b \<and> x = y"
  by (simp add: append_eq_append_conv as_slice_inject)

context abi_encoder
begin

lemma hash_struct_eq:
  assumes "inj_on (keccak256 K) S" and "struct_preimages K s \<subseteq> S" and "struct_preimages K s' \<subseteq> S"
    and "hash_struct K s = hash_struct K s'"
  shows "es_data s = es_data s'"
  using assms by (auto simp: hash_struct_def struct_preimages_def as_slice_append_inject dest!: inj_onD)

lemma split32: "length x = 32 \<Longrightarrow> length y = 32 \<Longrightarrow> x @ u = y @ v \<longleftrightarrow> x = y \<and> u = (v :: bytes)"
  by simp

lemma word_uint_inject:
  assumes "LENGTH('a) \<le> 256"
  shows "abi_uint K (unat a) = abi_uint K (unat b) \<longleftrightarrow> a = (b :: 'a::len word)"
proof -
  have "unat x < 2 ^ 256" for x :: "'a word"
    using unat_less [of x] power_increasing [OF assms, of "2 :: nat"] by linarith
  then show ?thesis by (simp add: uint_inject word_unat_eq_iff)
qed

lemma withdrawal_bound:
  assumes S: "inj_on (keccak256 K) S" "withdrawal_preimages K w d \<subseteq> S" "withdrawal_preimages K w' d' \<subseteq> S"
    and a: "length (er_address (ew_address w)) = 20" "length (er_address (ew_address w')) = 20"
    and m: "eip712_message K (withdrawal_eip712 K w) d = eip712_message K (withdrawal_eip712 K w') d'"
  shows "w = w' \<and> d = d'"
proof -
  note P = S(2,3) [unfolded withdrawal_preimages_def]
  have "[0x19, 0x01] @ as_slice d @ as_slice (hash_struct K (withdrawal_eip712 K w)) =
      [0x19, 0x01] @ as_slice d' @ as_slice (hash_struct K (withdrawal_eip712 K w'))"
    using m P by (intro inj_onD [OF S(1)]) (auto simp: eip712_message_def)
  then have d: "d = d'" and h: "hash_struct K (withdrawal_eip712 K w) = hash_struct K (withdrawal_eip712 K w')"
    by (simp_all add: as_slice_append_inject as_slice_inject)
  have "es_data (withdrawal_eip712 K w) = es_data (withdrawal_eip712 K w')"
    using P by (intro hash_struct_eq [OF S(1) _ _ h]) auto
  then have n: "ew_nonce w = ew_nonce w'" "ew_chain_id w = ew_chain_id w'" "ew_fee w = ew_fee w'"
    and hs: "hash_struct K (address_eip712 K (ew_address w)) = hash_struct K (address_eip712 K (ew_address w'))"
      "hash_struct K (script_eip712 K (ew_layer1_owner_lock w)) = hash_struct K (script_eip712 K (ew_layer1_owner_lock w'))"
      "hash_struct K (asset_eip712 K (ew_withdraw w)) = hash_struct K (asset_eip712 K (ew_withdraw w'))"
    by (simp_all add: withdrawal_eip712_def split32 uint_length bytes32_length bytes32_inject word_uint_inject)
  have "es_data (address_eip712 K (ew_address w)) = es_data (address_eip712 K (ew_address w'))"
    using P by (intro hash_struct_eq [OF S(1) _ _ hs(1)]) auto
  then have "keccak256 K (string_bytes (er_registry (ew_address w))) = keccak256 K (string_bytes (er_registry (ew_address w')))"
    and ad: "er_address (ew_address w) = er_address (ew_address w')"
    using a by (simp_all add: address_eip712_def split32 bytes32_length bytes32_inject address_inject)
  then have "string_bytes (er_registry (ew_address w)) = string_bytes (er_registry (ew_address w'))"
    using P by (intro inj_onD [OF S(1)]) auto
  with ad have A: "ew_address w = ew_address w'" by (simp add: string_bytes_inject)
  have "es_data (script_eip712 K (ew_layer1_owner_lock w)) = es_data (script_eip712 K (ew_layer1_owner_lock w'))"
    using P by (intro hash_struct_eq [OF S(1) _ _ hs(2)]) auto
  then have sc: "ec_code_hash (ew_layer1_owner_lock w) = ec_code_hash (ew_layer1_owner_lock w')"
    "keccak256 K (string_bytes (ec_hash_type (ew_layer1_owner_lock w))) = keccak256 K (string_bytes (ec_hash_type (ew_layer1_owner_lock w')))"
    "keccak256 K (ec_args (ew_layer1_owner_lock w)) = keccak256 K (ec_args (ew_layer1_owner_lock w'))"
    by (simp_all add: script_eip712_def split32 bytes32_length bytes32_inject)
  have "string_bytes (ec_hash_type (ew_layer1_owner_lock w)) = string_bytes (ec_hash_type (ew_layer1_owner_lock w'))"
    "ec_args (ew_layer1_owner_lock w) = ec_args (ew_layer1_owner_lock w')"
    using P sc(2,3) by (auto intro!: inj_onD [OF S(1)])
  with sc(1) have B: "ew_layer1_owner_lock w = ew_layer1_owner_lock w'" by (simp add: string_bytes_inject)
  have "es_data (asset_eip712 K (ew_withdraw w)) = es_data (asset_eip712 K (ew_withdraw w'))"
    using P by (intro hash_struct_eq [OF S(1) _ _ hs(3)]) auto
  then have "ew_withdraw w = ew_withdraw w'"
    by (simp add: asset_eip712_def split32 uint_length bytes32_length bytes32_inject word_uint_inject)
  with n A B d show ?thesis by simp
qed

end

text \<open>
  C22. A signature of a withdrawal binds every field of it. When two withdrawals with addresses of
  20 bytes have the same EIP-712 message, for any two domains, they and their domains are equal:
  same address, nonce, chain, fee, owner lock and assets. The hash has no collision on the byte
  strings hashed for the two, and the ABI encoder is its contract.
\<close>

theorem eip712_binds_withdrawal:
  assumes "abi_encoder K"
    and "inj_on (keccak256 K) (withdrawal_preimages K w d \<union> withdrawal_preimages K w' d')"
    and "length (er_address (ew_address w)) = 20" and "length (er_address (ew_address w')) = 20"
    and "eip712_message K (withdrawal_eip712 K w) d = eip712_message K (withdrawal_eip712 K w') d'"
  shows "w = w' \<and> d = d'"
  using abi_encoder.withdrawal_bound [OF assms(1,2) _ _ assms(3,4,5)] by blast

section \<open>A sample encoder\<close>

text \<open>
  The encoder writes a value as 32 bytes, big-endian for a number and left-padded for an address.
  The hash is of the length and the first byte, enough to tell the strings of a withdrawal apart.
\<close>

definition sample_keccak :: "bytes \<Rightarrow> h256" where
  "sample_keccak bs = of_nat (length bs + 1024 * (case bs of [] \<Rightarrow> 0 | b # _ \<Rightarrow> unat b))"

definition cancel_std :: challenge_std where
  "cancel_std = \<lparr>
     keccak256 = sample_keccak, abi_uint = (\<lambda>n. to_be_bytes 32 (of_nat n :: h256)), abi_bytes32 = as_slice,
     abi_address = (\<lambda>a. replicate 12 0 @ a), rlp_list = (\<lambda>_. []),
     cbmt_verify = (\<lambda>p root leaves. leaves = mp_lemmas p \<and> mp_indices p = [0]),
     rd_cc_transaction = Map.empty, rd_cc_signature = Map.empty, rd_cc_withdrawal = Map.empty \<rparr>"

interpretation sabi: abi_encoder cancel_std
proof
  fix m n :: nat and h h' :: h256 and a a' :: bytes
  show "length (abi_uint cancel_std n) = 32" by (simp add: cancel_std_def)
  show "length (abi_bytes32 cancel_std h) = 32" by (simp add: cancel_std_def)
  show "abi_bytes32 cancel_std h = abi_bytes32 cancel_std h' \<longleftrightarrow> h = h'" by (simp add: cancel_std_def as_slice_inject)
  show "abi_address cancel_std a = abi_address cancel_std a' \<longleftrightarrow> a = a'" by (simp add: cancel_std_def)
  assume "m < 2 ^ 256" "n < 2 ^ 256"
  then show "abi_uint cancel_std m = abi_uint cancel_std n \<longleftrightarrow> m = n"
    by (simp add: cancel_std_def to_be_bytes_def to_le_bytes_inject word_of_nat_eq_iff take_bit_nat_eq_self)
qed

definition sample_eip712_withdrawal :: eip712_withdrawal where
  "sample_eip712_withdrawal = \<lparr>
     ew_address = \<lparr> er_registry = ''ETH'', er_address = replicate 20 1 \<rparr>,
     ew_nonce = 0, ew_chain_id = 71400, ew_fee = 10,
     ew_layer1_owner_lock = \<lparr> ec_code_hash = 12, ec_hash_type = ''type'', ec_args = [] \<rparr>,
     ew_withdraw = \<lparr> ea_ckb_capacity = 300, ea_udt_amount = 0, ea_udt_script_hash = 0 \<rparr> \<rparr>"

text \<open>The strings hashed for the sample have different hashes.\<close>

lemma sample_preimages:
  "inj_on (keccak256 cancel_std) (withdrawal_preimages cancel_std sample_eip712_withdrawal 0)"
proof -
  have k: "sample_keccak [] = 0" "sample_keccak (b # bs) = of_nat (Suc (length bs) + 1024 * unat b)"
    "sample_keccak (as_slice h @ x) = of_nat (32 + length x + 1024 * unat (ucast h :: u8))" for b bs h x
    by (simp_all add: sample_keccak_def as_slice_def to_le_bytes_def upt_rec)
  have s: "string_bytes [] = []" "string_bytes (c # cs) = of_char c # string_bytes cs" for c cs
    by (simp_all add: string_bytes_def)
  let ?s = "[script_eip712 cancel_std (ew_layer1_owner_lock sample_eip712_withdrawal),
     asset_eip712 cancel_std (ew_withdraw sample_eip712_withdrawal),
     address_eip712 cancel_std (ew_address sample_eip712_withdrawal), withdrawal_eip712 cancel_std sample_eip712_withdrawal]"
  let ?xs = "map es_type ?s @ map (\<lambda>s. as_slice (keccak256 cancel_std (es_type s)) @ es_data s) ?s @
     [string_bytes ''ETH'', string_bytes ''type'', [],
      [0x19, 0x01] @ as_slice 0 @ as_slice (hash_struct cancel_std (withdrawal_eip712 cancel_std sample_eip712_withdrawal))]"
  have "distinct (map (keccak256 cancel_std) ?xs)"
    by (simp add: cancel_std_def script_eip712_def asset_eip712_def address_eip712_def withdrawal_eip712_def k s
        sample_eip712_withdrawal_def)
  then have "inj_on (keccak256 cancel_std) (set ?xs)" by (simp only: distinct_map)
  moreover have "withdrawal_preimages cancel_std sample_eip712_withdrawal 0 \<subseteq> set ?xs"
    unfolding withdrawal_preimages_def struct_preimages_def by (simp add: sample_eip712_withdrawal_def)
  ultimately show ?thesis by (rule inj_on_subset)
qed

text \<open>The typed value made of a request is the sample, and signing either is signing the other.\<close>

definition sample_typed :: "eip712_withdrawal checked" where
  "sample_typed = withdrawal_from_raw (wr_raw sample_withdrawal) owner_script
     \<lparr> ra_registry_id = ETH_REGISTRY_ACCOUNT_ID, ra_address = replicate 20 1 \<rparr>"

lemma sample_typed_value: "sample_typed = Ok sample_eip712_withdrawal"
  by (simp add: sample_typed_def withdrawal_from_raw_def sample_withdrawal_def owner_script_def
      script_hash_type_try_from_def eip712_from_address_def sample_eip712_withdrawal_def)

theorem eip712_binds_withdrawal_witness:
  "\<exists>w. sample_typed = Ok w \<and> w = sample_eip712_withdrawal \<and> (0 :: h256) = 0"
proof -
  have "sample_eip712_withdrawal = sample_eip712_withdrawal \<and> (0 :: h256) = 0"
    by (rule eip712_binds_withdrawal [OF sabi.abi_encoder_axioms])
      (simp_all add: sample_preimages, simp_all add: sample_eip712_withdrawal_def)
  with sample_typed_value show ?thesis by blast
qed

section \<open>What is not checked\<close>

lemma registry_of_tree:
  "fst (in_kv (get_registry_address_by_script_hash (kv_state_ops M) b2b i h)
     \<lparr> kv_tree = t, kv_proof = p, kv_account_count = n, kv_previous_root = r \<rparr>) =
   fst (in_kv (get_registry_address_by_script_hash (kv_state_ops M) b2b i h)
     \<lparr> kv_tree = t, kv_proof = p', kv_account_count = n', kv_previous_root = r' \<rparr>)"
  by (simp add: get_registry_address_by_script_hash_def get_value_def kv_state_ops_def kv_get_raw_def sbind_def map_err_def
      split: outcome.splits option.splits)

text \<open>
  C33. A challenge of a withdrawal is cancelled with kv pairs nobody proves. The lock builds a state
  of the pairs, the proof and the account count in the witness, and reads the address the signed
  message names from it, but its outcome is the same for every proof and every account count: the
  pairs are never held against a state of the rollup.
\<close>

theorem withdrawal_state_unproved:
  "verify_withdrawal B (K\<lparr> rd_cc_withdrawal :=
      map_option (\<lambda>w. w\<lparr> cd_kv_state_proof := p, cd_account_count := n \<rparr>) \<circ> rd_cc_withdrawal K \<rparr>) M e config lock_args =
    verify_withdrawal B K M e config lock_args"
proof -
  let ?K = "K\<lparr> rd_cc_withdrawal :=
      map_option (\<lambda>w. w\<lparr> cd_kv_state_proof := p, cd_account_count := n \<rparr>) \<circ> rd_cc_withdrawal K \<rparr>"
  have "obind (kv_build M k kvs p n None) (\<lambda>s.
      obind (fst (in_kv (get_registry_address_by_script_hash (kv_state_ops M) b2b i h) s)) f) =
    obind (kv_build M k kvs p' n' None) (\<lambda>s.
      obind (fst (in_kv (get_registry_address_by_script_hash (kv_state_ops M) b2b i h) s)) f)"
    for k kvs p' n' b2b i h and f :: "registry_address option \<Rightarrow> withdrawal_context checked"
    using registry_of_tree [of M b2b i h _ p n None p' n' None]
    by (cases "tree_updates M XSMTKeyMissing kvs (tr_new M k)") (simp_all add: kv_build_def)
  then have proof_free: "verify_withdrawal_proof B ?K M e lock_args = verify_withdrawal_proof B K M e lock_args"
    unfolding verify_withdrawal_proof_def
    apply (intro arg_cong [where f = "obind _"] ext)
    subgoal for w a by (cases "rd_cc_withdrawal K a") (simp_all add: Let_def)
    done
  have "eip712_message ?K (withdrawal_eip712 ?K w) (hash_struct ?K (domain_eip712 ?K d)) =
      eip712_message K (withdrawal_eip712 K w) (hash_struct K (domain_eip712 K d))" for w d
    by (simp add: eip712_message_def hash_struct_def withdrawal_eip712_def domain_eip712_def script_eip712_def
        asset_eip712_def address_eip712_def split: option.splits)
  then show ?thesis unfolding verify_withdrawal_def proof_free by (simp only:)
qed

section \<open>The evidence\<close>

text \<open>
  The target of a challenge is a transaction, or a withdrawal, at an index of a block; the state a
  transaction runs on has the checkpoint before it; an account signs a message with an input cell
  under its lock whose data from byte 32 is the signing type and the message.
\<close>

definition tx_in_block ::
  "ckb_std \<Rightarrow> challenge_std \<Rightarrow> challenge_target \<Rightarrow> raw_l2block \<Rightarrow> l2transaction \<Rightarrow> bool" where
  "tx_in_block B K target raw_block tx \<longleftrightarrow>
     raw_l2block_hash (ck_externs B) raw_block = ct_block_hash target \<and>
     (\<exists>proof. cbmt_verify K proof (st_tx_witness_root (rb_submit_transactions raw_block))
       [ckb_merkle_leaf_hash (blake2b (ck_externs B)) (ct_target_index target) (l2transaction_witness_hash (ck_externs B) tx)])"

definition withdrawal_in_block ::
  "ckb_std \<Rightarrow> challenge_std \<Rightarrow> challenge_target \<Rightarrow> raw_l2block \<Rightarrow> withdrawal_request \<Rightarrow> bool" where
  "withdrawal_in_block B K target raw_block w \<longleftrightarrow>
     raw_l2block_hash (ck_externs B) raw_block = ct_block_hash target \<and>
     (\<exists>proof. cbmt_verify K proof (sw_withdrawal_witness_root (rb_submit_withdrawals raw_block))
       [ckb_merkle_leaf_hash (blake2b (ck_externs B)) (ct_target_index target)
         (withdrawal_request_witness_hash (ck_externs B) w)])"

definition state_before_tx :: "ckb_std \<Rightarrow> 't smt_tree \<Rightarrow> challenge_target \<Rightarrow> raw_l2block \<Rightarrow> 't kv_state \<Rightarrow> bool" where
  "state_before_tx B M target raw_block s \<longleftrightarrow>
     (\<exists>root. fst (kv_calculate_root M s) = Ok root \<and>
       tx_prev_state_checkpoint raw_block (ct_target_index target) =
         Ok (state_checkpoint_of (blake2b (ck_externs B)) root (kv_account_count s)))"

definition account_field :: "'t smt_tree \<Rightarrow> 't kv_state \<Rightarrow> u32 \<Rightarrow> u8 \<Rightarrow> h256 option" where
  "account_field M s i field = tr_get M (build_account_field_key i field) (kv_tree s)"

definition signed_by :: "ckb_std \<Rightarrow> ckb_env \<Rightarrow> h256 \<Rightarrow> h256 \<Rightarrow> bool" where
  "signed_by B e account message \<longleftrightarrow>
     (\<exists>c\<in>set (cells_of e Inputs). hash_of B (cl_lock c) = account \<and> drop 32 (cl_data c) = 0 # as_slice message)"

lemma kv_get_raw_Ok [simp]: "kv_get_raw M k s = (Ok v, t) \<longleftrightarrow> tr_get M k (kv_tree s) = Some v \<and> t = s"
  by (auto simp: kv_get_raw_def sbind_Ok_iff ok_or_def split: option.splits)

lemma kv_calculate_root_count:
  assumes "kv_calculate_root M s = (Ok root, t)"
  shows "kv_account_count t = kv_account_count s"
  using assms by (auto simp: kv_calculate_root_def sbind_Ok_iff split: if_splits)

lemma signature_cell_loop_Ok:
  assumes "signature_cell_loop e Raw message indices = Ok ()"
  shows "\<exists>i\<in>set indices. \<exists>d. load_cell_data e i Inputs = Ok d \<and> drop 32 d = 0 # as_slice message"
  using assms
proof (induction indices)
  case (Cons i indices)
  then obtain d where d: "load_cell_data e i Inputs = Ok d" by auto
  show ?case
  proof (cases "length (drop 32 d) = 33 \<and> signing_type_try_from (hd (drop 32 d)) = Ok Raw \<and> tl (drop 32 d) = as_slice message")
    case True
    then have "hd (drop 32 d) = 0" by (auto simp: signing_type_try_from_def split: if_splits)
    moreover have "drop 32 d \<noteq> []" using True by auto
    ultimately have "drop 32 d = 0 # as_slice message" using True by (metis list.collapse)
    with d show ?thesis by auto
  next
    case False
    with Cons d show ?thesis by (auto simp: Let_def split: if_splits)
  qed
qed simp

lemma signature_cell_signs:
  assumes "check_l2_account_signature_cell B e account Raw message = Ok ()"
  shows "signed_by B e account message"
proof -
  obtain i d where i: "i \<in> set (search_lock_hashes B e account Inputs)"
    and d: "load_cell_data e i Inputs = Ok d" "drop 32 d = 0 # as_slice message"
    using signature_cell_loop_Ok assms unfolding check_l2_account_signature_cell_def by blast
  from i have "i < length (cells_of e Inputs)" "hash_of B (cl_lock (cells_of e Inputs ! i)) = account"
    by (auto simp: search_lock_hashes_def enumerated_locks_def in_set_enumerate_eq)
  with d show ?thesis
    by (auto simp: signed_by_def load_cell_data_def load_cell_def index_get_def intro!: bexI [of _ "cells_of e Inputs ! i"])
qed

lemma fst_eq_Ok: "fst p = Ok x \<longleftrightarrow> (\<exists>t. p = (Ok x, t))"
  by (cases p) auto

lemma check_tx_scripts_Ok:
  assumes "check_tx_scripts B K config input sender receiver = Ok (a, b)"
  shows "tx_in_block B K (ti_target input) (ti_raw_block input) (ti_tx input)"
    and "hash_of B a = sender" and "hash_of B b = receiver"
  using assms
  by (auto simp: check_tx_scripts_def tx_in_block_def Let_def ok_or_def find_Some_iff split: if_splits option.splits)

lemma verify_tx_context_Ok:
  assumes "verify_tx_context B K M config input = Ok ctx"
  shows "tx_in_block B K (ti_target input) (ti_raw_block input) (ti_tx input)"
    and "state_before_tx B M (ti_target input) (ti_raw_block input) (ti_kv_state input)"
    and "account_field M (ti_kv_state input) (rtx_from_id (tx_raw (ti_tx input))) GW_ACCOUNT_SCRIPT_HASH_TYPE =
      Some (tc_sender_script_hash ctx)"
    and "account_field M (ti_kv_state input) (rtx_to_id (tx_raw (ti_tx input))) GW_ACCOUNT_SCRIPT_HASH_TYPE =
      Some (tc_receiver_script_hash ctx)"
    and "map_option to_u32 (account_field M (ti_kv_state input) (rtx_from_id (tx_raw (ti_tx input))) GW_ACCOUNT_NONCE_TYPE) =
      Some (rtx_nonce (tx_raw (ti_tx input)))"
proof -
  let ?T = "kv_state_ops M" and ?tx = "tx_raw (ti_tx input)" and ?s = "ti_kv_state input"
  obtain n a b c root u where
      g: "get_script_hash ?T (rtx_from_id ?tx) ?s = (Ok (tc_sender_script_hash ctx), ?s)"
        "get_script_hash ?T (rtx_to_id ?tx) ?s = (Ok (tc_receiver_script_hash ctx), ?s)"
        "get_nonce ?T (rtx_from_id ?tx) ?s = (Ok n, ?s)" "n = rtx_nonce ?tx"
    and k: "check_tx_scripts B K config input (tc_sender_script_hash ctx) (tc_receiver_script_hash ctx) = Ok (a, b)"
    and p: "tx_prev_state_checkpoint (ti_raw_block input) (ct_target_index (ti_target input)) = Ok c"
      "kv_calculate_root M ?s = (Ok root, u)" "c = state_checkpoint_of (blake2b (ck_externs B)) root (kv_account_count u)"
    using assms
    by (auto simp: verify_tx_context_def Let_def fst_eq_Ok sbind_Ok_iff kv_state_ops_def get_script_hash_def get_nonce_def
        split: if_splits)
  show "tx_in_block B K (ti_target input) (ti_raw_block input) (ti_tx input)" by (rule check_tx_scripts_Ok [OF k])
  show "state_before_tx B M (ti_target input) (ti_raw_block input) ?s"
    using p kv_calculate_root_count [OF p(2)] by (simp add: state_before_tx_def)
  show "account_field M ?s (rtx_from_id ?tx) GW_ACCOUNT_SCRIPT_HASH_TYPE = Some (tc_sender_script_hash ctx)"
    "account_field M ?s (rtx_to_id ?tx) GW_ACCOUNT_SCRIPT_HASH_TYPE = Some (tc_receiver_script_hash ctx)"
    "map_option to_u32 (account_field M ?s (rtx_from_id ?tx) GW_ACCOUNT_NONCE_TYPE) = Some (rtx_nonce ?tx)"
    using g by (simp_all add: account_field_def get_script_hash_def get_nonce_def kv_state_ops_def sbind_Ok_iff)
qed

text \<open>The three kinds of evidence.\<close>

definition execution_evidence ::
  "ckb_std \<Rightarrow> challenge_std \<Rightarrow> 't smt_tree \<Rightarrow> ckb_env \<Rightarrow> challenge_target \<Rightarrow> bool" where
  "execution_evidence B K M e target \<longleftrightarrow> (\<exists>raw_block tx s receiver.
     tx_in_block B K target raw_block tx \<and> state_before_tx B M target raw_block s \<and>
     account_field M s (rtx_to_id (tx_raw tx)) GW_ACCOUNT_SCRIPT_HASH_TYPE = Some receiver \<and>
     (\<exists>c\<in>set (cells_of e Inputs). hash_of B (cl_lock c) = receiver))"

definition signature_evidence ::
  "ckb_std \<Rightarrow> challenge_std \<Rightarrow> 't smt_tree \<Rightarrow> ckb_env \<Rightarrow> rollup_config \<Rightarrow> challenge_target \<Rightarrow> bool" where
  "signature_evidence B K M e config target \<longleftrightarrow> (\<exists>raw_block tx s ctx message.
     tx_in_block B K target raw_block tx \<and> state_before_tx B M target raw_block s \<and>
     account_field M s (rtx_from_id (tx_raw tx)) GW_ACCOUNT_SCRIPT_HASH_TYPE = Some (tc_sender_script_hash ctx) \<and>
     account_field M s (rtx_to_id (tx_raw tx)) GW_ACCOUNT_SCRIPT_HASH_TYPE = Some (tc_receiver_script_hash ctx) \<and>
     map_option to_u32 (account_field M s (rtx_from_id (tx_raw tx)) GW_ACCOUNT_NONCE_TYPE) = Some (rtx_nonce (tx_raw tx)) \<and>
     rtx_chain_id (tx_raw tx) = rc_chain_id config \<and> tx_signing_message B K (tx_raw tx) ctx = Ok message \<and>
     signed_by B e (tc_sender_script_hash ctx) message)"

definition withdrawal_evidence ::
  "ckb_std \<Rightarrow> challenge_std \<Rightarrow> ckb_env \<Rightarrow> rollup_config \<Rightarrow> challenge_target \<Rightarrow> bool" where
  "withdrawal_evidence B K e config target \<longleftrightarrow> (\<exists>raw_block w owner_lock address typed.
     withdrawal_in_block B K target raw_block w \<and> hash_of B owner_lock = rw_owner_lock_hash (wr_raw w) \<and>
     rw_chain_id (wr_raw w) = rc_chain_id config \<and> withdrawal_from_raw (wr_raw w) owner_lock address = Ok typed \<and>
     signed_by B e (rw_account_script_hash (wr_raw w)) (eip712_message K (withdrawal_eip712 K typed)
       (hash_struct K (domain_eip712 K (domain_with_chain_id (rc_chain_id config))))))"

lemma verify_tx_execution_Ok:
  assumes "verify_tx_execution B K M e config lock_args = Ok ()"
  shows "execution_evidence B K M e (ch_target lock_args)"
proof -
  obtain u :: cc_transaction_witness and s ctx i where v: "verify_tx_context B K M config \<lparr> ti_tx = ct_l2tx u, ti_kv_state = s, ti_scripts = ct_scripts u,
      ti_raw_block = ct_raw_l2block u, ti_target = ch_target lock_args, ti_tx_proof = ct_tx_proof u \<rparr> = Ok ctx"
    and "search_lock_hash B e (tc_receiver_script_hash ctx) Inputs = Some i"
    using assms by (auto simp: verify_tx_execution_def split: if_splits)
  then have "\<exists>c\<in>set (cells_of e Inputs). hash_of B (cl_lock c) = tc_receiver_script_hash ctx"
    by (auto simp: search_lock_hash_def position_Some_iff)
  with verify_tx_context_Ok(1,2,4) [OF v] show ?thesis unfolding execution_evidence_def
    by (intro exI [of _ "ct_raw_l2block u"] exI [of _ "ct_l2tx u"] exI [of _ s] exI [of _ "tc_receiver_script_hash ctx"]) simp
qed

lemma verify_tx_signature_Ok:
  assumes "verify_tx_signature B K M e config lock_args = Ok ()"
  shows "signature_evidence B K M e config (ch_target lock_args)"
proof -
  obtain u :: cc_signature_witness and s ctx message where v: "verify_tx_context B K M config \<lparr> ti_tx = cg_l2tx u, ti_kv_state = s,
      ti_scripts = [cg_sender u, cg_receiver u], ti_raw_block = cg_raw_l2block u, ti_target = ch_target lock_args,
      ti_tx_proof = cg_tx_proof u \<rparr> = Ok ctx"
    and m: "tx_signing_message B K (tx_raw (cg_l2tx u)) ctx = Ok message" "rc_chain_id config = rtx_chain_id (tx_raw (cg_l2tx u))"
    and c: "check_l2_account_signature_cell B e (tc_sender_script_hash ctx) Raw message = Ok ()"
    using assms by (auto simp: verify_tx_signature_def Let_def split: if_splits)
  from verify_tx_context_Ok [OF v] m signature_cell_signs [OF c] show ?thesis
    unfolding signature_evidence_def
    by (intro exI [of _ "cg_raw_l2block u"] exI [of _ "cg_l2tx u"] exI [of _ s] exI [of _ ctx] exI [of _ message]) simp
qed

lemma verify_withdrawal_Ok:
  assumes "verify_withdrawal B K M e config lock_args = Ok ()"
  shows "withdrawal_evidence B K e config (ch_target lock_args)"
proof -
  obtain ctx typed where p: "verify_withdrawal_proof B K M e lock_args = Ok ctx"
    and t: "rc_chain_id config = rw_chain_id (wr_raw (wx_withdrawal ctx))"
      "withdrawal_from_raw (wr_raw (wx_withdrawal ctx)) (wx_owner_lock ctx) (wx_withdrawal_address ctx) = Ok typed"
    and c: "check_l2_account_signature_cell B e (wx_sender_script_hash ctx) Raw (eip712_message K (withdrawal_eip712 K typed)
      (hash_struct K (domain_eip712 K (domain_with_chain_id (rw_chain_id (wr_raw (wx_withdrawal ctx))))))) = Ok ()"
    using assms by (auto simp: verify_withdrawal_def Let_def split: if_splits)
  from p obtain raw_block where "withdrawal_in_block B K (ch_target lock_args) raw_block (wx_withdrawal ctx)"
    and "hash_of B (wx_owner_lock ctx) = rw_owner_lock_hash (wr_raw (wx_withdrawal ctx))"
    and "wx_sender_script_hash ctx = rw_account_script_hash (wr_raw (wx_withdrawal ctx))"
    by (auto simp: verify_withdrawal_proof_def withdrawal_in_block_def Let_def split: if_splits) blast
  with t signature_cell_signs [OF c] show ?thesis unfolding withdrawal_evidence_def by metis
qed


text \<open>
  The challenge of the withdrawal in the sample run is cancelled: the second input is the challenge
  cell, the third a cell of the account that carries the message.
\<close>

definition cancel_ckb :: ckb_std where
  "cancel_ckb = chain_std\<lparr> rd_rollup_action := map_of [([4], RollupCancelChallenge)] \<rparr>"

definition cancel_request :: withdrawal_request where
  "cancel_request = \<lparr> wr_raw = (wr_raw sample_withdrawal)\<lparr> rw_owner_lock_hash := script_hash sample_externs owner_script \<rparr>,
     wr_signature = [] \<rparr>"

definition cancel_witness :: cc_withdrawal_witness where
  "cancel_witness = \<lparr>
     cd_raw_l2block = sample_raw_block, cd_withdrawal = cancel_request, cd_sender = sample_script,
     cd_owner_lock = owner_script,
     cd_withdrawal_proof = \<lparr> mp_indices = [0], mp_lemmas =
       [ckb_merkle_leaf_hash tag_hash 0 (withdrawal_request_witness_hash sample_externs cancel_request)] \<rparr>,
     cd_kv_state_proof = [], cd_kv_state = [(reg_addr_key tag_hash sample_script_hash, reg_value sample_address)],
     cd_account_count = 2 \<rparr>"

definition cancel_keys :: challenge_std where
  "cancel_keys = cancel_std\<lparr> rd_cc_withdrawal := map_of [([8], cancel_witness)] \<rparr>"

definition cancel_typed :: eip712_withdrawal where
  "cancel_typed = sample_eip712_withdrawal\<lparr> ew_address := \<lparr> er_registry = ''ETH'', er_address = replicate 20 7 \<rparr> \<rparr>"

definition cancel_message :: h256 where
  "cancel_message = eip712_message cancel_keys (withdrawal_eip712 cancel_keys cancel_typed)
     (hash_struct cancel_keys (domain_eip712 cancel_keys (domain_with_chain_id 71400)))"

definition cancel_env :: ckb_env where
  "cancel_env = \<lparr>
     en_tx = \<lparr>
       tx_inputs = [rollup_cell [3], ckb_cell 200 (rollup_lock 5 [1]),
         \<lparr> cl_capacity = 1, cl_lock = sample_script, cl_type = None,
            cl_data = replicate 32 0 @ 0 # as_slice cancel_message \<rparr>],
       tx_sinces = [0, 0, 0], tx_outputs = [rollup_cell [2]],
       tx_cell_deps = [\<lparr> cl_capacity = 1, cl_lock = owner_script, cl_type = None, cl_data = [14] \<rparr>],
       tx_witnesses = [[4], [8]], tx_first_input = [] \<rparr>,
     en_script = rollup_lock 5 [1], en_group = LockGroup \<rparr>"

lemma cancel_cells:
  "cells_of cancel_env Inputs = [rollup_cell [3], ckb_cell 200 (rollup_lock 5 [1]),
     \<lparr> cl_capacity = 1, cl_lock = sample_script, cl_type = None,
        cl_data = replicate 32 0 @ 0 # as_slice cancel_message \<rparr>]"
  "cells_of cancel_env Outputs = [rollup_cell [2]]"
  "cells_of cancel_env CellDeps = [\<lparr> cl_capacity = 1, cl_lock = owner_script, cl_type = None, cl_data = [14] \<rparr>]"
  "load_witness cancel_env 0 GroupInputs = Ok [8]" "load_witness cancel_env 0 Outputs = Ok [4]"
  "en_script cancel_env = rollup_lock 5 [1]"
  by (simp_all add: cancel_env_def in_group_def group_indices_def enumerate_eq_zip index_get_def
      cells_of.simps load_witness.simps) (simp_all add: rollup_lock_def owner_script_def sample_script_def)

declare cells_of.simps [simp del] load_witness.simps [simp del]

lemma cancel_steps:
  "challenge_lock_parse cancel_ckb cancel_env = Ok (rollup_hash, challenge_args)"
  "search_rollup_cell cancel_ckb cancel_env rollup_hash Outputs = Some 0"
  "parse_rollup_action cancel_ckb cancel_env 0 Outputs = Ok RollupCancelChallenge"
  "search_rollup_state cancel_ckb cancel_env rollup_hash Inputs = Ok (Some chain_halted)"
  "load_rollup_config cancel_ckb cancel_env 14 = Ok sample_config"
proof -
  show "challenge_lock_parse cancel_ckb cancel_env = Ok (rollup_hash, challenge_args)"
    by (simp add: challenge_lock_parse_def rollup_lock_args_def cancel_cells cancel_ckb_def)
      (simp add: rollup_lock_def h256_of_as_slice)
qed (simp_all add: cancel_ckb_def search_rollup_state_def search_rollup_cell_def cancel_cells load_cell_data_def
    load_cell_def index_get_def read_global_state_def load_rollup_config_def search_rollup_config_cell_def
    parse_rollup_action_def MAX_ROLLUP_WITNESS_SIZE_def)

lemma cancel_proof:
  "verify_withdrawal_proof cancel_ckb cancel_keys function_tree cancel_env challenge_args =
     Ok \<lparr> wx_withdrawal = cancel_request, wx_sender_script_hash = sample_script_hash,
          wx_withdrawal_address = sample_address, wx_owner_lock = owner_script \<rparr>"
proof -
  have e: "ck_externs cancel_ckb = sample_externs" "rd_witness_args cancel_ckb w = Some \<lparr> wa_lock = Some w, wa_input_type = None, wa_output_type = Some w \<rparr>" for w
    by (simp_all add: cancel_ckb_def)
  have k: "rd_cc_withdrawal cancel_keys [8] = Some cancel_witness"
    "cbmt_verify cancel_keys p root leaves \<longleftrightarrow> leaves = mp_lemmas p \<and> mp_indices p = [0]" for p root leaves
    by (simp_all add: cancel_keys_def cancel_std_def)
  have r: "rw_account_script_hash (wr_raw cancel_request) = sample_script_hash"
    "rw_owner_lock_hash (wr_raw cancel_request) = script_hash sample_externs owner_script"
    by (simp_all add: cancel_request_def sample_withdrawal_fields)
  have b: "raw_l2block_hash sample_externs sample_raw_block = ct_block_hash (ch_target challenge_args)"
    "ct_target_index (ch_target challenge_args) = 0"
    by (simp_all add: challenge_args_def sample_block_hash)
  define s :: "(h256 \<rightharpoonup> h256) kv_state" where
    "s = \<lparr> kv_tree = [reg_addr_key tag_hash sample_script_hash \<mapsto> reg_value sample_address], kv_proof = [],
       kv_account_count = 2, kv_previous_root = None \<rparr>"
  have s: "kv_build function_tree GW_MAX_KV_PAIRS (cd_kv_state cancel_witness) (cd_kv_state_proof cancel_witness)
      (cd_account_count cancel_witness) None = Ok s"
    by (simp add: kv_build_def cancel_witness_def s_def function_tree_def)
  have "get_registry_address_by_script_hash (kv_state_ops function_tree) tag_hash ETH_REGISTRY_ACCOUNT_ID
      sample_script_hash s = (Ok (Some sample_address), s)"
    by (simp add: get_registry_address_by_script_hash_def get_value_def kv_state_ops_def kv_get_raw_def function_tree_def
        sbind_run s_def read_map_def reg_addr_key_def script_hash_key_eq)
  then show ?thesis
    using s by (simp add: verify_withdrawal_proof_def load_witness_args_def cancel_cells e k r b Let_def map_err_def)
      (simp add: cancel_witness_def r b)
qed

lemma cancel_signed: "check_l2_account_signature_cell cancel_ckb cancel_env sample_script_hash Raw cancel_message = Ok ()"
proof -
  have "hash_of cancel_ckb sample_script = sample_script_hash" "hash_of cancel_ckb owner_script \<noteq> sample_script_hash"
    "hash_of cancel_ckb (rollup_lock 5 [1]) \<noteq> sample_script_hash"
    by (simp_all add: cancel_ckb_def sample_script_def)
      (simp_all add: as_slice_inject [symmetric] sample_script_hash_def script_hash_def sample_externs_def owner_script_def
        rollup_lock_def tag_hash_bytes del: as_slice_inject, simp_all add: as_slice_def to_le_bytes_def upt_rec)
  then have "search_lock_hashes cancel_ckb cancel_env sample_script_hash Inputs = [2]"
    by (simp add: search_lock_hashes_def enumerated_locks_def cancel_cells)
  then show ?thesis
    by (simp add: check_l2_account_signature_cell_def load_cell_data_def load_cell_def index_get_def cancel_cells
        signing_type_try_from_def)
qed

lemma cancel_accepted: "challenge_lock_main cancel_ckb cancel_keys function_tree cancel_env = Ok ()"
proof -
  have "withdrawal_from_raw (wr_raw cancel_request) owner_script sample_address = Ok cancel_typed"
    by (simp add: withdrawal_from_raw_def cancel_request_def sample_withdrawal_def owner_script_def
        script_hash_type_try_from_def eip712_from_address_def sample_address_def ETH_REGISTRY_ACCOUNT_ID_def
        cancel_typed_def sample_eip712_withdrawal_def)
  moreover have "rw_chain_id (wr_raw cancel_request) = 71400" "rc_chain_id sample_config = 71400"
    by (simp_all add: cancel_request_def sample_withdrawal_def sample_config_def)
  ultimately have "verify_withdrawal cancel_ckb cancel_keys function_tree cancel_env sample_config challenge_args = Ok ()"
    using cancel_proof cancel_signed by (simp add: verify_withdrawal_def Let_def cancel_message_def)
  moreover have "gs_rollup_config_hash chain_halted = 14" "challenge_target_type_try_from (ct_target_type (ch_target challenge_args)) = Ok Withdrawal"
    by (simp_all add: chain_halted_def chain_post_def chain_prev_def challenge_args_def challenge_target_type_try_from_def)
  ultimately show ?thesis by (simp add: challenge_lock_main_def cancel_steps)
qed


end
